(* ===== verification/Prelude.thy ===== *)
theory Prelude
  imports Main "HOL-Library.Word" "HOL-Library.AList" "HOL-Library.Multiset"
begin

text \<open>
  Shared vocabulary of the development: the Go values the node manipulates
  (bytes, slices, fixed-width integers, strings), the outcome of a Go call, indexing that
  panics out of range, hexadecimal text, and the generic lemmas the components use.

  \<^item> \<open>int64\<close> and Go's \<open>int\<close> on a 64-bit target are \<open>64 word\<close>: addition wraps and
    comparisons go through \<open>sint\<close>.
  \<^item> a byte slice is a list of \<open>8 word\<close>. A nil slice and an empty slice are both \<open>[]\<close>:
    the code tells them apart only on values that come out of a gob decoder, which gives
    nil for every empty slice.
  \<^item> a Go call returns a value, returns an error, panics, or never returns; \<open>result\<close> has
    one constructor for each, so that no failure of the source is hidden in a total function.
\<close>

section \<open>Types\<close>

type_synonym byte = "8 word"
type_synonym bytes = "byte list"
type_synonym int64 = "64 word"
type_synonym int32 = "32 word"

text \<open>
  Errors: the sentinel of the storage package, a fresh message, a message wrapped around
  another error (\<^verbatim>\<open>fmt.Errorf("...: %w", err)\<close>), and the error of a cancelled context.
\<close>

datatype goerr = ErrNotFound | ErrMsg string | Wrap string goerr | ContextCanceled

datatype 'a result = Ok 'a | Error goerr | Panic string | Diverge

text \<open>\<^verbatim>\<open>errors.Is\<close> walks the chain of wrapped errors.\<close>

fun errors_Is :: "goerr \<Rightarrow> goerr \<Rightarrow> bool" where
  "errors_Is (Wrap m e) target = (Wrap m e = target \<or> errors_Is e target)"
| "errors_Is e target = (e = target)"

text \<open>\<^verbatim>\<open>err.Error()\<close>.\<close>

fun err_text :: "goerr \<Rightarrow> string" where
  "err_text ErrNotFound = ''key not found in storage''"
| "err_text (ErrMsg m) = m"
| "err_text (Wrap m e) = m @ '': '' @ err_text e"
| "err_text ContextCanceled = ''context canceled''"

section \<open>Outcomes\<close>

fun bind_result :: "'a result \<Rightarrow> ('a \<Rightarrow> 'b result) \<Rightarrow> 'b result" where
  "bind_result (Ok x) f = f x"
| "bind_result (Error e) f = Error e"
| "bind_result (Panic s) f = Panic s"
| "bind_result Diverge f = Diverge"

text \<open>\<open>wrap_err m r\<close> is \<^verbatim>\<open>if err != nil { return fmt.Errorf("m: %w", err) }\<close>.\<close>

fun wrap_err :: "string \<Rightarrow> 'a result \<Rightarrow> 'a result" where
  "wrap_err m (Error e) = Error (Wrap m e)"
| "wrap_err m r = r"

text \<open>The failures of one call returned as the failure of its caller.\<close>

fun as_failure :: "'a result \<Rightarrow> 'b result" where
  "as_failure (Error e) = Error e"
| "as_failure (Panic s) = Panic s"
| "as_failure _ = Diverge"

fun is_Ok :: "'a result \<Rightarrow> bool" where
  "is_Ok (Ok x) = True"
| "is_Ok _ = False"

named_theorems result_simps \<open>case analysis of outcomes\<close>

lemma bind_result_eq_Ok [result_simps]:
  "bind_result r f = Ok y \<longleftrightarrow> (\<exists>x. r = Ok x \<and> f x = Ok y)"
  by (cases r) auto

lemma wrap_err_eq_Ok [result_simps]: "wrap_err m r = Ok x \<longleftrightarrow> r = Ok x"
  by (cases r) auto

lemma as_failure_neq_Ok [simp]: "as_failure r \<noteq> Ok x"
  by (cases r) auto

lemma is_Ok_iff [result_simps]: "is_Ok r \<longleftrightarrow> (\<exists>x. r = Ok x)"
  by (cases r) auto

lemma bind_result_assoc:
  "bind_result (bind_result r f) g = bind_result r (\<lambda>x. bind_result (f x) g)"
  by (cases r) auto

section \<open>Indexing and slicing\<close>

text \<open>\<^verbatim>\<open>xs[i]\<close>: panics unless \<open>0 \<le> i < len(xs)\<close>.\<close>

definition go_index :: "'a list \<Rightarrow> int64 \<Rightarrow> 'a result" where
  "go_index xs i =
     (if 0 \<le> sint i \<and> sint i < int (length xs) then Ok (xs ! nat (sint i))
      else Panic ''index out of range'')"

lemma go_index_eq_Ok:
  "go_index xs i = Ok x \<longleftrightarrow> 0 \<le> sint i \<and> sint i < int (length xs) \<and> x = xs ! nat (sint i)"
  by (auto simp: go_index_def)

lemma go_index_in_set: "go_index xs i = Ok x \<Longrightarrow> x \<in> set xs"
  by (auto simp: go_index_eq_Ok)

text \<open>\<^verbatim>\<open>xs[lo:hi]\<close> for bounds the caller has checked.\<close>

definition slice :: "nat \<Rightarrow> nat \<Rightarrow> 'a list \<Rightarrow> 'a list" where
  "slice lo hi xs = drop lo (take hi xs)"

lemma length_slice [simp]: "length (slice lo hi xs) = min hi (length xs) - lo"
  by (simp add: slice_def min_def)

section \<open>Fixed-width integers\<close>

abbreviation max_int64 :: int where "max_int64 \<equiv> 2 ^ 63 - 1"

lemma sint_range64: "- (2 ^ 63) \<le> sint (x :: int64)" "sint (x :: int64) < 2 ^ 63"
  using sint_ge [of x] sint_lt [of x] by simp_all

lemma sint_of_int64: "- (2 ^ 63) \<le> i \<Longrightarrow> i < 2 ^ 63 \<Longrightarrow> sint (word_of_int i :: int64) = i"
  by (simp add: sint_sbintrunc' signed_take_bit_int_eq_self)

lemma sint_add64:
  fixes a b :: int64
  assumes "- (2 ^ 63) \<le> sint a + sint b" and "sint a + sint b < 2 ^ 63"
  shows "sint (a + b) = sint a + sint b"
proof -
  have "a + b = word_of_int (sint a + sint b)" by simp
  then show ?thesis using sint_of_int64 [OF assms] by metis
qed

lemma sint_sub64:
  fixes a b :: int64
  assumes "- (2 ^ 63) \<le> sint a - sint b" and "sint a - sint b < 2 ^ 63"
  shows "sint (a - b) = sint a - sint b"
proof -
  have "a - b = word_of_int (sint a - sint b)" by simp
  then show ?thesis using sint_of_int64 [OF assms] by metis
qed

text \<open>A sum of non-negative values that stays below the bound is exact at 64 bits.\<close>

lemma sint_sum_list64:
  fixes ws :: "int64 list"
  assumes "\<forall>w \<in> set ws. 0 \<le> sint w" and "(\<Sum>w\<leftarrow>ws. sint w) < 2 ^ 63"
  shows "sint (sum_list ws) = (\<Sum>w\<leftarrow>ws. sint w)"
  using assms
proof (induction ws)
  case Nil
  then show ?case by simp
next
  case (Cons w ws)
  have nonneg: "0 \<le> (\<Sum>w\<leftarrow>ws. sint w)"
    using Cons.prems(1) by (auto intro!: sum_list_nonneg)
  then have IH: "sint (sum_list ws) = (\<Sum>w\<leftarrow>ws. sint w)"
    using Cons by auto
  have "sint (w + sum_list ws) = sint w + sint (sum_list ws)"
    using Cons.prems nonneg IH by (intro sint_add64) auto
  then show ?case using IH by simp
qed

section \<open>Strings, bytes and hexadecimal text\<close>

definition string_bytes :: "string \<Rightarrow> bytes" where
  "string_bytes s = map (\<lambda>c. of_nat (of_char c)) s"

definition bytes_string :: "bytes \<Rightarrow> string" where
  "bytes_string bs = map (\<lambda>b. char_of (unat b)) bs"

lemma string_bytes_inverse [simp]: "string_bytes (bytes_string bs) = bs"
proof -
  have "of_nat (of_char (char_of (unat b) :: char)) = b" for b :: byte
  proof -
    have "unat b < 256" using unsigned_less [of b, where ?'a = nat] by simp
    then show ?thesis by simp
  qed
  then show ?thesis by (simp add: string_bytes_def bytes_string_def map_idI)
qed

lemma bytes_string_inverse [simp]: "bytes_string (string_bytes s) = s"
proof -
  have "char_of (unat (of_nat (of_char c) :: byte)) = c" for c :: char
  proof -
    have "of_char c < (256 :: nat)" by (rule nat_of_char_less_256)
    then have "unat (of_nat (of_char c) :: byte) = of_char c"
      by (simp add: unsigned_of_nat take_bit_nat_eq_self)
    then show ?thesis by simp
  qed
  then show ?thesis by (simp add: string_bytes_def bytes_string_def map_idI)
qed

lemma string_bytes_inject [simp]: "string_bytes s = string_bytes t \<longleftrightarrow> s = t"
  by (metis bytes_string_inverse)

definition hex_digit :: "nat \<Rightarrow> char" where
  "hex_digit n = ''0123456789abcdef'' ! n"

definition hex_value :: "char \<Rightarrow> nat option" where
  "hex_value c =
     (let n = of_char c in
      if 48 \<le> n \<and> n \<le> 57 then Some (n - 48)
      else if 97 \<le> n \<and> n \<le> 102 then Some (n - 87)
      else if 65 \<le> n \<and> n \<le> 70 then Some (n - 55)
      else None)"

text \<open>\<^verbatim>\<open>hex.EncodeToString\<close> and \<^verbatim>\<open>hex.DecodeString\<close> of the standard library.\<close>

fun hex_encode :: "bytes \<Rightarrow> string" where
  "hex_encode [] = []"
| "hex_encode (b # bs) =
     hex_digit (unat b div 16) # hex_digit (unat b mod 16) # hex_encode bs"

fun hex_decode :: "string \<Rightarrow> bytes result" where
  "hex_decode [] = Ok []"
| "hex_decode [c] = Error (ErrMsg ''encoding/hex: odd length hex string'')"
| "hex_decode (c # d # cs) =
     (case (hex_value c, hex_value d) of
        (Some h, Some l) \<Rightarrow>
          bind_result (hex_decode cs) (\<lambda>bs. Ok (of_nat (16 * h + l) # bs))
      | _ \<Rightarrow> Error (ErrMsg ''encoding/hex: invalid byte''))"

lemma hex_value_digit: "n < 16 \<Longrightarrow> hex_value (hex_digit n) = Some n"
proof -
  assume "n < 16"
  then have "n \<in> {0, 1, 2, 3, 4, 5, 6, 7, 8, 9, 10, 11, 12, 13, 14, 15}" by simp presburger
  then show ?thesis by (auto simp: hex_value_def hex_digit_def Let_def)
qed

lemma hex_decode_encode [simp]: "hex_decode (hex_encode bs) = Ok bs"
proof (induction bs)
  case Nil
  then show ?case by simp
next
  case (Cons b bs)
  have "unat b < 256" using unsigned_less [of b, where ?'a = nat] by simp
  then have "unat b div 16 < 16" "unat b mod 16 < 16" by auto
  moreover have "16 * (unat b div 16) + unat b mod 16 = unat b" by simp
  ultimately show ?case using Cons.IH by (simp add: hex_value_digit)
qed

lemma hex_encode_inject [simp]: "hex_encode a = hex_encode b \<longleftrightarrow> a = b"
  by (metis hex_decode_encode result.inject(1))

lemma length_hex_encode [simp]: "length (hex_encode bs) = 2 * length bs"
  by (induction bs) auto

text \<open>\<^verbatim>\<open>%d\<close>: decimal text of an integer.\<close>

fun nat_dec :: "nat \<Rightarrow> string" where
  "nat_dec n = (if n < 10 then [hex_digit n] else nat_dec (n div 10) @ [hex_digit (n mod 10)])"

declare nat_dec.simps [simp del]

definition fmt_d :: "int \<Rightarrow> string" where
  "fmt_d i = (if i < 0 then ''-'' @ nat_dec (nat (- i)) else nat_dec (nat i))"

section \<open>Association lists\<close>

text \<open>
  A Go map that the code ranges over is an association list with distinct keys in insertion
  order. Go ranges over maps in an unspecified order: the operations that range over one take
  the order as an argument, a function that permutes the entries.
\<close>

definition is_order :: "(('k \<times> 'v) list \<Rightarrow> ('k \<times> 'v) list) \<Rightarrow> bool" where
  "is_order ord \<longleftrightarrow> (\<forall>kvs. mset (ord kvs) = mset kvs)"

lemma is_order_id [simp]: "is_order (\<lambda>kvs. kvs)"
  by (simp add: is_order_def)

lemma is_order_set: "is_order ord \<Longrightarrow> set (ord kvs) = set kvs"
  unfolding is_order_def by (metis set_mset_mset)

lemma is_order_length: "is_order ord \<Longrightarrow> length (ord kvs) = length kvs"
  unfolding is_order_def by (metis size_mset)

lemma is_order_map_of:
  assumes "is_order ord" and "distinct (map fst kvs)"
  shows "map_of (ord kvs) = map_of kvs"
proof -
  have "mset (map fst (ord kvs)) = mset (map fst kvs)"
    using assms(1) by (simp add: is_order_def)
  then have "distinct (map fst (ord kvs))"
    using assms(2) by (metis mset_eq_imp_distinct_iff)
  then show ?thesis
    using assms is_order_set [OF assms(1), of kvs] by (metis map_of_inject_set)
qed

text \<open>Enumerating a slice, as \<^verbatim>\<open>for i, x := range xs\<close> does.\<close>

abbreviation indexed :: "'a list \<Rightarrow> (nat \<times> 'a) list" where
  "indexed xs \<equiv> zip [0..<length xs] xs"

lemma in_set_indexed: "(i, x) \<in> set (indexed xs) \<longleftrightarrow> i < length xs \<and> x = xs ! i"
  by (force simp: in_set_zip)

text \<open>
  \<^verbatim>\<open>m[k] = append(m[k], x)\<close> on a map of slices.
\<close>

definition alist_append :: "'k \<Rightarrow> 'v \<Rightarrow> ('k \<times> 'v list) list \<Rightarrow> ('k \<times> 'v list) list" where
  "alist_append k x m = AList.update k ((case map_of m k of None \<Rightarrow> [] | Some xs \<Rightarrow> xs) @ [x]) m"

definition alist_get :: "('k \<times> 'v list) list \<Rightarrow> 'k \<Rightarrow> 'v list" where
  "alist_get m k = (case map_of m k of None \<Rightarrow> [] | Some xs \<Rightarrow> xs)"

lemma alist_get_append [simp]:
  "alist_get (alist_append k x m) k' = (if k' = k then alist_get m k @ [x] else alist_get m k')"
  by (simp add: alist_get_def alist_append_def update_conv')

lemma distinct_alist_append [simp]:
  "distinct (map fst m) \<Longrightarrow> distinct (map fst (alist_append k x m))"
  by (simp add: alist_append_def distinct_update)

lemma dom_alist_append: "fst ` set (alist_append k x m) = insert k (fst ` set m)"
  by (simp add: alist_append_def dom_update)

lemma set_AList_update: "set (AList.update k v m) \<subseteq> insert (k, v) (set m)"
  by (induction m) auto

lemma alist_get_Nil [simp]: "alist_get [] k = []"
  by (simp add: alist_get_def)

text \<open>A map whose entries lie under the key that a function of the entry gives.\<close>

definition keyed :: "('v \<Rightarrow> 'k) \<Rightarrow> ('k \<times> 'v) list \<Rightarrow> bool" where
  "keyed key m \<longleftrightarrow> distinct (map fst m) \<and> (\<forall>(k, v) \<in> set m. k = key v)"

lemma keyed_Nil [simp]: "keyed key []"
  by (simp add: keyed_def)

lemma keyed_update: "keyed key m \<Longrightarrow> keyed key (AList.update (key v) v m)"
  unfolding keyed_def by (auto simp: distinct_update dest!: subsetD [OF set_AList_update])

lemma keyed_delete: "keyed key m \<Longrightarrow> keyed key (AList.delete k m)"
  unfolding keyed_def by (auto simp: distinct_delete) (auto simp: AList.delete_eq)

lemma keyed_lookup: "keyed key m \<Longrightarrow> map_of m k = Some v \<Longrightarrow> k = key v"
  unfolding keyed_def by (auto dest!: map_of_SomeD)

lemma length_AList_delete_less: "map_of m k \<noteq> None \<Longrightarrow> length (AList.delete k m) < length m"
proof (induction m)
  case (Cons a m)
  then show ?case using length_delete_le [of k m] by (auto simp: less_Suc_eq_le split: if_splits)
qed simp

end
