(* ===== verification/Encoding.thy ===== *)
theory Encoding
  imports Prelude
begin

text \<open>
  Byte-level encodings: \<^verbatim>\<open>internal/core/utils.go\<close> and \<^verbatim>\<open>internal/core/base58.go\<close>,
  on top of the three conversions of \<^verbatim>\<open>math/big\<close> they use (\<open>SetBytes\<close>, \<open>Bytes\<close>,
  \<open>FillBytes\<close>). The main results are that the in-place reversal reverses, that big-endian
  numbers round trip, and that Base58 decoding inverts encoding on every byte string.
\<close>

section \<open>Big-endian numbers (math/big)\<close>

definition SetBytes :: "bytes \<Rightarrow> nat" where
  "SetBytes bs = foldl (\<lambda>a b. a * 256 + unat b) 0 bs"

fun big_Bytes :: "nat \<Rightarrow> bytes" where
  "big_Bytes n = (if n = 0 then [] else big_Bytes (n div 256) @ [of_nat (n mod 256)])"

declare big_Bytes.simps [simp del]

lemma big_Bytes_0 [simp]: "big_Bytes 0 = []"
  by (simp add: big_Bytes.simps)

lemma big_Bytes_pos: "0 < n \<Longrightarrow> big_Bytes n = big_Bytes (n div 256) @ [of_nat (n mod 256)]"
  by (subst big_Bytes.simps) simp

text \<open>\<^verbatim>\<open>x.FillBytes(buf)\<close>: zero-extended to the buffer, a panic when the value does not fit.\<close>

definition FillBytes :: "nat \<Rightarrow> nat \<Rightarrow> bytes result" where
  "FillBytes k n =
     (let bs = big_Bytes n in
      if length bs \<le> k then Ok (replicate (k - length bs) 0 @ bs)
      else Panic ''math/big: buffer too small to fit value'')"

lemma unat_less_256: "unat (b :: byte) < 256"
  using unsigned_less [of b, where ?'a = nat] by simp

lemma unat_of_nat_byte: "n < 256 \<Longrightarrow> unat (of_nat n :: byte) = n"
  by (simp add: unsigned_of_nat take_bit_nat_eq_self)

lemma SetBytes_Nil [simp]: "SetBytes [] = 0"
  by (simp add: SetBytes_def)

lemma SetBytes_snoc [simp]: "SetBytes (bs @ [b]) = SetBytes bs * 256 + unat b"
  by (simp add: SetBytes_def)

lemma SetBytes_big_Bytes [simp]: "SetBytes (big_Bytes n) = n"
proof (induction n rule: less_induct)
  case (less n)
  show ?case
  proof (cases "n = 0")
    case False
    with less show ?thesis by (simp add: big_Bytes_pos unat_of_nat_byte)
  qed simp
qed

lemma SetBytes_zeros: "SetBytes (replicate k 0 @ bs) = SetBytes bs"
proof -
  have "foldl (\<lambda>a b. a * 256 + unat b) 0 (replicate k (0 :: byte)) = 0"
    by (induction k) auto
  then show ?thesis by (simp add: SetBytes_def)
qed

lemma SetBytes_eq_0: "SetBytes bs = 0 \<longleftrightarrow> (\<forall>b \<in> set bs. b = 0)"
proof (induction bs rule: rev_induct)
  case (snoc b bs)
  then show ?case by (auto simp: unat_eq_zero)
qed simp

text \<open>\<^verbatim>\<open>Bytes\<close> drops exactly the leading zero bytes.\<close>

lemma big_Bytes_SetBytes: "big_Bytes (SetBytes bs) = dropWhile (\<lambda>b. b = 0) bs"
proof (induction bs rule: rev_induct)
  case Nil
  then show ?case by simp
next
  case (snoc b bs)
  show ?case
  proof (cases "SetBytes (bs @ [b]) = 0")
    case True
    then have "\<forall>x \<in> set (bs @ [b]). x = 0" using SetBytes_eq_0 by blast
    then have "dropWhile (\<lambda>b. b = 0) (bs @ [b]) = []" by simp
    then show ?thesis using True by simp
  next
    case False
    have div: "SetBytes (bs @ [b]) div 256 = SetBytes bs"
      and mod: "SetBytes (bs @ [b]) mod 256 = unat b"
      using unat_less_256 [of b] by simp_all
    have "0 < SetBytes (bs @ [b])" using False by blast
    from big_Bytes_pos [OF this]
    have split: "big_Bytes (SetBytes (bs @ [b])) = dropWhile (\<lambda>b. b = 0) bs @ [b]"
      unfolding div mod snoc.IH by simp
    show ?thesis
    proof (cases "\<forall>x \<in> set bs. x = 0")
      case True
      then have "b \<noteq> 0" using False SetBytes_eq_0 [of "bs @ [b]"] by auto
      with True show ?thesis using split by (simp add: dropWhile_append2)
    next
      case nz: False
      then show ?thesis using split by (auto simp: dropWhile_append1)
    qed
  qed
qed

lemma FillBytes_OkD:
  assumes "FillBytes k n = Ok bs"
  shows "length bs = k" and "SetBytes bs = n"
  using assms by (auto simp: FillBytes_def Let_def SetBytes_zeros split: if_splits)

lemma length_big_Bytes: "n < 256 ^ k \<Longrightarrow> length (big_Bytes n) \<le> k"
proof (induction k arbitrary: n)
  case (Suc k)
  show ?case
  proof (cases "n = 0")
    case False
    have "n div 256 < 256 ^ k"
      using Suc.prems by (simp add: less_mult_imp_div_less mult.commute)
    then show ?thesis using Suc.IH False by (simp add: big_Bytes_pos)
  qed simp
qed simp

lemma FillBytes_fits: "n < 256 ^ k \<Longrightarrow> \<exists>bs. FillBytes k n = Ok bs"
  using length_big_Bytes by (auto simp: FillBytes_def Let_def)

section \<open>utils.go\<close>

definition IntToHex :: "int64 \<Rightarrow> bytes" where
  "IntToHex num = rev (map (\<lambda>i. ucast (drop_bit (8 * i) num)) [0..<8])"

text \<open>The swap loop of \<^verbatim>\<open>ReverseBytes\<close>, with the loop variables \<open>i\<close> and \<open>j\<close>.\<close>

function reverse_loop :: "int \<Rightarrow> int \<Rightarrow> 'a list \<Rightarrow> 'a list" where
  "reverse_loop i j data =
     (if i < j
      then reverse_loop (i + 1) (j - 1) (data[nat i := data ! nat j, nat j := data ! nat i])
      else data)"
  by pat_completeness auto
termination
  by (relation "measure (\<lambda>(i, j, data). nat (j - i))") auto

declare reverse_loop.simps [simp del]

definition ReverseBytes :: "'a list \<Rightarrow> 'a list" where
  "ReverseBytes data = reverse_loop 0 (int (length data) - 1) data"

lemma length_IntToHex [simp]: "length (IntToHex n) = 8"
  by (simp add: IntToHex_def)

lemma IntToHex_inject: "IntToHex a = IntToHex b \<longleftrightarrow> a = b"
proof
  assume eq: "IntToHex a = IntToHex b"
  have byte: "(ucast (drop_bit (8 * i) a) :: byte) = ucast (drop_bit (8 * i) b)" if "i < 8" for i
    using eq that by (simp add: IntToHex_def)
  have "bit a n = bit b n" if n: "n < 64" for n
  proof -
    have "n div 8 < 8" using n by simp
    from byte [OF this]
    have "bit (ucast (drop_bit (8 * (n div 8)) a) :: byte) (n mod 8)
        = bit (ucast (drop_bit (8 * (n div 8)) b) :: byte) (n mod 8)" by simp
    then show ?thesis
      by (simp add: bit_simps bit_ucast_iff)
  qed
  then show "a = b"
    by (intro bit_word_eqI) simp
qed simp

text \<open>The loop invariant: the segment between \<open>i\<close> and \<open>j\<close> is still to be reversed.\<close>

lemma reverse_loop_append:
  "reverse_loop (int (length xs)) (int (length xs) + int (length ys) - 1) (xs @ ys @ zs)
     = xs @ rev ys @ zs"
proof (induction "length ys" arbitrary: xs ys zs rule: less_induct)
  case less
  show ?case
  proof (cases "length ys < 2")
    case True
    then have "rev ys = ys" by (cases ys) (auto simp: less_Suc_eq numeral_2_eq_2)
    then show ?thesis using True by (subst reverse_loop.simps) simp
  next
    case False
    then obtain a ms b where ys: "ys = a # ms @ [b]"
      by (cases ys; cases "tl ys" rule: rev_cases) auto
    let ?d = "xs @ (a # ms @ [b]) @ zs"
    have j: "nat (1 + (int (length ms) + int (length xs))) = Suc (length ms + length xs)"
      by simp
    have swap: "?d[length xs := ?d ! (length xs + Suc (length ms)),
        length xs + Suc (length ms) := ?d ! length xs] = (xs @ [b]) @ ms @ ([a] @ zs)"
      by (simp add: nth_append list_update_append)
    have "reverse_loop (int (length xs)) (int (length xs) + int (length ys) - 1) (xs @ ys @ zs)
        = reverse_loop (int (length (xs @ [b]))) (int (length (xs @ [b])) + int (length ms) - 1)
            ((xs @ [b]) @ ms @ ([a] @ zs))"
      using swap by (subst reverse_loop.simps) (simp add: ys j add.commute)
    also have "\<dots> = (xs @ [b]) @ rev ms @ [a] @ zs"
      by (rule less.hyps) (simp add: ys)
    finally show ?thesis by (simp add: ys)
  qed
qed

lemma ReverseBytes_rev: "ReverseBytes xs = rev xs"
  using reverse_loop_append [of "[]" xs "[]"] by (simp add: ReverseBytes_def)

section \<open>base58.go\<close>

definition b58Alphabet :: bytes where
  "b58Alphabet = string_bytes ''123456789ABCDEFGHJKLMNPQRSTUVWXYZabcdefghijkmnopqrstuvwxyz''"

text \<open>The division loop of \<^verbatim>\<open>Base58Encode\<close>: least significant digit first.\<close>

fun b58_digits :: "nat \<Rightarrow> bytes \<Rightarrow> bytes" where
  "b58_digits x res =
     (if x = 0 then res else b58_digits (x div 58) (res @ [b58Alphabet ! (x mod 58)]))"

declare b58_digits.simps [simp del]

definition Base58Encode :: "bytes \<Rightarrow> bytes" where
  "Base58Encode input =
     (let res = b58_digits (SetBytes input) [];
          res = res @ map (\<lambda>_. b58Alphabet ! 0) (takeWhile (\<lambda>b. b = 0) input)
      in ReverseBytes res)"

text \<open>\<^verbatim>\<open>bytes.IndexByte\<close>: the first position of the byte, or -1.\<close>

fun IndexByte :: "bytes \<Rightarrow> byte \<Rightarrow> int" where
  "IndexByte [] b = -1"
| "IndexByte (x # xs) b =
     (if x = b then 0 else let i = IndexByte xs b in if i = -1 then -1 else i + 1)"

definition Base58Decode :: "bytes \<Rightarrow> bytes" where
  "Base58Decode input =
     (let zeroes = length (takeWhile (\<lambda>b. b = b58Alphabet ! 0) input);
          res = foldl (\<lambda>acc b. acc * 58 + IndexByte b58Alphabet b) (0 :: int) input;
          decoded = big_Bytes (nat \<bar>res\<bar>)
      in if zeroes > 0 then replicate zeroes 0 @ decoded else decoded)"

subsection \<open>Decoding inverts encoding\<close>

lemma length_b58Alphabet [simp]: "length b58Alphabet = 58"
  by (simp add: b58Alphabet_def string_bytes_def)

lemma distinct_b58Alphabet [simp]: "distinct b58Alphabet"
  by (simp add: b58Alphabet_def string_bytes_def)

lemma IndexByte_nth: "distinct xs \<Longrightarrow> i < length xs \<Longrightarrow> IndexByte xs (xs ! i) = int i"
proof (induction xs arbitrary: i)
  case (Cons x xs)
  then show ?case by (cases i) (auto simp: Let_def)
qed simp

lemma IndexByte_b58 [simp]: "d < 58 \<Longrightarrow> IndexByte b58Alphabet (b58Alphabet ! d) = int d"
  by (rule IndexByte_nth) simp_all

lemma b58_nth_inject: "d < 58 \<Longrightarrow> b58Alphabet ! d = b58Alphabet ! 0 \<longleftrightarrow> d = 0"
  using nth_eq_iff_index_eq [of b58Alphabet d 0] by simp

abbreviation b58_value :: "bytes \<Rightarrow> int" where
  "b58_value cs \<equiv> foldl (\<lambda>acc b. acc * 58 + IndexByte b58Alphabet b) 0 cs"

lemma b58_digits_acc: "b58_digits x res = res @ b58_digits x []"
proof (induction x arbitrary: res rule: less_induct)
  case (less x)
  show ?case
  proof (cases "x = 0")
    case True
    then show ?thesis by (simp add: b58_digits.simps)
  next
    case False
    then have lt: "x div 58 < x" by simp
    let ?d = "b58Alphabet ! (x mod 58)"
    have step: "b58_digits x r = b58_digits (x div 58) (r @ [?d])" for r
      using False by (subst b58_digits.simps) simp
    show ?thesis
      using less.IH [OF lt, of "res @ [?d]"] less.IH [OF lt, of "[?d]"]
      unfolding step [of res] step [of "[]"] by simp
  qed
qed

lemma b58_digits_step:
  "0 < x \<Longrightarrow> b58_digits x [] = b58Alphabet ! (x mod 58) # b58_digits (x div 58) []"
  by (subst b58_digits.simps, subst b58_digits_acc) simp

lemma b58_value_digits: "b58_value (rev (b58_digits x [])) = int x"
proof (induction x rule: less_induct)
  case (less x)
  show ?case
  proof (cases "x = 0")
    case True
    then show ?thesis by (simp add: b58_digits.simps)
  next
    case False
    then have "x div 58 < x" by simp
    from less.IH [OF this] False show ?thesis
      by (simp add: b58_digits_step zdiv_int zmod_int)
  qed
qed

lemma b58_digits_top: "0 < x \<Longrightarrow> b58_digits x [] \<noteq> [] \<and> last (b58_digits x []) \<noteq> b58Alphabet ! 0"
proof (induction x rule: less_induct)
  case (less x)
  show ?case
  proof (cases "x div 58 = 0")
    case True
    then have "b58_digits (x div 58) [] = []" by (simp add: b58_digits.simps)
    moreover have "x mod 58 = x" using True by (simp add: div_eq_0_iff)
    moreover have "x < 58" using True by (simp add: div_eq_0_iff)
    ultimately show ?thesis
      using less.prems by (simp add: b58_digits_step b58_nth_inject)
  next
    case False
    then have "x div 58 < x" "0 < x div 58" using less.prems by auto
    then show ?thesis using less by (simp add: b58_digits_step)
  qed
qed

lemma b58_value_zeros: "b58_value (replicate z (b58Alphabet ! 0) @ ds) = b58_value ds"
proof -
  have "b58_value (replicate z (b58Alphabet ! 0)) = 0" by (induction z) auto
  then show ?thesis by simp
qed

lemma Base58Encode_eq:
  "Base58Encode xs = replicate (length (takeWhile (\<lambda>b. b = 0) xs)) (b58Alphabet ! 0)
     @ rev (b58_digits (SetBytes xs) [])"
  by (simp add: Base58Encode_def Let_def ReverseBytes_rev map_replicate_const)

lemma takeWhile_Base58Encode:
  "takeWhile (\<lambda>b. b = b58Alphabet ! 0) (Base58Encode xs)
     = replicate (length (takeWhile (\<lambda>b. b = 0) xs)) (b58Alphabet ! 0)"
proof -
  let ?ds = "rev (b58_digits (SetBytes xs) [])"
  have "takeWhile (\<lambda>b. b = b58Alphabet ! 0) ?ds = []"
  proof (cases "SetBytes xs = 0")
    case True
    then show ?thesis by (simp add: b58_digits.simps)
  next
    case False
    then have "b58_digits (SetBytes xs) [] \<noteq> []" "last (b58_digits (SetBytes xs) []) \<noteq> b58Alphabet ! 0"
      using b58_digits_top by simp_all
    then show ?thesis by (cases ?ds) (auto simp: hd_rev [symmetric])
  qed
  then show ?thesis unfolding Base58Encode_eq by (subst takeWhile_append2) auto
qed

lemma Base58Decode_Encode [simp]: "Base58Decode (Base58Encode xs) = xs"
proof -
  let ?z = "takeWhile (\<lambda>b. b = 0) xs"
  have "b58_value (Base58Encode xs) = int (SetBytes xs)"
    unfolding Base58Encode_eq b58_value_zeros by (rule b58_value_digits)
  then have "Base58Decode (Base58Encode xs) = replicate (length ?z) 0 @ dropWhile (\<lambda>b. b = 0) xs"
    unfolding Base58Decode_def takeWhile_Base58Encode Let_def
    by (simp add: big_Bytes_SetBytes)
  moreover have "replicate (length ?z) 0 = ?z"
    by (metis (mono_tags, lifting) replicate_eqI set_takeWhileD)
  ultimately show ?thesis by simp
qed

section \<open>Properties\<close>

text \<open>
  Base58 text decodes to the bytes it was made from, leading zero bytes included, so
  different byte strings have different texts.
\<close>

theorem Base58_roundtrip:
  "Base58Decode (Base58Encode xs) = xs \<and> (Base58Encode xs = Base58Encode ys \<longleftrightarrow> xs = ys)"
  by (metis Base58Decode_Encode)

text \<open>
  The in-place swap loop of \<open>ReverseBytes\<close> ends and reverses its slice, so applying it twice
  gives the slice back; \<open>IntToHex\<close> writes every 64-bit number in eight bytes, no two alike.
\<close>

theorem ReverseBytes_IntToHex:
  "ReverseBytes xs = rev xs \<and> ReverseBytes (ReverseBytes xs) = xs \<and>
   length (IntToHex a) = 8 \<and> (IntToHex a = IntToHex b \<longleftrightarrow> a = b)"
  by (simp add: ReverseBytes_rev IntToHex_inject)

end
