(* ===== verification/Types.thy ===== *)
theory Types
  imports Encoding
begin

text \<open>
  The data of \<^verbatim>\<open>internal/core\<close>: outputs, inputs, transactions and blocks as records with the
  fields of the Go structs, and the routines of other packages that the core calls, collected
  in one record \<open>Prims\<close>. Every operation that hashes, signs or serialises takes such a record
  as its first argument, so the theorems hold for every implementation of these routines; what
  a theorem needs of them is one of the named laws below.
\<close>

section \<open>Structs\<close>

abbreviation (input) ScriptTypeP2PKH :: byte where "ScriptTypeP2PKH \<equiv> 0"
abbreviation (input) ScriptTypeEscrow :: byte where "ScriptTypeEscrow \<equiv> 1"
abbreviation (input) ScriptTypeZKCP :: byte where "ScriptTypeZKCP \<equiv> 2"

record TXOutput =
  Value :: int64
  PubKeyHash :: bytes
  ScriptType :: byte
  DataHashLock :: bytes
  TimeoutBlock :: int64
  BuyerPubKeyHash :: bytes

record TXOutputs =
  Outputs :: "TXOutput list"

text \<open>The output index of an input is \<open>Vout_in\<close>, to keep it apart from a transaction's \<open>Vout\<close>.\<close>

record TXInput =
  Txid :: bytes
  Vout_in :: int64
  Signature :: bytes
  PubKey :: bytes
  EscrowWitness :: bytes
  IsRefund :: bool

record Transaction =
  ID :: bytes
  Vin :: "TXInput list"
  Vout :: "TXOutput list"

record Block =
  Timestamp :: int64
  Transactions :: "Transaction list"
  PrevBlockHash :: bytes
  Hash :: bytes
  Nonce :: int64
  Height :: int64
  Bits :: int64
  AuthoritySignature :: bytes
  AuthorityPubKey :: bytes

text \<open>\<^verbatim>\<open>ecdsa.PrivateKey\<close> on P-256: the scalar and the public point.\<close>

record PrivateKey =
  key_D :: nat
  key_X :: nat
  key_Y :: nat

section \<open>Routines the core calls\<close>

text \<open>
  Hashes, ECDSA and gob. An encoder returns \<open>None\<close> where gob returns an error; the third
  argument of \<open>ecdsa_sign\<close> stands for the bytes drawn from \<^verbatim>\<open>rand.Reader\<close>.
\<close>

record Prims =
  sha256 :: "bytes \<Rightarrow> bytes"
  ripemd160 :: "bytes \<Rightarrow> bytes"
  ecdsa_sign :: "PrivateKey \<Rightarrow> bytes \<Rightarrow> nat \<Rightarrow> (nat \<times> nat) result"
  ecdsa_verify :: "nat \<times> nat \<Rightarrow> bytes \<Rightarrow> nat \<times> nat \<Rightarrow> bool"
  gob_tx :: "Transaction \<Rightarrow> bytes option"
  ungob_tx :: "bytes \<Rightarrow> Transaction result"
  gob_block :: "Block \<Rightarrow> bytes option"
  ungob_block :: "bytes \<Rightarrow> Block result"
  gob_outs :: "TXOutputs \<Rightarrow> bytes option"
  ungob_outs :: "bytes \<Rightarrow> TXOutputs result"

text \<open>Digest sizes.\<close>

definition sha256_ok :: "Prims \<Rightarrow> bool" where
  "sha256_ok P \<longleftrightarrow> (\<forall>x. length (sha256 P x) = 32)"

definition ripemd160_ok :: "Prims \<Rightarrow> bool" where
  "ripemd160_ok P \<longleftrightarrow> (\<forall>x. length (ripemd160 P x) = 20)"

text \<open>A gob stream is not empty and decodes to the value it was made from.\<close>

definition gob_ok :: "Prims \<Rightarrow> bool" where
  "gob_ok P \<longleftrightarrow>
     (\<forall>t. \<exists>d. gob_tx P t = Some d \<and> d \<noteq> [] \<and> ungob_tx P d = Ok t) \<and>
     (\<forall>b. \<exists>d. gob_block P b = Some d \<and> d \<noteq> [] \<and> ungob_block P d = Ok b) \<and>
     (\<forall>os. \<exists>d. gob_outs P os = Some d \<and> d \<noteq> [] \<and> ungob_outs P d = Ok os)"

text \<open>
  The key pair \<open>k\<close> works: signing yields numbers below the group order of P-256, hence below
  \<open>2 ^ 256\<close>, and they verify under the public point of \<open>k\<close>, whose coordinates fit 32 bytes.
\<close>

definition ecdsa_ok :: "Prims \<Rightarrow> PrivateKey \<Rightarrow> bool" where
  "ecdsa_ok P k \<longleftrightarrow>
     key_X k < 2 ^ 256 \<and> key_Y k < 2 ^ 256 \<and>
     (\<forall>h rnd. \<exists>r s. ecdsa_sign P k h rnd = Ok (r, s) \<and> r < 2 ^ 256 \<and> s < 2 ^ 256 \<and>
        ecdsa_verify P (key_X k, key_Y k) h (r, s))"

lemma gob_ok_block:
  assumes "gob_ok P"
  obtains d where "gob_block P b = Some d" and "d \<noteq> []" and "ungob_block P d = Ok b"
  using assms unfolding gob_ok_def by blast

lemma gob_ok_tx:
  assumes "gob_ok P"
  obtains d where "gob_tx P t = Some d" and "d \<noteq> []" and "ungob_tx P d = Ok t"
  using assms unfolding gob_ok_def by blast

lemma gob_ok_outs:
  assumes "gob_ok P"
  obtains d where "gob_outs P os = Some d" and "d \<noteq> []" and "ungob_outs P d = Ok os"
  using assms unfolding gob_ok_def by blast

lemma pow256_32: "(256 :: nat) ^ 32 = 2 ^ 256"
  by simp

lemma FillBytes_32:
  "n < 2 ^ 256 \<Longrightarrow> \<exists>bs. FillBytes 32 n = Ok bs \<and> length bs = 32 \<and> SetBytes bs = n"
  using FillBytes_fits [of n 32] FillBytes_OkD unfolding pow256_32 by blast

end
