(* ===== verification/Instances.thy ===== *)
theory Instances
  imports Types
begin

text \<open>
  A concrete instance \<open>sample_prims\<close> of the routines of \<open>Prims\<close> that satisfies every law of
  \<open>Types\<close>. It stands for no program: it shows that the laws can hold together, and the
  concrete instances of the theorems evaluate on it. The encoder is length-prefixed; the hash
  is a checksum padded to 32 bytes; a signature is the signer's coordinate and the digest.
\<close>

section \<open>A length-prefixed codec\<close>

text \<open>An encoder and a decoder that hands back the bytes it did not use.\<close>

definition codec :: "('a \<Rightarrow> bytes) \<Rightarrow> (bytes \<Rightarrow> ('a \<times> bytes) option) \<Rightarrow> bool" where
  "codec e d \<longleftrightarrow> (\<forall>x rest. d (e x @ rest) = Some (x, rest))"

lemma codecD: "codec e d \<Longrightarrow> d (e x @ rest) = Some (x, rest)"
  by (simp add: codec_def)

fun enc_len :: "nat \<Rightarrow> bytes" where
  "enc_len 0 = [0]"
| "enc_len (Suc n) = 1 # enc_len n"

fun dec_len :: "bytes \<Rightarrow> (nat \<times> bytes) option" where
  "dec_len [] = None"
| "dec_len (b # bs) =
     (if b = 0 then Some (0, bs)
      else case dec_len bs of None \<Rightarrow> None | Some (n, r) \<Rightarrow> Some (Suc n, r))"

definition enc_bytes :: "bytes \<Rightarrow> bytes" where
  "enc_bytes bs = enc_len (length bs) @ bs"

definition dec_bytes :: "bytes \<Rightarrow> (bytes \<times> bytes) option" where
  "dec_bytes d =
     (case dec_len d of None \<Rightarrow> None | Some (n, r) \<Rightarrow> Some (take n r, drop n r))"

definition enc_i64 :: "int64 \<Rightarrow> bytes" where
  "enc_i64 w = enc_bytes (big_Bytes (unat w))"

definition dec_i64 :: "bytes \<Rightarrow> (int64 \<times> bytes) option" where
  "dec_i64 d =
     (case dec_bytes d of None \<Rightarrow> None | Some (bs, r) \<Rightarrow> Some (of_nat (SetBytes bs), r))"

definition enc_byte :: "byte \<Rightarrow> bytes" where
  "enc_byte b = [b]"

fun dec_byte :: "bytes \<Rightarrow> (byte \<times> bytes) option" where
  "dec_byte [] = None"
| "dec_byte (b # r) = Some (b, r)"

definition enc_bool :: "bool \<Rightarrow> bytes" where
  "enc_bool b = [if b then 1 else 0]"

fun dec_bool :: "bytes \<Rightarrow> (bool \<times> bytes) option" where
  "dec_bool [] = None"
| "dec_bool (b # r) = Some (b = 1, r)"

fun enc_list :: "('a \<Rightarrow> bytes) \<Rightarrow> 'a list \<Rightarrow> bytes" where
  "enc_list e xs = enc_len (length xs) @ concat (map e xs)"

fun dec_many :: "(bytes \<Rightarrow> ('a \<times> bytes) option) \<Rightarrow> nat \<Rightarrow> bytes \<Rightarrow> ('a list \<times> bytes) option" where
  "dec_many d 0 r = Some ([], r)"
| "dec_many d (Suc n) r =
     (case d r of None \<Rightarrow> None
      | Some (x, r') \<Rightarrow>
          (case dec_many d n r' of None \<Rightarrow> None | Some (xs, r'') \<Rightarrow> Some (x # xs, r'')))"

definition dec_list :: "(bytes \<Rightarrow> ('a \<times> bytes) option) \<Rightarrow> bytes \<Rightarrow> ('a list \<times> bytes) option" where
  "dec_list d r = (case dec_len r of None \<Rightarrow> None | Some (n, r') \<Rightarrow> dec_many d n r')"

lemma codec_len: "codec enc_len dec_len"
proof -
  have "dec_len (enc_len n @ rest) = Some (n, rest)" for n rest
    by (induction n) auto
  then show ?thesis by (simp add: codec_def)
qed

lemma codec_bytes: "codec enc_bytes dec_bytes"
  by (simp add: codec_def dec_bytes_def enc_bytes_def codecD [OF codec_len])

lemma codec_i64: "codec enc_i64 dec_i64"
  by (simp add: codec_def dec_i64_def enc_i64_def codecD [OF codec_bytes])

lemma codec_byte: "codec enc_byte dec_byte"
  by (simp add: codec_def enc_byte_def)

lemma codec_bool: "codec enc_bool dec_bool"
  by (simp add: codec_def enc_bool_def)

lemma codec_list:
  assumes "codec e d"
  shows "codec (enc_list e) (dec_list d)"
proof -
  have "dec_many d (length xs) (concat (map e xs) @ rest) = Some (xs, rest)" for xs rest
    by (induction xs) (simp_all add: codecD [OF assms])
  then show ?thesis by (simp add: codec_def dec_list_def codecD [OF codec_len])
qed

lemmas codecs = codecD [OF codec_bytes] codecD [OF codec_i64] codecD [OF codec_byte] codecD [OF codec_bool]

text \<open>How long the encodings are.\<close>

lemma length_enc:
  "length (enc_len n) = Suc n" "length (enc_bytes b) = 2 * length b + 1" "length (enc_i64 w) \<le> 17"
proof -
  show l: "length (enc_len n) = Suc n" for n by (induction n) simp_all
  show b: "length (enc_bytes b) = 2 * length b + 1" for b by (simp add: enc_bytes_def l)
  have "unat w < 256 ^ 8" using unsigned_less [of w, where ?'a = nat] by simp
  then have "length (big_Bytes (unat w)) \<le> 8" by (rule length_big_Bytes)
  then show "length (enc_i64 w) \<le> 17" by (simp add: enc_i64_def b)
qed

section \<open>Codecs of the structs\<close>

definition enc_out :: "TXOutput \<Rightarrow> bytes" where
  "enc_out t = enc_i64 (Value t) @ enc_bytes (PubKeyHash t) @ enc_byte (ScriptType t)
     @ enc_bytes (DataHashLock t) @ enc_i64 (TimeoutBlock t) @ enc_bytes (BuyerPubKeyHash t)"

definition dec_out :: "bytes \<Rightarrow> (TXOutput \<times> bytes) option" where
  "dec_out r =
     Option.bind (dec_i64 r) (\<lambda>(v, r). Option.bind (dec_bytes r) (\<lambda>(p, r).
     Option.bind (dec_byte r) (\<lambda>(s, r). Option.bind (dec_bytes r) (\<lambda>(d, r).
     Option.bind (dec_i64 r) (\<lambda>(t, r). Option.bind (dec_bytes r) (\<lambda>(b, r).
     Some (\<lparr>Value = v, PubKeyHash = p, ScriptType = s, DataHashLock = d, TimeoutBlock = t,
       BuyerPubKeyHash = b\<rparr>, r)))))))"

definition enc_in :: "TXInput \<Rightarrow> bytes" where
  "enc_in t = enc_bytes (Txid t) @ enc_i64 (Vout_in t) @ enc_bytes (Signature t)
     @ enc_bytes (PubKey t) @ enc_bytes (EscrowWitness t) @ enc_bool (IsRefund t)"

definition dec_in :: "bytes \<Rightarrow> (TXInput \<times> bytes) option" where
  "dec_in r =
     Option.bind (dec_bytes r) (\<lambda>(t, r). Option.bind (dec_i64 r) (\<lambda>(v, r).
     Option.bind (dec_bytes r) (\<lambda>(s, r). Option.bind (dec_bytes r) (\<lambda>(p, r).
     Option.bind (dec_bytes r) (\<lambda>(w, r). Option.bind (dec_bool r) (\<lambda>(f, r).
     Some (\<lparr>Txid = t, Vout_in = v, Signature = s, PubKey = p, EscrowWitness = w,
       IsRefund = f\<rparr>, r)))))))"

definition enc_tx :: "Transaction \<Rightarrow> bytes" where
  "enc_tx t = enc_bytes (ID t) @ enc_list enc_in (Vin t) @ enc_list enc_out (Vout t)"

definition dec_tx :: "bytes \<Rightarrow> (Transaction \<times> bytes) option" where
  "dec_tx r =
     Option.bind (dec_bytes r) (\<lambda>(i, r). Option.bind (dec_list dec_in r) (\<lambda>(is, r).
     Option.bind (dec_list dec_out r) (\<lambda>(os, r). Some (\<lparr>ID = i, Vin = is, Vout = os\<rparr>, r))))"

definition enc_block :: "Block \<Rightarrow> bytes" where
  "enc_block b = enc_i64 (Timestamp b) @ enc_list enc_tx (Transactions b)
     @ enc_bytes (PrevBlockHash b) @ enc_bytes (Hash b) @ enc_i64 (Nonce b) @ enc_i64 (Height b)
     @ enc_i64 (Bits b) @ enc_bytes (AuthoritySignature b) @ enc_bytes (AuthorityPubKey b)"

definition dec_block :: "bytes \<Rightarrow> (Block \<times> bytes) option" where
  "dec_block r =
     Option.bind (dec_i64 r) (\<lambda>(t, r). Option.bind (dec_list dec_tx r) (\<lambda>(txs, r).
     Option.bind (dec_bytes r) (\<lambda>(p, r). Option.bind (dec_bytes r) (\<lambda>(h, r).
     Option.bind (dec_i64 r) (\<lambda>(n, r). Option.bind (dec_i64 r) (\<lambda>(hg, r).
     Option.bind (dec_i64 r) (\<lambda>(bi, r). Option.bind (dec_bytes r) (\<lambda>(s, r).
     Option.bind (dec_bytes r) (\<lambda>(k, r).
     Some (\<lparr>Timestamp = t, Transactions = txs, PrevBlockHash = p, Hash = h, Nonce = n,
       Height = hg, Bits = bi, AuthoritySignature = s, AuthorityPubKey = k\<rparr>, r))))))))))"

lemma codec_out: "codec enc_out dec_out"
  by (simp add: codec_def enc_out_def dec_out_def codecs)

lemma codec_in: "codec enc_in dec_in"
  by (simp add: codec_def enc_in_def dec_in_def codecs)

lemma codec_tx: "codec enc_tx dec_tx"
  by (simp add: codec_def enc_tx_def dec_tx_def codecs del: enc_list.simps
      add: codecD [OF codec_list [OF codec_in]] codecD [OF codec_list [OF codec_out]])

lemma codec_block: "codec enc_block dec_block"
  by (simp add: codec_def enc_block_def dec_block_def codecs del: enc_list.simps
      add: codecD [OF codec_list [OF codec_tx]])

definition whole :: "(bytes \<Rightarrow> ('a \<times> bytes) option) \<Rightarrow> bytes \<Rightarrow> 'a result" where
  "whole d bs = (case d bs of Some (x, []) \<Rightarrow> Ok x | _ \<Rightarrow> Error (ErrMsg ''gob: bad data''))"

lemma whole_codec: "codec e d \<Longrightarrow> whole d (e x) = Ok x"
  using codecD [of e d x "[]"] by (simp add: whole_def)

section \<open>The instance\<close>

definition sample_hash :: "bytes \<Rightarrow> bytes" where
  "sample_hash bs = replicate 31 0 @ [foldl (\<lambda>a b. 3 * a + b + 1) 0 bs]"

definition sample_key :: "nat \<Rightarrow> PrivateKey" where
  "sample_key d = \<lparr>key_D = d, key_X = d, key_Y = 0\<rparr>"

definition sample_prims :: Prims where
  "sample_prims =
     \<lparr>sha256 = sample_hash,
      ripemd160 = (\<lambda>bs. take 20 (rev bs @ replicate 20 0)),
      ecdsa_sign = (\<lambda>k h rnd. Ok (key_X k, SetBytes h mod 2 ^ 256)),
      ecdsa_verify = (\<lambda>(x, y) h (r, s). r = x \<and> s = SetBytes h mod 2 ^ 256),
      gob_tx = (\<lambda>t. Some (enc_tx t)), ungob_tx = whole dec_tx,
      gob_block = (\<lambda>b. Some (enc_block b)), ungob_block = whole dec_block,
      gob_outs = (\<lambda>os. Some (enc_list enc_out (Outputs os))),
      ungob_outs = (\<lambda>d. bind_result (whole (dec_list dec_out) d) (\<lambda>os. Ok \<lparr>Outputs = os\<rparr>))\<rparr>"

lemma enc_len_neq_Nil [simp]: "enc_len n \<noteq> []"
  by (cases n) auto

lemma sample_sha256_ok [simp]: "sha256_ok sample_prims"
  by (simp add: sha256_ok_def sample_prims_def sample_hash_def)

lemma sample_ripemd160_ok [simp]: "ripemd160_ok sample_prims"
  by (auto simp: ripemd160_ok_def sample_prims_def min_def)

lemma enc_neq_Nil [simp]: "enc_tx t \<noteq> []" "enc_block b \<noteq> []"
  by (simp_all add: enc_tx_def enc_block_def enc_bytes_def enc_i64_def)

lemma sample_gob_ok [simp]: "gob_ok sample_prims"
  using whole_codec [OF codec_tx] whole_codec [OF codec_block]
    whole_codec [OF codec_list [OF codec_out]]
  by (simp add: gob_ok_def sample_prims_def)

lemma sample_ecdsa_ok [simp]: "d < 2 ^ 256 \<Longrightarrow> ecdsa_ok sample_prims (sample_key d)"
  by (simp add: ecdsa_ok_def sample_prims_def sample_key_def)

lemma sample_sha256_eq: "sha256 sample_prims = sample_hash"
  by (simp add: sample_prims_def)

end
