(* ===== verification/Wallet.thy ===== *)
theory Wallet
  imports Types Instances
begin

text \<open>
  Keys and addresses: \<^verbatim>\<open>internal/core/wallet.go\<close> and \<^verbatim>\<open>internal/core/wallets.go\<close>. An address
  is the Base58 text of version byte, public key hash and a four byte checksum. The results:
  a wallet's address validates and carries the hash of its key, and a wallet file that was
  written is read back.
\<close>

section \<open>wallet.go\<close>

definition version :: byte where "version = 0"
definition addressChecksumLen :: nat where "addressChecksumLen = 4"

record Wallet =
  PrivKey :: PrivateKey
  PublicKey :: bytes

text \<open>The argument is what \<^verbatim>\<open>ecdsa.GenerateKey\<close> returned.\<close>

definition newKeyPair :: "PrivateKey result \<Rightarrow> (PrivateKey \<times> bytes) result" where
  "newKeyPair gen =
     bind_result (wrap_err ''failed to generate ecdsa key pair'' gen) (\<lambda>private.
     bind_result (FillBytes 32 (key_X private)) (\<lambda>xBytes.
     bind_result (FillBytes 32 (key_Y private)) (\<lambda>yBytes.
       Ok (private, xBytes @ yBytes))))"

definition NewWallet :: "PrivateKey result \<Rightarrow> Wallet result" where
  "NewWallet gen =
     bind_result (newKeyPair gen) (\<lambda>(private, public). Ok \<lparr>PrivKey = private, PublicKey = public\<rparr>)"

definition HashPubKey :: "Prims \<Rightarrow> bytes \<Rightarrow> bytes" where
  "HashPubKey P pubKey = ripemd160 P (sha256 P pubKey)"

definition checksum :: "Prims \<Rightarrow> bytes \<Rightarrow> bytes" where
  "checksum P payload = take addressChecksumLen (sha256 P (sha256 P payload))"

definition GetAddress :: "Prims \<Rightarrow> Wallet \<Rightarrow> bytes" where
  "GetAddress P w =
     (let pubKeyHash = HashPubKey P (PublicKey w);
          versionedPayload = version # pubKeyHash;
          fullPayload = versionedPayload @ checksum P versionedPayload
      in Base58Encode fullPayload)"

definition ValidateAddress :: "Prims \<Rightarrow> string \<Rightarrow> bool" where
  "ValidateAddress P address =
     (let pubKeyHash = Base58Decode (string_bytes address); n = length pubKeyHash in
      if n < addressChecksumLen + 1 then False
      else
        let actualChecksum = drop (n - addressChecksumLen) pubKeyHash;
            ver = pubKeyHash ! 0;
            payload = slice 1 (n - addressChecksumLen) pubKeyHash
        in actualChecksum = checksum P (ver # payload))"

text \<open>The address as the code stores it in a Go string.\<close>

abbreviation address_of :: "Prims \<Rightarrow> Wallet \<Rightarrow> string" where
  "address_of P w \<equiv> bytes_string (GetAddress P w)"

text \<open>What every consumer of an address does: decode and cut off version and checksum.\<close>

definition address_hash :: "string \<Rightarrow> bytes option" where
  "address_hash address =
     (let d = Base58Decode (string_bytes address) in
      if length d < addressChecksumLen + 1 then None
      else Some (slice 1 (length d - addressChecksumLen) d))"

lemma length_checksum: "sha256_ok P \<Longrightarrow> length (checksum P x) = 4"
  by (simp add: checksum_def sha256_ok_def addressChecksumLen_def)

lemma decode_address:
  "Base58Decode (string_bytes (address_of P w))
     = version # HashPubKey P (PublicKey w) @ checksum P (version # HashPubKey P (PublicKey w))"
  by (simp add: GetAddress_def Let_def)

lemma address_hash_of_wallet:
  "sha256_ok P \<Longrightarrow> address_hash (address_of P w) = Some (HashPubKey P (PublicKey w))"
  unfolding address_hash_def decode_address
  by (simp add: length_checksum addressChecksumLen_def slice_def Let_def)

lemma length_HashPubKey: "ripemd160_ok P \<Longrightarrow> length (HashPubKey P pk) = 20"
  by (simp add: HashPubKey_def ripemd160_ok_def)

lemma ValidateAddress_of_wallet: "sha256_ok P \<Longrightarrow> ValidateAddress P (address_of P w)"
  unfolding ValidateAddress_def decode_address
  by (simp add: length_checksum addressChecksumLen_def slice_def Let_def)

text \<open>A valid address always yields a hash: callers that slice without checking do not panic.\<close>

lemma ValidateAddress_hash: "ValidateAddress P a \<Longrightarrow> \<exists>h. address_hash a = Some h"
  by (auto simp: ValidateAddress_def address_hash_def Let_def split: if_splits)

text \<open>A fresh wallet has a 64 byte public key that determines the point.\<close>

lemma NewWallet_key:
  assumes "NewWallet (Ok k) = Ok w"
  shows "PrivKey w = k" and "length (PublicKey w) = 64"
    and "SetBytes (take 32 (PublicKey w)) = key_X k" and "SetBytes (drop 32 (PublicKey w)) = key_Y k"
  using assms FillBytes_OkD
  by (auto simp: NewWallet_def newKeyPair_def result_simps split: prod.splits)

lemma NewWallet_Ok:
  assumes "key_X k < 2 ^ 256" and "key_Y k < 2 ^ 256"
  shows "\<exists>w. NewWallet (Ok k) = Ok w"
  using FillBytes_32 [OF assms(1)] FillBytes_32 [OF assms(2)]
  by (auto simp: NewWallet_def newKeyPair_def)

section \<open>wallets.go\<close>

text \<open>
  The wallet collection, the serialisable form of one wallet, and the routines of
  \<^verbatim>\<open>crypto/x509\<close> and \<^verbatim>\<open>encoding/gob\<close> the file format uses. The file system is a map from
  names to contents; \<open>read_err\<close> and \<open>write_err\<close> are the failures of the read and of the write,
  the latter with the files a failed write leaves behind.
\<close>

type_synonym Wallets = "(string \<times> Wallet) list"

record SerializableWallet =
  sw_PrivateKey :: bytes
  sw_PublicKey :: bytes

record WPrims =
  MarshalECPrivateKey :: "PrivateKey \<Rightarrow> bytes result"
  ParseECPrivateKey :: "bytes \<Rightarrow> PrivateKey result"
  gob_wallets :: "(string \<times> SerializableWallet) list \<Rightarrow> bytes result"
  ungob_wallets :: "bytes \<Rightarrow> (string \<times> SerializableWallet) list result"

type_synonym files = "string \<rightharpoonup> bytes"

definition walletFile :: "string \<Rightarrow> string" where
  "walletFile nodeID = ''wallet_'' @ nodeID @ ''.dat''"

definition ErrNotExist :: goerr where "ErrNotExist = ErrMsg ''file does not exist''"

definition CreateWallet :: "Prims \<Rightarrow> PrivateKey result \<Rightarrow> Wallets \<Rightarrow> string result \<times> Wallets" where
  "CreateWallet P gen ws =
     (case NewWallet gen of
        Ok wallet \<Rightarrow> (let address = address_of P wallet in (Ok address, AList.update address wallet ws))
      | r \<Rightarrow> (as_failure r, ws))"

definition GetAddresses ::
    "((string \<times> Wallet) list \<Rightarrow> (string \<times> Wallet) list) \<Rightarrow> Wallets \<Rightarrow> string list" where
  "GetAddresses ord ws = map fst (ord ws)"

definition GetWallet :: "Wallets \<Rightarrow> string \<Rightarrow> Wallet result" where
  "GetWallet ws address =
     (case map_of ws address of
        Some wallet \<Rightarrow> Ok wallet
      | None \<Rightarrow> Error (ErrMsg (''wallet '' @ address @ '' not found'')))"

text \<open>The loop of \<^verbatim>\<open>LoadFromFile\<close> over the decoded map; it fills the collection as it goes.\<close>

fun load_entries :: "WPrims \<Rightarrow> (string \<times> SerializableWallet) list \<Rightarrow> Wallets \<Rightarrow> unit result \<times> Wallets" where
  "load_entries W [] ws = (Ok (), ws)"
| "load_entries W ((addr, sw) # rest) ws =
     (case wrap_err ''failed to parse private key'' (ParseECPrivateKey W (sw_PrivateKey sw)) of
        Ok priv \<Rightarrow>
          load_entries W rest (AList.update addr \<lparr>PrivKey = priv, PublicKey = sw_PublicKey sw\<rparr> ws)
      | r \<Rightarrow> (as_failure r, ws))"

definition LoadFromFile ::
    "WPrims \<Rightarrow> ((string \<times> SerializableWallet) list \<Rightarrow> (string \<times> SerializableWallet) list) \<Rightarrow>
     goerr option \<Rightarrow> files \<Rightarrow> string \<Rightarrow> Wallets \<Rightarrow> unit result \<times> Wallets" where
  "LoadFromFile W ord read_err fs nodeID ws =
     (case fs (walletFile nodeID) of
        None \<Rightarrow> (Error ErrNotExist, ws)
      | Some fileContent \<Rightarrow>
          (case read_err of
             Some e \<Rightarrow> (Error (Wrap ''failed to read wallet file'' e), ws)
           | None \<Rightarrow>
               (case wrap_err ''failed to decode wallet file'' (ungob_wallets W fileContent) of
                  Ok serialized \<Rightarrow> load_entries W (ord serialized) ws
                | r \<Rightarrow> (as_failure r, ws))))"

definition NewWallets ::
    "WPrims \<Rightarrow> ((string \<times> SerializableWallet) list \<Rightarrow> (string \<times> SerializableWallet) list) \<Rightarrow>
     goerr option \<Rightarrow> files \<Rightarrow> string \<Rightarrow> Wallets result" where
  "NewWallets W ord read_err fs nodeID =
     (case LoadFromFile W ord read_err fs nodeID [] of
        (Ok _, ws) \<Rightarrow> Ok ws
      | (Error e, ws) \<Rightarrow> if e = ErrNotExist then Ok ws else Error e
      | (r, ws) \<Rightarrow> as_failure r)"

fun marshal_entries :: "WPrims \<Rightarrow> Wallets \<Rightarrow> (string \<times> SerializableWallet) list \<Rightarrow>
    (string \<times> SerializableWallet) list result" where
  "marshal_entries W [] acc = Ok acc"
| "marshal_entries W ((addr, w) # rest) acc =
     bind_result (wrap_err ''failed to marshal private key'' (MarshalECPrivateKey W (PrivKey w)))
       (\<lambda>privBytes. marshal_entries W rest
          (AList.update addr \<lparr>sw_PrivateKey = privBytes, sw_PublicKey = PublicKey w\<rparr> acc))"

definition SaveToFile ::
    "WPrims \<Rightarrow> ((string \<times> Wallet) list \<Rightarrow> (string \<times> Wallet) list) \<Rightarrow> (goerr \<times> files) option \<Rightarrow>
     Wallets \<Rightarrow> string \<Rightarrow> files \<Rightarrow> unit result \<times> files" where
  "SaveToFile W ord write_err ws nodeID fs =
     (case marshal_entries W (ord ws) [] of
        Ok serialized \<Rightarrow>
          (case wrap_err ''failed to encode wallets'' (gob_wallets W serialized) of
             Ok content \<Rightarrow>
               (case write_err of
                  Some (e, left) \<Rightarrow> (Error (Wrap ''failed to write wallet file'' e), left)
                | None \<Rightarrow> (Ok (), fs(walletFile nodeID \<mapsto> content)))
           | r \<Rightarrow> (as_failure r, fs))
      | r \<Rightarrow> (as_failure r, fs))"

subsection \<open>A written wallet file is read back\<close>

text \<open>
  What the round trip needs of the packages: a private key of the collection survives
  \<^verbatim>\<open>x509.MarshalECPrivateKey\<close> and \<^verbatim>\<open>x509.ParseECPrivateKey\<close>, and gob decodes a map to the map it
  encoded, in some order.
\<close>

definition wprims_ok :: "WPrims \<Rightarrow> PrivateKey set \<Rightarrow> bool" where
  "wprims_ok W K \<longleftrightarrow>
     (\<forall>k \<in> K. bind_result (MarshalECPrivateKey W k) (ParseECPrivateKey W) = Ok k) \<and>
     (\<forall>m. distinct (map fst m) \<longrightarrow>
        (\<exists>d m'. gob_wallets W m = Ok d \<and> ungob_wallets W d = Ok m' \<and>
           distinct (map fst m') \<and> map_of m' = map_of m))"

definition ser :: "WPrims \<Rightarrow> Wallet \<Rightarrow> SerializableWallet" where
  "ser W w = \<lparr>sw_PrivateKey = (case MarshalECPrivateKey W (PrivKey w) of Ok d \<Rightarrow> d | _ \<Rightarrow> []),
              sw_PublicKey = PublicKey w\<rparr>"

definition unser :: "WPrims \<Rightarrow> SerializableWallet \<Rightarrow> Wallet result" where
  "unser W sw = bind_result (ParseECPrivateKey W (sw_PrivateKey sw))
     (\<lambda>k. Ok \<lparr>PrivKey = k, PublicKey = sw_PublicKey sw\<rparr>)"

lemma wprims_ok_Marshal:
  "wprims_ok W K \<Longrightarrow> k \<in> K \<Longrightarrow> \<exists>d. MarshalECPrivateKey W k = Ok d \<and> ParseECPrivateKey W d = Ok k"
  by (auto simp: wprims_ok_def result_simps)

lemma unser_ser: "wprims_ok W K \<Longrightarrow> PrivKey w \<in> K \<Longrightarrow> unser W (ser W w) = Ok w"
  using wprims_ok_Marshal [of W K "PrivKey w"] by (auto simp: unser_def ser_def)

lemma marshal_entries_Ok:
  assumes "wprims_ok W K"
  shows "distinct (map fst kvs) \<Longrightarrow> distinct (map fst acc) \<Longrightarrow> \<forall>w \<in> snd ` set kvs. PrivKey w \<in> K \<Longrightarrow>
     \<exists>acc'. marshal_entries W kvs acc = Ok acc' \<and> distinct (map fst acc') \<and>
       (\<forall>a. map_of acc' a = (case map_of kvs a of Some w \<Rightarrow> Some (ser W w) | None \<Rightarrow> map_of acc a))"
proof (induction kvs arbitrary: acc)
  case Nil
  then show ?case by simp
next
  case (Cons aw kvs)
  obtain a w where aw: "aw = (a, w)" by (cases aw)
  obtain d where d: "MarshalECPrivateKey W (PrivKey w) = Ok d"
    using wprims_ok_Marshal [OF assms, of "PrivKey w"] Cons.prems(3) by (auto simp: aw)
  let ?acc = "AList.update a (ser W w) acc"
  have "distinct (map fst kvs)" "distinct (map fst ?acc)" "\<forall>w \<in> snd ` set kvs. PrivKey w \<in> K"
    using Cons.prems by (simp_all add: distinct_update)
  from Cons.IH [OF this] obtain acc' where IH: "marshal_entries W kvs ?acc = Ok acc'" "distinct (map fst acc')"
      "\<forall>x. map_of acc' x = (case map_of kvs x of Some w \<Rightarrow> Some (ser W w) | None \<Rightarrow> map_of ?acc x)"
    by blast
  have "map_of kvs a = None" using Cons.prems(1) by (simp add: aw map_of_eq_None_iff)
  then show ?case using IH d
    by (auto simp: aw ser_def update_conv' split: option.splits)
qed

lemma load_entries_Ok:
  "distinct (map fst kvs) \<Longrightarrow> (\<And>a sw. (a, sw) \<in> set kvs \<Longrightarrow> unser W sw = Ok (f a)) \<Longrightarrow>
     \<exists>ws'. load_entries W kvs ws = (Ok (), ws') \<and>
       (\<forall>a. map_of ws' a = (if a \<in> fst ` set kvs then Some (f a) else map_of ws a))"
proof (induction kvs arbitrary: ws)
  case Nil
  then show ?case by simp
next
  case (Cons aw kvs)
  obtain a sw where aw: "aw = (a, sw)" by (cases aw)
  have "unser W sw = Ok (f a)" using Cons.prems(2) aw by simp
  then obtain k where k: "ParseECPrivateKey W (sw_PrivateKey sw) = Ok k"
      "f a = \<lparr>PrivKey = k, PublicKey = sw_PublicKey sw\<rparr>"
    by (auto simp: unser_def result_simps)
  obtain ws' where IH: "load_entries W kvs (AList.update a (f a) ws) = (Ok (), ws')"
      "\<forall>x. map_of ws' x = (if x \<in> fst ` set kvs then Some (f x) else map_of (AList.update a (f a) ws) x)"
    using Cons.IH [of "AList.update a (f a) ws"] Cons.prems by auto
  then show ?case using k by (auto simp: aw update_conv')
qed

section \<open>A concrete wallet file\<close>

definition enc_key :: "PrivateKey \<Rightarrow> bytes" where
  "enc_key k = enc_bytes (big_Bytes (key_D k)) @ enc_bytes (big_Bytes (key_X k)) @ enc_bytes (big_Bytes (key_Y k))"

definition dec_key :: "bytes \<Rightarrow> (PrivateKey \<times> bytes) option" where
  "dec_key r = Option.bind (dec_bytes r) (\<lambda>(d, r). Option.bind (dec_bytes r) (\<lambda>(x, r).
     Option.bind (dec_bytes r) (\<lambda>(y, r).
       Some (\<lparr>key_D = SetBytes d, key_X = SetBytes x, key_Y = SetBytes y\<rparr>, r))))"

definition enc_entry :: "string \<times> SerializableWallet \<Rightarrow> bytes" where
  "enc_entry e = enc_bytes (string_bytes (fst e)) @ enc_bytes (sw_PrivateKey (snd e)) @ enc_bytes (sw_PublicKey (snd e))"

definition dec_entry :: "bytes \<Rightarrow> ((string \<times> SerializableWallet) \<times> bytes) option" where
  "dec_entry r = Option.bind (dec_bytes r) (\<lambda>(a, r). Option.bind (dec_bytes r) (\<lambda>(k, r).
     Option.bind (dec_bytes r) (\<lambda>(p, r).
       Some ((bytes_string a, \<lparr>sw_PrivateKey = k, sw_PublicKey = p\<rparr>), r))))"

definition sample_wprims :: WPrims where
  "sample_wprims = \<lparr>MarshalECPrivateKey = (\<lambda>k. Ok (enc_key k)), ParseECPrivateKey = whole dec_key,
     gob_wallets = (\<lambda>m. Ok (enc_list enc_entry m)), ungob_wallets = whole (dec_list dec_entry)\<rparr>"

lemma sample_wprims_ok: "wprims_ok sample_wprims K"
proof -
  have k: "codec enc_key dec_key" by (simp add: codec_def enc_key_def dec_key_def codecs)
  have e: "codec enc_entry dec_entry"
    by (simp add: codec_def enc_entry_def dec_entry_def codecs del: SetBytes_big_Bytes)
  show ?thesis
    using whole_codec [OF k] whole_codec [OF codec_list [OF e]]
    by (simp add: wprims_ok_def sample_wprims_def del: enc_list.simps)
qed

lemma SaveToFile_NewWallets:
  assumes W: "wprims_ok W (PrivKey ` snd ` set ws)" and o: "is_order ord" "is_order ord'" and ws: "distinct (map fst ws)"
  shows "\<exists>fs'. SaveToFile W ord None ws nodeID fs = (Ok (), fs') \<and>
     (\<exists>ws'. NewWallets W ord' None fs' nodeID = Ok ws' \<and> map_of ws' = map_of ws)"
proof -
  have "distinct (map fst (ord ws))"
    using o(1) ws unfolding is_order_def by (metis mset_eq_imp_distinct_iff mset_map)
  moreover have keys: "\<forall>w \<in> snd ` set (ord ws). PrivKey w \<in> PrivKey ` snd ` set ws"
    using is_order_set [OF o(1)] by auto
  ultimately obtain m where
    m: "marshal_entries W (ord ws) [] = Ok m" "distinct (map fst m)"
      "\<forall>a. map_of m a = (case map_of ws a of Some w \<Rightarrow> Some (ser W w) | None \<Rightarrow> map_of [] a)"
    using marshal_entries_Ok [OF W, of "ord ws" "[]"] unfolding is_order_map_of [OF o(1) ws] by auto
  obtain d m' where d: "gob_wallets W m = Ok d" "ungob_wallets W d = Ok m'"
      "distinct (map fst m')" "map_of m' = map_of m"
    using W m(2) unfolding wprims_ok_def by blast
  have dist: "distinct (map fst (ord' m'))"
    using o(2) d(3) unfolding is_order_def by (metis mset_eq_imp_distinct_iff mset_map)
  have ent: "unser W sw = Ok (the (map_of ws a))" if "(a, sw) \<in> set (ord' m')" for a sw
  proof -
    have "map_of m a = Some sw"
      using that dist d(3,4) is_order_map_of [OF o(2) d(3)] by (metis map_of_is_SomeI)
    then obtain w where w: "map_of ws a = Some w" "sw = ser W w"
      using m(3) by (auto split: option.splits)
    then have "PrivKey w \<in> PrivKey ` snd ` set ws" using map_of_SomeD by force
    then show ?thesis using w unser_ser [OF W] by simp
  qed
  obtain ws' where ws': "load_entries W (ord' m') [] = (Ok (), ws')"
      "\<forall>a. map_of ws' a = (if a \<in> fst ` set (ord' m') then Some (the (map_of ws a)) else None)"
    using load_entries_Ok [where f = "\<lambda>a. the (map_of ws a)" and ws = "[]", OF dist ent] by auto
  have "map_of ws' a = map_of ws a" for a
  proof -
    have "a \<in> fst ` set (ord' m') \<longleftrightarrow> map_of m a \<noteq> None"
      using d(4) is_order_map_of [OF o(2) d(3)] by (metis map_of_eq_None_iff)
    then show ?thesis using ws'(2) m(3) by (auto split: option.splits)
  qed
  then have "map_of ws' = map_of ws" by blast
  then show ?thesis
    using m(1) d(1,2) ws'(1) by (simp add: SaveToFile_def NewWallets_def LoadFromFile_def)
qed

section \<open>Properties\<close>

text \<open>
  A wallet made from a generated key pair whose coordinates fit 32 bytes stores the public
  key in 64 bytes; its address validates,
  and the key hash that outputs are locked to for that address is the hash of its public key.
\<close>

theorem wallet_address:
  assumes "sha256_ok P" and "key_X k < 2 ^ 256" and "key_Y k < 2 ^ 256"
  shows "\<exists>w. NewWallet (Ok k) = Ok w \<and> PrivKey w = k \<and> length (PublicKey w) = 64 \<and>
     SetBytes (take 32 (PublicKey w)) = key_X k \<and> SetBytes (drop 32 (PublicKey w)) = key_Y k \<and>
     ValidateAddress P (address_of P w) \<and>
     address_hash (address_of P w) = Some (HashPubKey P (PublicKey w))"
proof -
  obtain w where "NewWallet (Ok k) = Ok w" using NewWallet_Ok [OF assms(2,3)] by blast
  with NewWallet_key [OF this] ValidateAddress_of_wallet [OF assms(1)] address_hash_of_wallet [OF assms(1)]
  show ?thesis by blast
qed

theorem wallet_address_witness:
  "\<exists>w. NewWallet (Ok (sample_key 5)) = Ok w \<and> ValidateAddress sample_prims (address_of sample_prims w)"
  using wallet_address [OF sample_sha256_ok, of "sample_key 5"] by (auto simp: sample_key_def)

text \<open>
  A wallet file that \<open>SaveToFile\<close> wrote is read back by \<open>NewWallets\<close>: the same addresses with
  the same keys, in whatever order the maps are ranged over.
\<close>

theorem wallet_file_roundtrip:
  assumes W: "wprims_ok W (PrivKey ` snd ` set ws)" and o: "is_order ord" "is_order ord'" and ws: "distinct (map fst ws)"
  shows "\<exists>fs'. SaveToFile W ord None ws nodeID fs = (Ok (), fs') \<and>
     (\<exists>ws'. NewWallets W ord' None fs' nodeID = Ok ws' \<and> map_of ws' = map_of ws)"
  by (rule SaveToFile_NewWallets [OF assms])

theorem wallet_file_roundtrip_witness:
  "\<exists>fs' ws'. SaveToFile sample_wprims (\<lambda>x. x) None [(''a'', \<lparr>PrivKey = sample_key 5, PublicKey = [5]\<rparr>)] ''1'' Map.empty = (Ok (), fs') \<and>
     NewWallets sample_wprims (\<lambda>x. x) None fs' ''1'' = Ok ws' \<and>
     map_of ws' ''a'' = Some \<lparr>PrivKey = sample_key 5, PublicKey = [5]\<rparr>"
  using wallet_file_roundtrip [OF sample_wprims_ok is_order_id is_order_id,
      of "[(''a'', \<lparr>PrivKey = sample_key 5, PublicKey = [5]\<rparr>)]" "''1''" Map.empty]
  by auto

end
