(* ===== verification/Output.thy ===== *)
theory Output
  imports Wallet
begin

text \<open>
  Transaction outputs and inputs: \<^verbatim>\<open>internal/core/transaction_output.go\<close> and
  \<^verbatim>\<open>internal/core/transaction_input.go\<close>. An output is locked to a key hash; an escrow or
  ZKCP output can be claimed by the seller with the preimage of its hash lock, or refunded to
  the buyer after its timeout. The constructors panic on bad arguments.
\<close>

section \<open>Locking\<close>

definition Lock :: "string \<Rightarrow> TXOutput \<Rightarrow> unit result \<times> TXOutput" where
  "Lock address out =
     (let pubKeyHash = Base58Decode (string_bytes address) in
      if length pubKeyHash < addressChecksumLen + 1
      then (Error (ErrMsg ''invalid address: too short after base58 decode''), out)
      else (Ok (), out\<lparr>PubKeyHash := slice 1 (length pubKeyHash - addressChecksumLen) pubKeyHash\<rparr>))"

definition IsLockedWithKey :: "TXOutput \<Rightarrow> bytes \<Rightarrow> bool" where
  "IsLockedWithKey out pubKeyHash = (PubKeyHash out = pubKeyHash)"

definition IsBuyer :: "TXOutput \<Rightarrow> bytes \<Rightarrow> bool" where
  "IsBuyer out pubKeyHash = (BuyerPubKeyHash out = pubKeyHash)"

definition UsesKey :: "Prims \<Rightarrow> TXInput \<Rightarrow> bytes \<Rightarrow> bool" where
  "UsesKey P i pubKeyHash = (HashPubKey P (PubKey i) = pubKeyHash)"

section \<open>Constructors\<close>

definition NewTXOutput :: "int64 \<Rightarrow> string \<Rightarrow> TXOutput result" where
  "NewTXOutput value address =
     (if sint value \<le> 0 then Panic ''NewTXOutput: value must be strictly positive''
      else
        let txo = \<lparr>Value = value, PubKeyHash = [], ScriptType = ScriptTypeP2PKH,
                   DataHashLock = [], TimeoutBlock = 0, BuyerPubKeyHash = []\<rparr>
        in case Lock address txo of
             (Ok _, txo) \<Rightarrow> Ok txo
           | _ \<Rightarrow> Panic ''NewTXOutput: invalid address'')"

definition NewEscrowOutput ::
    "int64 \<Rightarrow> string \<Rightarrow> string \<Rightarrow> bytes \<Rightarrow> int64 \<Rightarrow> TXOutput result" where
  "NewEscrowOutput value sellerAddress buyerAddress dataHash timeoutBlock =
     (if sint value \<le> 0 then Panic ''NewEscrowOutput: value must be strictly positive''
      else
        let sellerPubKeyHash = Base58Decode (string_bytes sellerAddress) in
        if length sellerPubKeyHash < addressChecksumLen + 1
        then Panic ''NewEscrowOutput: invalid seller address''
        else
          let sellerPKH = slice 1 (length sellerPubKeyHash - addressChecksumLen) sellerPubKeyHash;
              buyerPubKeyHash = Base58Decode (string_bytes buyerAddress) in
          if length buyerPubKeyHash < addressChecksumLen + 1
          then Panic ''NewEscrowOutput: invalid buyer address''
          else
            let buyerPKH = slice 1 (length buyerPubKeyHash - addressChecksumLen) buyerPubKeyHash in
            Ok \<lparr>Value = value, PubKeyHash = sellerPKH, ScriptType = ScriptTypeEscrow,
                DataHashLock = dataHash, TimeoutBlock = timeoutBlock, BuyerPubKeyHash = buyerPKH\<rparr>)"

definition NewZKCPOutput ::
    "int64 \<Rightarrow> string \<Rightarrow> string \<Rightarrow> bytes \<Rightarrow> int64 \<Rightarrow> TXOutput result" where
  "NewZKCPOutput value sellerAddress buyerAddress hashLock timeoutBlock =
     bind_result (NewEscrowOutput value sellerAddress buyerAddress hashLock timeoutBlock)
       (\<lambda>txo. Ok (txo\<lparr>ScriptType := ScriptTypeZKCP\<rparr>))"

section \<open>Spending conditions of escrow outputs\<close>

definition CanClaimEscrow :: "Prims \<Rightarrow> TXOutput \<Rightarrow> bytes \<Rightarrow> bytes \<Rightarrow> bool" where
  "CanClaimEscrow P out deliveredData claimerPubKeyHash =
     (if ScriptType out \<noteq> ScriptTypeEscrow then False
      else sha256 P deliveredData = DataHashLock out \<and> claimerPubKeyHash = PubKeyHash out)"

definition CanRefundEscrow :: "TXOutput \<Rightarrow> int64 \<Rightarrow> bytes \<Rightarrow> bool" where
  "CanRefundEscrow out currentHeight claimerPubKeyHash =
     (if ScriptType out \<noteq> ScriptTypeEscrow \<and> ScriptType out \<noteq> ScriptTypeZKCP then False
      else sint currentHeight > sint (TimeoutBlock out) \<and> claimerPubKeyHash = BuyerPubKeyHash out)"

definition CanClaimZKCP :: "Prims \<Rightarrow> TXOutput \<Rightarrow> bytes \<Rightarrow> bytes \<Rightarrow> bool" where
  "CanClaimZKCP P out deliveredData claimerPubKeyHash =
     (if ScriptType out \<noteq> ScriptTypeZKCP then False
      else sha256 P deliveredData = DataHashLock out \<and> claimerPubKeyHash = PubKeyHash out)"

section \<open>Serialisation\<close>

definition Serialize_outs :: "Prims \<Rightarrow> TXOutputs \<Rightarrow> bytes result" where
  "Serialize_outs P outs =
     (case gob_outs P outs of
        Some d \<Rightarrow> Ok d
      | None \<Rightarrow> Panic ''TXOutputs.Serialize: gob encode failed'')"

definition DeserializeOutputs :: "Prims \<Rightarrow> bytes \<Rightarrow> TXOutputs result" where
  "DeserializeOutputs P data =
     (case ungob_outs P data of
        Ok outputs \<Rightarrow> Ok outputs
      | Error e \<Rightarrow> Panic ''DeserializeOutputs: gob decode failed''
      | r \<Rightarrow> r)"

section \<open>Lemmas\<close>

lemma Deserialize_Serialize_outs:
  assumes "gob_ok P"
  shows "\<exists>d. Serialize_outs P outs = Ok d \<and> DeserializeOutputs P d = Ok outs"
proof -
  obtain d where "gob_outs P outs = Some d" "ungob_outs P d = Ok outs"
    using gob_ok_outs [OF assms] .
  then show ?thesis by (simp add: Serialize_outs_def DeserializeOutputs_def)
qed

lemma NewTXOutput_eq:
  "NewTXOutput value address =
     (if sint value \<le> 0 then Panic ''NewTXOutput: value must be strictly positive''
      else case address_hash address of
             None \<Rightarrow> Panic ''NewTXOutput: invalid address''
           | Some h \<Rightarrow> Ok \<lparr>Value = value, PubKeyHash = h, ScriptType = ScriptTypeP2PKH,
                DataHashLock = [], TimeoutBlock = 0, BuyerPubKeyHash = []\<rparr>)"
  by (simp add: NewTXOutput_def Lock_def address_hash_def Let_def)

lemma NewEscrowOutput_eq:
  "NewEscrowOutput value seller buyer dataHash timeout =
     (if sint value \<le> 0 then Panic ''NewEscrowOutput: value must be strictly positive''
      else case address_hash seller of
             None \<Rightarrow> Panic ''NewEscrowOutput: invalid seller address''
           | Some s \<Rightarrow>
             (case address_hash buyer of
                None \<Rightarrow> Panic ''NewEscrowOutput: invalid buyer address''
              | Some b \<Rightarrow> Ok \<lparr>Value = value, PubKeyHash = s, ScriptType = ScriptTypeEscrow,
                   DataHashLock = dataHash, TimeoutBlock = timeout, BuyerPubKeyHash = b\<rparr>))"
  by (simp add: NewEscrowOutput_def address_hash_def Let_def)

text \<open>The three ways to spend a locked output exclude each other where the code relies on it.\<close>

lemma CanClaimEscrow_iff:
  "CanClaimEscrow P out w h \<longleftrightarrow>
     ScriptType out = ScriptTypeEscrow \<and> sha256 P w = DataHashLock out \<and> h = PubKeyHash out"
  by (simp add: CanClaimEscrow_def)

lemma CanClaimZKCP_iff:
  "CanClaimZKCP P out w h \<longleftrightarrow>
     ScriptType out = ScriptTypeZKCP \<and> sha256 P w = DataHashLock out \<and> h = PubKeyHash out"
  by (simp add: CanClaimZKCP_def)

lemma CanRefundEscrow_iff:
  "CanRefundEscrow out height h \<longleftrightarrow>
     ScriptType out \<in> {ScriptTypeEscrow, ScriptTypeZKCP} \<and>
     sint (TimeoutBlock out) < sint height \<and> h = BuyerPubKeyHash out"
  by (auto simp: CanRefundEscrow_def)

end
