(* ===== verification/Transaction.thy ===== *)
theory Transaction
  imports Output
begin

text \<open>
  Transactions: the data operations, signing and verification of
  \<^verbatim>\<open>internal/core/transaction.go\<close>. Signing and verification run over a trimmed copy whose
  inputs have no signature and no key; for each input the expected key hash is written into the
  copy, the copy is hashed, and the key is cleared again. The functions below keep that loop;
  \<open>verify_loop_iff\<close> turns it into a condition on each input.
\<close>

section \<open>Data operations\<close>

definition subsidy :: int64 where "subsidy = 10"

definition IsCoinbase :: "Transaction \<Rightarrow> bool" where
  "IsCoinbase tx = (length (Vin tx) = 1 \<and> Txid (Vin tx ! 0) = [] \<and> Vout_in (Vin tx ! 0) = -1)"

definition Serialize_tx :: "Prims \<Rightarrow> Transaction \<Rightarrow> bytes" where
  "Serialize_tx P tx = (case gob_tx P tx of None \<Rightarrow> [] | Some d \<Rightarrow> d)"

definition DeserializeTransaction :: "Prims \<Rightarrow> bytes \<Rightarrow> Transaction result" where
  "DeserializeTransaction P data = wrap_err ''failed to deserialize transaction'' (ungob_tx P data)"

definition Hash_tx :: "Prims \<Rightarrow> Transaction \<Rightarrow> bytes" where
  "Hash_tx P tx = sha256 P (Serialize_tx P (tx\<lparr>ID := []\<rparr>))"

definition TrimmedCopy :: "Transaction \<Rightarrow> Transaction" where
  "TrimmedCopy tx =
     \<lparr>ID = ID tx,
      Vin = map (\<lambda>vin. \<lparr>Txid = Txid vin, Vout_in = Vout_in vin, Signature = [], PubKey = [],
                         EscrowWitness = [], IsRefund = IsRefund vin\<rparr>) (Vin tx),
      Vout = map (\<lambda>vout. \<lparr>Value = Value vout, PubKeyHash = PubKeyHash vout,
                           ScriptType = ScriptType vout, DataHashLock = DataHashLock vout,
                           TimeoutBlock = TimeoutBlock vout,
                           BuyerPubKeyHash = BuyerPubKeyHash vout\<rparr>) (Vout tx)\<rparr>"

text \<open>\<^verbatim>\<open>tx.Vin[i].F = v\<close> for an index in range.\<close>

definition upd_Vin :: "nat \<Rightarrow> (TXInput \<Rightarrow> TXInput) \<Rightarrow> Transaction \<Rightarrow> Transaction" where
  "upd_Vin i f tx = tx\<lparr>Vin := (Vin tx)[i := f (Vin tx ! i)]\<rparr>"

text \<open>
  The map from hexadecimal ids to the transactions the inputs refer to. A missing key reads as
  the zero transaction, whose id is nil and which has no outputs.
\<close>

type_synonym prevTXs = "string \<rightharpoonup> Transaction"

definition lookup_tx :: "prevTXs \<Rightarrow> bytes \<Rightarrow> Transaction" where
  "lookup_tx prev txid =
     (case prev (hex_encode txid) of Some t \<Rightarrow> t | None \<Rightarrow> \<lparr>ID = [], Vin = [], Vout = []\<rparr>)"

text \<open>The key hash an input has to be signed for: the buyer's on an escrow refund.\<close>

definition expected_pkh :: "TXInput \<Rightarrow> TXOutput \<Rightarrow> bytes" where
  "expected_pkh vin prevOut =
     (if IsRefund vin \<and> ScriptType prevOut = ScriptTypeEscrow then BuyerPubKeyHash prevOut
      else PubKeyHash prevOut)"

section \<open>Sign\<close>

fun sign_loop ::
    "Prims \<Rightarrow> PrivateKey \<Rightarrow> (nat \<Rightarrow> nat) \<Rightarrow> prevTXs \<Rightarrow> nat \<Rightarrow> TXInput list \<Rightarrow> Transaction \<Rightarrow>
     Transaction \<Rightarrow> unit result \<times> Transaction" where
  "sign_loop P privKey rnd prev inID [] txCopy tx = (Ok (), tx)"
| "sign_loop P privKey rnd prev inID (vin # vins) txCopy tx =
     (case go_index (Vout (lookup_tx prev (Txid vin))) (Vout_in vin) of
        Ok prevOut \<Rightarrow>
          (let txCopy = upd_Vin inID (\<lambda>v. v\<lparr>Signature := []\<rparr>) txCopy;
               txCopy = upd_Vin inID (\<lambda>v. v\<lparr>PubKey := expected_pkh (Vin tx ! inID) prevOut\<rparr>) txCopy;
               dataToSign = Hash_tx P txCopy
           in case wrap_err ''failed to sign transaction'' (ecdsa_sign P privKey dataToSign (rnd inID)) of
                Ok (r, s) \<Rightarrow>
                  (case bind_result (FillBytes 32 r) (\<lambda>rBytes.
                        bind_result (FillBytes 32 s) (\<lambda>sBytes. Ok (rBytes @ sBytes))) of
                     Ok sig \<Rightarrow>
                       sign_loop P privKey rnd prev (Suc inID) vins
                         (upd_Vin inID (\<lambda>v. v\<lparr>PubKey := []\<rparr>) txCopy)
                         (upd_Vin inID (\<lambda>v. v\<lparr>Signature := sig\<rparr>) tx)
                   | r \<Rightarrow> (as_failure r, tx))
              | r \<Rightarrow> (as_failure r, tx))
      | r \<Rightarrow> (as_failure r, tx))"

definition Sign ::
    "Prims \<Rightarrow> PrivateKey \<Rightarrow> (nat \<Rightarrow> nat) \<Rightarrow> prevTXs \<Rightarrow> Transaction \<Rightarrow> unit result \<times> Transaction" where
  "Sign P privKey rnd prev tx =
     (if IsCoinbase tx then (Ok (), tx)
      else if \<exists>vin \<in> set (Vin tx). ID (lookup_tx prev (Txid vin)) = []
      then (Error (ErrMsg ''previous transaction is not correct''), tx)
      else let txCopy = TrimmedCopy tx
           in sign_loop P privKey rnd prev 0 (Vin txCopy) txCopy tx)"

section \<open>Verify\<close>

text \<open>The first loop: \<open>None\<close> when an output is not strictly positive.\<close>

fun output_sum :: "TXOutput list \<Rightarrow> int64 \<Rightarrow> int64 option" where
  "output_sum [] acc = Some acc"
| "output_sum (out # outs) acc =
     (if sint (Value out) \<le> 0 then None else output_sum outs (acc + Value out))"

text \<open>The additional constraints of escrow and ZKCP outputs.\<close>

definition script_ok :: "Prims \<Rightarrow> int64 \<Rightarrow> TXInput \<Rightarrow> TXOutput \<Rightarrow> bool" where
  "script_ok P height vin prevOut =
     (if ScriptType prevOut = ScriptTypeEscrow \<or> ScriptType prevOut = ScriptTypeZKCP then
        let claimerPubKeyHash = HashPubKey P (PubKey vin) in
        if IsRefund vin then CanRefundEscrow prevOut height claimerPubKeyHash
        else if ScriptType prevOut = ScriptTypeEscrow
        then CanClaimEscrow P prevOut (EscrowWitness vin) claimerPubKeyHash
        else CanClaimZKCP P prevOut (EscrowWitness vin) claimerPubKeyHash
      else True)"

text \<open>The second loop: \<open>Ok None\<close> for \<^verbatim>\<open>return false\<close>, \<open>Ok (Some s)\<close> for the input sum.\<close>

fun verify_loop ::
    "Prims \<Rightarrow> prevTXs \<Rightarrow> int64 \<Rightarrow> nat \<Rightarrow> TXInput list \<Rightarrow> Transaction \<Rightarrow> int64 \<Rightarrow> int64 option result" where
  "verify_loop P prev height inID [] txCopy inputSum = Ok (Some inputSum)"
| "verify_loop P prev height inID (vin # vins) txCopy inputSum =
     bind_result (go_index (Vout (lookup_tx prev (Txid vin))) (Vout_in vin)) (\<lambda>prevOut.
       let txCopy = upd_Vin inID (\<lambda>v. v\<lparr>Signature := []\<rparr>) txCopy;
           txCopy = upd_Vin inID (\<lambda>v. v\<lparr>PubKey := expected_pkh vin prevOut\<rparr>) txCopy
       in
       if length (Signature vin) \<noteq> 64 then Ok None
       else
         let r = SetBytes (take 32 (Signature vin)); s = SetBytes (drop 32 (Signature vin)) in
         if length (PubKey vin) \<noteq> 64 then Ok None
         else
           let x = SetBytes (take 32 (PubKey vin)); y = SetBytes (drop 32 (PubKey vin));
               dataToVerify = Hash_tx P txCopy in
           if \<not> ecdsa_verify P (x, y) dataToVerify (r, s) then Ok None
           else if \<not> script_ok P height vin prevOut then Ok None
           else verify_loop P prev height (Suc inID) vins
                  (upd_Vin inID (\<lambda>v. v\<lparr>PubKey := []\<rparr>) txCopy) (inputSum + Value prevOut))"

definition Verify :: "Prims \<Rightarrow> prevTXs \<Rightarrow> int64 \<Rightarrow> Transaction \<Rightarrow> bool result" where
  "Verify P prev height tx =
     (if IsCoinbase tx then Ok True
      else if \<exists>vin \<in> set (Vin tx). ID (lookup_tx prev (Txid vin)) = [] then Ok False
      else
        let txCopy = TrimmedCopy tx in
        case output_sum (Vout tx) 0 of
          None \<Rightarrow> Ok False
        | Some outputSum \<Rightarrow>
            bind_result (verify_loop P prev height 0 (Vin tx) txCopy 0) (\<lambda>inputs.
              case inputs of
                None \<Rightarrow> Ok False
              | Some inputSum \<Rightarrow> Ok (\<not> sint inputSum < sint outputSum)))"

section \<open>Coinbase\<close>

text \<open>
  \<open>randHex\<close> is the hexadecimal text of the random bytes drawn when no data is given, or the
  error of the random source.
\<close>

definition NewCoinbaseTX :: "Prims \<Rightarrow> string result \<Rightarrow> string \<Rightarrow> string \<Rightarrow> Transaction result" where
  "NewCoinbaseTX P randHex to data =
     bind_result (if data = [] then wrap_err ''failed to generate random data'' randHex else Ok data)
       (\<lambda>data.
         let txin = \<lparr>Txid = [], Vout_in = -1, Signature = [], PubKey = string_bytes data,
                     EscrowWitness = [], IsRefund = False\<rparr>
         in bind_result (NewTXOutput subsidy to) (\<lambda>txout.
              let tx = \<lparr>ID = [], Vin = [txin], Vout = [txout]\<rparr>
              in Ok (tx\<lparr>ID := Hash_tx P tx\<rparr>)))"

section \<open>What verification checks\<close>

text \<open>The message that input \<open>i\<close> signs when it spends an output locked to \<open>pkh\<close>.\<close>

definition sig_hash :: "Prims \<Rightarrow> Transaction \<Rightarrow> nat \<Rightarrow> bytes \<Rightarrow> bytes" where
  "sig_hash P tx i pkh = Hash_tx P (upd_Vin i (\<lambda>v. v\<lparr>PubKey := pkh\<rparr>) (TrimmedCopy tx))"

definition input_ok :: "Prims \<Rightarrow> int64 \<Rightarrow> Transaction \<Rightarrow> nat \<Rightarrow> TXInput \<Rightarrow> TXOutput \<Rightarrow> bool" where
  "input_ok P height tx i vin out \<longleftrightarrow>
     length (Signature vin) = 64 \<and> length (PubKey vin) = 64 \<and>
     ecdsa_verify P (SetBytes (take 32 (PubKey vin)), SetBytes (drop 32 (PubKey vin)))
       (sig_hash P tx i (expected_pkh vin out))
       (SetBytes (take 32 (Signature vin)), SetBytes (drop 32 (Signature vin))) \<and>
     script_ok P height vin out"

text \<open>The outputs the inputs refer to.\<close>

definition spends :: "prevTXs \<Rightarrow> Transaction \<Rightarrow> TXOutput list \<Rightarrow> bool" where
  "spends prev tx outs \<longleftrightarrow>
     list_all2 (\<lambda>vin out. ID (lookup_tx prev (Txid vin)) \<noteq> [] \<and>
        go_index (Vout (lookup_tx prev (Txid vin))) (Vout_in vin) = Ok out) (Vin tx) outs"

lemma upd_Vin_sel [simp]:
  "ID (upd_Vin i f tx) = ID tx" "Vout (upd_Vin i f tx) = Vout tx"
  "length (Vin (upd_Vin i f tx)) = length (Vin tx)"
  by (simp_all add: upd_Vin_def)

lemma nth_upd_Vin:
  "j < length (Vin tx) \<Longrightarrow> Vin (upd_Vin i f tx) ! j = (if j = i then f (Vin tx ! i) else Vin tx ! j)"
  by (simp add: upd_Vin_def nth_list_update)

lemma length_TrimmedCopy [simp]: "length (Vin (TrimmedCopy tx)) = length (Vin tx)"
  by (simp add: TrimmedCopy_def)

lemma upd_trimmed_signature:
  "upd_Vin i (\<lambda>v. v\<lparr>Signature := []\<rparr>) (TrimmedCopy tx) = TrimmedCopy tx"
  by (cases "i < length (Vin tx)")
    (simp_all add: upd_Vin_def TrimmedCopy_def list_update_beyond list_update_same_conv)

lemma upd_trimmed_reset:
  "upd_Vin i (\<lambda>v. v\<lparr>PubKey := []\<rparr>) (upd_Vin i (\<lambda>v. v\<lparr>PubKey := k\<rparr>) (TrimmedCopy tx)) = TrimmedCopy tx"
  by (cases "i < length (Vin tx)")
    (simp_all add: upd_Vin_def TrimmedCopy_def list_update_beyond list_update_same_conv)

text \<open>One iteration of the verification loop, with the copy back in its trimmed state.\<close>

lemma verify_loop_Cons:
  "verify_loop P prev height i (vin # vins) (TrimmedCopy tx) acc =
     bind_result (go_index (Vout (lookup_tx prev (Txid vin))) (Vout_in vin)) (\<lambda>out.
       if input_ok P height tx i vin out
       then verify_loop P prev height (Suc i) vins (TrimmedCopy tx) (acc + Value out) else Ok None)"
  by (cases "go_index (Vout (lookup_tx prev (Txid vin))) (Vout_in vin)")
    (simp_all add: upd_trimmed_signature upd_trimmed_reset Let_def input_ok_def sig_hash_def)

lemma verify_loop_iff:
  "verify_loop P prev height i vins (TrimmedCopy tx) acc = Ok (Some s) \<longleftrightarrow>
     (\<exists>outs. list_all2 (\<lambda>vin out. go_index (Vout (lookup_tx prev (Txid vin))) (Vout_in vin) = Ok out) vins outs
        \<and> (\<forall>j < length vins. input_ok P height tx (i + j) (vins ! j) (outs ! j))
        \<and> s = acc + sum_list (map Value outs))"
  (is "_ \<longleftrightarrow> (\<exists>outs. ?R vins outs \<and> ?I i vins outs \<and> ?S acc outs)")
proof (induction vins arbitrary: i acc)
  case Nil
  then show ?case by auto
next
  case (Cons vin vins)
  have all: "?I i (vin # vins) (out # outs) \<longleftrightarrow> input_ok P height tx i vin out \<and> ?I (Suc i) vins outs"
    for out outs
    by (auto simp: All_less_Suc2)
  have "verify_loop P prev height i (vin # vins) (TrimmedCopy tx) acc = Ok (Some s) \<longleftrightarrow>
      (\<exists>out. go_index (Vout (lookup_tx prev (Txid vin))) (Vout_in vin) = Ok out \<and>
        input_ok P height tx i vin out \<and>
        verify_loop P prev height (Suc i) vins (TrimmedCopy tx) (acc + Value out) = Ok (Some s))"
    unfolding verify_loop_Cons bind_result_eq_Ok by (auto split: if_splits)
  also have "\<dots> \<longleftrightarrow> (\<exists>out. go_index (Vout (lookup_tx prev (Txid vin))) (Vout_in vin) = Ok out \<and>
        input_ok P height tx i vin out \<and>
        (\<exists>outs. ?R vins outs \<and> ?I (Suc i) vins outs \<and> ?S (acc + Value out) outs))"
    unfolding Cons.IH ..
  also have "\<dots> \<longleftrightarrow> (\<exists>outs. ?R (vin # vins) outs \<and> ?I i (vin # vins) outs \<and> ?S acc outs)"
    (is "?L = ?E")
  proof
    assume ?L
    then obtain out outs where "go_index (Vout (lookup_tx prev (Txid vin))) (Vout_in vin) = Ok out"
      "input_ok P height tx i vin out" "?R vins outs" "?I (Suc i) vins outs" "?S (acc + Value out) outs"
      by blast
    then have "?R (vin # vins) (out # outs) \<and> ?I i (vin # vins) (out # outs) \<and> ?S acc (out # outs)"
      unfolding all by (simp add: add.assoc)
    then show ?E by blast
  next
    assume ?E
    then obtain outs' where E: "?R (vin # vins) outs'" "?I i (vin # vins) outs'" "?S acc outs'"
      by blast
    then obtain out outs where "outs' = out # outs" by (auto simp: list_all2_Cons1)
    moreover from this have "input_ok P height tx i vin out" "?I (Suc i) vins outs"
      using E(2) all by simp_all
    ultimately show ?L using E by (auto simp: add.assoc)
  qed
  finally show ?case .
qed

text \<open>The first loop computes the wrapping sum of the outputs, all of them positive.\<close>

lemma output_sum_eq:
  "output_sum outs acc =
     (if \<forall>out \<in> set outs. 0 < sint (Value out) then Some (acc + sum_list (map Value outs)) else None)"
  by (induction outs arbitrary: acc) (auto simp: add.assoc)

lemma Verify_True_iff:
  "Verify P prev height tx = Ok True \<longleftrightarrow>
     IsCoinbase tx \<or>
     (\<exists>outs. spends prev tx outs \<and>
        (\<forall>out \<in> set (Vout tx). 0 < sint (Value out)) \<and>
        (\<forall>i < length (Vin tx). input_ok P height tx i (Vin tx ! i) (outs ! i)) \<and>
        sint (sum_list (map Value (Vout tx))) \<le> sint (sum_list (map Value outs)))"
  (is "?V \<longleftrightarrow> _ \<or> ?R")
proof (cases "IsCoinbase tx \<or> (\<exists>vin \<in> set (Vin tx). ID (lookup_tx prev (Txid vin)) = [])")
  case True
  then show ?thesis
    by (auto simp: Verify_def spends_def list_all2_conv_all_nth in_set_conv_nth)
next
  case False
  then have sp: "spends prev tx outs \<longleftrightarrow>
      list_all2 (\<lambda>vin out. go_index (Vout (lookup_tx prev (Txid vin))) (Vout_in vin) = Ok out) (Vin tx) outs"
    for outs
    by (auto simp: spends_def list_all2_conv_all_nth)
  have "?V \<longleftrightarrow> (\<forall>out \<in> set (Vout tx). 0 < sint (Value out)) \<and>
      (\<exists>s. verify_loop P prev height 0 (Vin tx) (TrimmedCopy tx) 0 = Ok (Some s) \<and>
           sint (sum_list (map Value (Vout tx))) \<le> sint s)"
    using False by (auto simp: Verify_def output_sum_eq Let_def bind_result_eq_Ok not_less
        split: option.splits)
  also have "\<dots> \<longleftrightarrow> ?R"
    unfolding verify_loop_iff sp by auto
  finally show ?thesis using False by blast
qed

lemma verify_loop_outcome:
  assumes "list_all (\<lambda>vin. is_Ok (go_index (Vout (lookup_tx prev (Txid vin))) (Vout_in vin))) vins"
  shows "is_Ok (verify_loop P prev height i vins c acc)"
  using assms
proof (induction vins arbitrary: i c acc)
  case (Cons vin vins)
  then show ?case
    by (cases "go_index (Vout (lookup_tx prev (Txid vin))) (Vout_in vin)") (auto simp: Let_def)
qed simp

lemma Verify_outcome:
  assumes "Verify P prev height tx \<noteq> Ok True" and "Verify P prev height tx \<noteq> Ok False"
  shows "\<exists>vin \<in> set (Vin tx). ID (lookup_tx prev (Txid vin)) \<noteq> [] \<and>
         \<not> (0 \<le> sint (Vout_in vin) \<and>
            sint (Vout_in vin) < int (length (Vout (lookup_tx prev (Txid vin)))))"
proof (rule ccontr)
  assume neg: "\<not> ?thesis"
  show False
  proof (cases "IsCoinbase tx \<or> (\<exists>vin \<in> set (Vin tx). ID (lookup_tx prev (Txid vin)) = [])")
    case True
    then show ?thesis using assms by (auto simp: Verify_def split: if_splits)
  next
    case False
    then have "list_all (\<lambda>vin. is_Ok (go_index (Vout (lookup_tx prev (Txid vin))) (Vout_in vin))) (Vin tx)"
      using neg by (auto simp: list_all_iff go_index_def)
    then have "is_Ok (verify_loop P prev height 0 (Vin tx) (TrimmedCopy tx) 0)"
      by (rule verify_loop_outcome)
    then show ?thesis using assms False
      by (auto simp: Verify_def Let_def is_Ok_iff split: option.splits)
  qed
qed

lemma spends_unique: "spends prev tx outs \<Longrightarrow> spends prev tx outs' \<Longrightarrow> outs = outs'"
  unfolding spends_def list_all2_conv_all_nth by (intro nth_equalityI) auto

section \<open>What signing changes\<close>

text \<open>A transaction without its signatures.\<close>

definition strip_sigs :: "Transaction \<Rightarrow> Transaction" where
  "strip_sigs tx = tx\<lparr>Vin := map (\<lambda>v. v\<lparr>Signature := []\<rparr>) (Vin tx)\<rparr>"

lemma strip_sigs_upd [simp]: "strip_sigs (upd_Vin i (\<lambda>v. v\<lparr>Signature := sig\<rparr>) tx) = strip_sigs tx"
  by (cases "i < length (Vin tx)")
    (simp_all add: strip_sigs_def upd_Vin_def map_update list_update_same_conv list_update_beyond)

lemma strip_sigs_eqD:
  assumes "strip_sigs t = strip_sigs tx"
  shows "TrimmedCopy t = TrimmedCopy tx" and "length (Vin t) = length (Vin tx)"
    and "Vout t = Vout tx" and "ID t = ID tx"
    and "i < length (Vin tx) \<Longrightarrow> (Vin t ! i)\<lparr>Signature := []\<rparr> = (Vin tx ! i)\<lparr>Signature := []\<rparr>"
proof -
  have v: "map (\<lambda>v. v\<lparr>Signature := []\<rparr>) (Vin t) = map (\<lambda>v. v\<lparr>Signature := []\<rparr>) (Vin tx)"
    using arg_cong [OF assms, of Vin] by (simp add: strip_sigs_def)
  then show len: "length (Vin t) = length (Vin tx)" by (rule map_eq_imp_length_eq)
  show nth: "i < length (Vin tx) \<Longrightarrow> (Vin t ! i)\<lparr>Signature := []\<rparr> = (Vin tx ! i)\<lparr>Signature := []\<rparr>" for i
    using arg_cong [OF v, of "\<lambda>xs. xs ! i"] len by simp
  show o: "Vout t = Vout tx" "ID t = ID tx"
    using arg_cong [OF assms, of Vout] arg_cong [OF assms, of ID] by (simp_all add: strip_sigs_def)
  have "map f (Vin t) = map f (Vin tx)" if "\<And>v. f (v\<lparr>Signature := []\<rparr>) = f v" for f :: "TXInput \<Rightarrow> TXInput"
    using arg_cong [OF v, of "map f"] that by (simp add: comp_def)
  then show "TrimmedCopy t = TrimmedCopy tx" by (simp add: TrimmedCopy_def o)
qed

lemma IsCoinbase_strip:
  assumes "strip_sigs t = strip_sigs tx"
  shows "IsCoinbase t = IsCoinbase tx"
proof -
  have "IsCoinbase (strip_sigs t) = IsCoinbase t" for t
    by (cases "Vin t") (auto simp: IsCoinbase_def strip_sigs_def)
  then show ?thesis using assms by metis
qed

text \<open>The fields of an input that signing keeps.\<close>

lemma strip_sigs_fields:
  assumes "strip_sigs t = strip_sigs tx" and "i < length (Vin tx)"
  shows "Txid (Vin t ! i) = Txid (Vin tx ! i)" "Vout_in (Vin t ! i) = Vout_in (Vin tx ! i)"
    "PubKey (Vin t ! i) = PubKey (Vin tx ! i)" "EscrowWitness (Vin t ! i) = EscrowWitness (Vin tx ! i)"
    "IsRefund (Vin t ! i) = IsRefund (Vin tx ! i)"
  using strip_sigs_eqD(5) [OF assms] by (metis TXInput.select_convs TXInput.surjective TXInput.update_convs(3))+

lemma sign_loop_strip: "strip_sigs (snd (sign_loop P k rnd prev i vins c tx)) = strip_sigs tx"
proof (induction vins arbitrary: i c tx)
  case (Cons vin vins)
  then show ?case by (simp add: Let_def split: result.split prod.split)
qed simp

text \<open>A signature for input \<open>i\<close> that the key \<open>k\<close> makes and that verifies under it.\<close>

definition sig_by :: "Prims \<Rightarrow> PrivateKey \<Rightarrow> bytes \<Rightarrow> bytes \<Rightarrow> bool" where
  "sig_by P k h sig \<longleftrightarrow> length sig = 64 \<and>
     ecdsa_verify P (key_X k, key_Y k) h (SetBytes (take 32 sig), SetBytes (drop 32 sig))"

lemma sign_once:
  assumes "ecdsa_ok P k"
  obtains r s rb sb where "ecdsa_sign P k h rnd = Ok (r, s)" and "FillBytes 32 r = Ok rb"
    and "FillBytes 32 s = Ok sb" and "sig_by P k h (rb @ sb)"
proof -
  obtain r s where rs: "ecdsa_sign P k h rnd = Ok (r, s)" "r < 2 ^ 256" "s < 2 ^ 256"
    "ecdsa_verify P (key_X k, key_Y k) h (r, s)"
    using assms unfolding ecdsa_ok_def by blast
  obtain rb sb where b: "FillBytes 32 r = Ok rb" "length rb = 32" "SetBytes rb = r"
    "FillBytes 32 s = Ok sb" "length sb = 32" "SetBytes sb = s"
    using FillBytes_32 rs(2,3) by metis
  have "sig_by P k h (rb @ sb)" using b rs(4) by (simp add: sig_by_def)
  with rs b that show ?thesis by blast
qed

lemma sign_loop_Ok:
  assumes k: "ecdsa_ok P k" and outs: "\<And>j. j < length (Vin tx) \<Longrightarrow>
      go_index (Vout (lookup_tx prev (Txid (Vin tx ! j)))) (Vout_in (Vin tx ! j)) = Ok (outs ! j)"
    and t: "strip_sigs t = strip_sigs tx" and i: "i \<le> length (Vin tx)"
  shows "\<exists>t'. sign_loop P k rnd prev i (drop i (Vin (TrimmedCopy tx))) (TrimmedCopy tx) t = (Ok (), t') \<and>
     strip_sigs t' = strip_sigs tx \<and> (\<forall>j < i. Vin t' ! j = Vin t ! j) \<and>
     (\<forall>j. i \<le> j \<and> j < length (Vin tx) \<longrightarrow>
        sig_by P k (sig_hash P tx j (expected_pkh (Vin tx ! j) (outs ! j))) (Signature (Vin t' ! j)))"
  using t i
proof (induction "length (Vin tx) - i" arbitrary: i t)
  case 0
  then show ?case by auto
next
  case (Suc n)
  then have lt: "i < length (Vin tx)" by simp
  define h where "h = sig_hash P tx i (expected_pkh (Vin tx ! i) (outs ! i))"
  obtain r s rb sb where sg: "ecdsa_sign P k h (rnd i) = Ok (r, s)" "FillBytes 32 r = Ok rb"
    "FillBytes 32 s = Ok sb" "sig_by P k h (rb @ sb)"
    using sign_once [OF k] .
  define t1 where "t1 = upd_Vin i (\<lambda>v. v\<lparr>Signature := rb @ sb\<rparr>) t"
  have ref: "expected_pkh (Vin t ! i) (outs ! i) = expected_pkh (Vin tx ! i) (outs ! i)"
    using strip_sigs_fields [OF Suc.prems(1) lt] by (simp add: expected_pkh_def)
  have "drop i (Vin (TrimmedCopy tx)) = Vin (TrimmedCopy tx) ! i # drop (Suc i) (Vin (TrimmedCopy tx))"
    using lt by (simp add: Cons_nth_drop_Suc)
  moreover have "Txid (Vin (TrimmedCopy tx) ! i) = Txid (Vin tx ! i)"
    "Vout_in (Vin (TrimmedCopy tx) ! i) = Vout_in (Vin tx ! i)"
    using lt by (simp_all add: TrimmedCopy_def)
  ultimately have step: "sign_loop P k rnd prev i (drop i (Vin (TrimmedCopy tx))) (TrimmedCopy tx) t =
      sign_loop P k rnd prev (Suc i) (drop (Suc i) (Vin (TrimmedCopy tx))) (TrimmedCopy tx) t1"
    using sg outs [OF lt]
    by (simp add: Let_def upd_trimmed_signature upd_trimmed_reset ref t1_def h_def sig_hash_def)
  have t1: "strip_sigs t1 = strip_sigs tx" using Suc.prems(1) by (simp add: t1_def)
  have "n = length (Vin tx) - Suc i" "Suc i \<le> length (Vin tx)" using Suc.hyps(2) by linarith+
  from Suc.hyps(1) [OF this(1) t1 this(2)] obtain t' where
    t': "sign_loop P k rnd prev (Suc i) (drop (Suc i) (Vin (TrimmedCopy tx))) (TrimmedCopy tx) t1 = (Ok (), t')"
      "strip_sigs t' = strip_sigs tx" "\<forall>j < Suc i. Vin t' ! j = Vin t1 ! j"
      "\<forall>j. Suc i \<le> j \<and> j < length (Vin tx) \<longrightarrow>
        sig_by P k (sig_hash P tx j (expected_pkh (Vin tx ! j) (outs ! j))) (Signature (Vin t' ! j))"
    by blast
  have nth: "Vin t1 ! j = (if j = i then (Vin t ! i)\<lparr>Signature := rb @ sb\<rparr> else Vin t ! j)"
    if "j \<le> i" for j
    using that lt strip_sigs_eqD(2) [OF Suc.prems(1)] by (simp add: t1_def nth_upd_Vin)
  have "sig_by P k h (Signature (Vin t' ! i))" using t'(3) nth [of i] sg(4) by simp
  then have "sig_by P k (sig_hash P tx j (expected_pkh (Vin tx ! j) (outs ! j))) (Signature (Vin t' ! j))"
    if "i \<le> j" "j < length (Vin tx)" for j
    using t'(4) that unfolding h_def by (cases "j = i") auto
  moreover have "\<forall>j < i. Vin t' ! j = Vin t ! j" using t'(3) nth by simp
  ultimately show ?case using step t'(1,2) by auto
qed

text \<open>\<open>FillBytes\<close> of the coordinates is how a wallet stores a public key.\<close>

definition is_pubkey :: "PrivateKey \<Rightarrow> bytes \<Rightarrow> bool" where
  "is_pubkey k pk \<longleftrightarrow> length pk = 64 \<and> SetBytes (take 32 pk) = key_X k \<and> SetBytes (drop 32 pk) = key_Y k"

lemma Sign_Ok:
  assumes k: "ecdsa_ok P k" and nc: "\<not> IsCoinbase tx" and sp: "spends prev tx outs"
  obtains tx' where "Sign P k rnd prev tx = (Ok (), tx')" and "strip_sigs tx' = strip_sigs tx"
    and "\<And>i. i < length (Vin tx) \<Longrightarrow>
      sig_by P k (sig_hash P tx i (expected_pkh (Vin tx ! i) (outs ! i))) (Signature (Vin tx' ! i))"
proof -
  have ids: "\<not> (\<exists>vin \<in> set (Vin tx). ID (lookup_tx prev (Txid vin)) = [])"
    and gi: "\<And>j. j < length (Vin tx) \<Longrightarrow>
      go_index (Vout (lookup_tx prev (Txid (Vin tx ! j)))) (Vout_in (Vin tx ! j)) = Ok (outs ! j)"
    using sp by (auto simp: spends_def list_all2_conv_all_nth in_set_conv_nth)
  show ?thesis
    using sign_loop_Ok [where i = 0 and t = tx, OF k gi] that nc ids
    by (auto simp: Sign_def Let_def)
qed

lemma sig_hash_strip: "strip_sigs t = strip_sigs tx \<Longrightarrow> sig_hash P t i h = sig_hash P tx i h"
  unfolding sig_hash_def by (drule strip_sigs_eqD(1)) (simp only:)

lemma Sign_Verify_aux:
  assumes k: "ecdsa_ok P k" and nc: "\<not> IsCoinbase tx" and sp: "spends prev tx outs"
    and pk: "\<forall>vin \<in> set (Vin tx). is_pubkey k (PubKey vin)"
    and sc: "\<forall>i < length (Vin tx). script_ok P height (Vin tx ! i) (outs ! i)"
    and pos: "\<forall>out \<in> set (Vout tx). 0 < sint (Value out)"
    and sum: "sint (sum_list (map Value (Vout tx))) \<le> sint (sum_list (map Value outs))"
  shows "\<exists>tx'. Sign P k rnd prev tx = (Ok (), tx') \<and> strip_sigs tx' = strip_sigs tx \<and>
    Verify P prev height tx' = Ok True"
proof -
  obtain tx' where tx': "Sign P k rnd prev tx = (Ok (), tx')" "strip_sigs tx' = strip_sigs tx"
    and sg: "\<And>i. i < length (Vin tx) \<Longrightarrow>
      sig_by P k (sig_hash P tx i (expected_pkh (Vin tx ! i) (outs ! i))) (Signature (Vin tx' ! i))"
    using Sign_Ok [OF k nc sp] by blast
  note f = strip_sigs_fields [OF tx'(2)] and g = strip_sigs_eqD [OF tx'(2)]
  have "spends prev tx' outs"
    using sp f g(2) by (simp add: spends_def list_all2_conv_all_nth)
  moreover have "input_ok P height tx' i (Vin tx' ! i) (outs ! i)" if i: "i < length (Vin tx')" for i
  proof -
    have i': "i < length (Vin tx)" using i g(2) by simp
    then have "is_pubkey k (PubKey (Vin tx ! i))" using pk by simp
    moreover have "script_ok P height (Vin tx' ! i) (outs ! i)"
      using sc [rule_format, OF i'] unfolding script_ok_def f [OF i'] .
    moreover have "expected_pkh (Vin tx' ! i) (outs ! i) = expected_pkh (Vin tx ! i) (outs ! i)"
      unfolding expected_pkh_def f [OF i'] ..
    ultimately show ?thesis
      using sg [OF i'] unfolding input_ok_def sig_hash_strip [OF tx'(2)] f(3) [OF i']
      by (simp add: sig_by_def is_pubkey_def)
  qed
  ultimately have "Verify P prev height tx' = Ok True"
    unfolding Verify_True_iff using pos sum g(3) by auto
  with tx' show ?thesis by blast
qed

text \<open>
  With any key one can spend \<open>n\<close> copies of one plain output, as far as \<open>Verify\<close> is concerned.
\<close>

lemma spend_copies:
  assumes "ecdsa_ok P k" and "is_pubkey k pk" and "t \<noteq> []"
    and "prev (hex_encode t) = Some \<lparr>ID = t, Vin = ins, Vout = [owned]\<rparr>"
    and "ScriptType owned = ScriptTypeP2PKH" and "0 < n"
    and "\<forall>out \<in> set outs. 0 < sint (Value out)"
    and "sint (sum_list (map Value outs)) \<le> sint (sum_list (replicate n (Value owned)))"
  shows "\<exists>tx. Verify P prev height tx = Ok True \<and> \<not> IsCoinbase tx \<and> Vout tx = outs \<and>
    length (Vin tx) = n \<and>
    (\<forall>i < n. Txid (Vin tx ! i) = t \<and> Vout_in (Vin tx ! i) = 0 \<and> PubKey (Vin tx ! i) = pk)"
proof -
  define vin where "vin = \<lparr>Txid = t, Vout_in = 0, Signature = [], PubKey = pk, EscrowWitness = [], IsRefund = False\<rparr>"
  define tx where "tx = \<lparr>ID = t, Vin = replicate n vin, Vout = outs\<rparr>"
  have nc: "\<not> IsCoinbase tx" using assms(3,6) by (auto simp: tx_def vin_def IsCoinbase_def)
  have "spends prev tx (replicate n owned)"
    using assms(3,4) by (simp add: spends_def tx_def vin_def lookup_tx_def go_index_def list_all2_conv_all_nth)
  then obtain tx' where tx': "strip_sigs tx' = strip_sigs tx" "Verify P prev height tx' = Ok True"
    using Sign_Verify_aux [of P k tx prev "replicate n owned" height] assms(1,2,5,7,8) nc
    by (auto simp: tx_def vin_def script_ok_def)
  note f = strip_sigs_fields [OF tx'(1)] and g = strip_sigs_eqD(2,3) [OF tx'(1)]
  have "Vout tx' = outs" "length (Vin tx') = n" using g by (simp_all add: tx_def)
  moreover have "\<forall>i < n. Txid (Vin tx' ! i) = t \<and> Vout_in (Vin tx' ! i) = 0 \<and> PubKey (Vin tx' ! i) = pk"
    using f by (simp add: tx_def vin_def)
  ultimately show ?thesis using tx'(2) IsCoinbase_strip [OF tx'(1)] nc by blast
qed

section \<open>A concrete transaction\<close>

text \<open>
  A payment of 6 and 4 out of one output of 10, signed by the key of number 5. The output has
  the script type \<open>st\<close>, so the same data serve the plain, the escrow and the ZKCP case.
\<close>

definition sample_pk :: bytes where
  "sample_pk = replicate 31 0 @ [5] @ replicate 32 0"

definition sample_out :: "int64 \<Rightarrow> byte \<Rightarrow> TXOutput" where
  "sample_out v st = \<lparr>Value = v, PubKeyHash = HashPubKey sample_prims sample_pk, ScriptType = st,
     DataHashLock = sample_hash [42], TimeoutBlock = 7, BuyerPubKeyHash = HashPubKey sample_prims sample_pk\<rparr>"

definition sample_prev :: "byte \<Rightarrow> prevTXs" where
  "sample_prev st = [''01'' \<mapsto> \<lparr>ID = [1], Vin = [], Vout = [sample_out 10 st]\<rparr>]"

definition sample_in :: TXInput where
  "sample_in = \<lparr>Txid = [1], Vout_in = 0, Signature = [], PubKey = sample_pk,
     EscrowWitness = [42], IsRefund = False\<rparr>"

definition sample_tx :: Transaction where
  "sample_tx = \<lparr>ID = [2], Vin = [sample_in], Vout = [sample_out 6 0, sample_out 4 0]\<rparr>"

definition sample_signed :: "byte \<Rightarrow> Transaction" where
  "sample_signed st = snd (Sign sample_prims (sample_key 5) (\<lambda>_. 0) (sample_prev st) sample_tx)"

lemma is_pubkey_sample [simp]: "is_pubkey (sample_key 5) sample_pk"
  by code_simp

lemma sample_lookup [simp]:
  "lookup_tx (sample_prev st) [1] = \<lparr>ID = [1], Vin = [], Vout = [sample_out 10 st]\<rparr>"
  by (simp add: lookup_tx_def sample_prev_def hex_digit_def)

lemma sample_spends [simp]: "spends (sample_prev st) sample_tx [sample_out 10 st]"
  by (simp add: spends_def sample_tx_def sample_in_def go_index_def)

lemma sample_script [simp]: "script_ok sample_prims height sample_in (sample_out 10 st)"
  by (simp add: script_ok_def sample_in_def sample_out_def CanClaimEscrow_def CanClaimZKCP_def
      sample_prims_def)

lemma sample_not_coinbase [simp]: "\<not> IsCoinbase sample_tx"
  by (simp add: IsCoinbase_def sample_tx_def sample_in_def)

lemma sample_tx_sel [simp]: "Vin sample_tx = [sample_in]"
    "Vout sample_tx = [sample_out 6 0, sample_out 4 0]" "ID sample_tx = [2]"
    "PubKey sample_in = sample_pk" "IsRefund sample_in = False" "Value (sample_out v st) = v"
    "ScriptType (sample_out v st) = st"
  by (simp_all add: sample_tx_def sample_in_def sample_out_def)

lemma sample_sign_verify:
  "Sign sample_prims (sample_key 5) (\<lambda>_. 0) (sample_prev st) sample_tx = (Ok (), sample_signed st)"
  "strip_sigs (sample_signed st) = strip_sigs sample_tx"
  "Verify sample_prims (sample_prev st) height (sample_signed st) = Ok True"
proof -
  have "\<exists>tx'. Sign sample_prims (sample_key 5) (\<lambda>_. 0) (sample_prev st) sample_tx = (Ok (), tx') \<and>
      strip_sigs tx' = strip_sigs sample_tx \<and> Verify sample_prims (sample_prev st) h tx' = Ok True" for h
    by (rule Sign_Verify_aux [where outs = "[sample_out 10 st]"]) simp_all
  then show "Sign sample_prims (sample_key 5) (\<lambda>_. 0) (sample_prev st) sample_tx = (Ok (), sample_signed st)"
    "strip_sigs (sample_signed st) = strip_sigs sample_tx"
    "Verify sample_prims (sample_prev st) height (sample_signed st) = Ok True"
    unfolding sample_signed_def by (metis prod.sel(2))+
qed

lemma sample_signed_facts:
  "\<not> IsCoinbase (sample_signed st)" "spends (sample_prev st) (sample_signed st) [sample_out 10 st]"
  "Vout (sample_signed st) = [sample_out 6 0, sample_out 4 0]" "length (Vin (sample_signed st)) = 1"
  "Txid (Vin (sample_signed st) ! 0) = [1]" "Vout_in (Vin (sample_signed st) ! 0) = 0"
  "PubKey (Vin (sample_signed st) ! 0) = sample_pk" "EscrowWitness (Vin (sample_signed st) ! 0) = [42]"
  "IsRefund (Vin (sample_signed st) ! 0) = False"
proof -
  note st = sample_sign_verify(2) [of st]
  show "\<not> IsCoinbase (sample_signed st)" using IsCoinbase_strip [OF st] by simp
  show "Vout (sample_signed st) = [sample_out 6 0, sample_out 4 0]" "length (Vin (sample_signed st)) = 1"
    using strip_sigs_eqD(2,3) [OF st] by simp_all
  then show f: "Txid (Vin (sample_signed st) ! 0) = [1]" "Vout_in (Vin (sample_signed st) ! 0) = 0"
    "PubKey (Vin (sample_signed st) ! 0) = sample_pk" "EscrowWitness (Vin (sample_signed st) ! 0) = [42]"
    "IsRefund (Vin (sample_signed st) ! 0) = False"
    using strip_sigs_fields [OF st, of 0] by (simp_all add: sample_in_def)
  show "spends (sample_prev st) (sample_signed st) [sample_out 10 st]"
    using f \<open>length _ = 1\<close> by (simp add: spends_def list_all2_conv_all_nth go_index_def)
qed

section \<open>Properties\<close>

text \<open>
  C1. What \<open>Verify\<close> accepts: a coinbase, or a transaction each of whose inputs names an output
  of a known transaction, whose outputs are all strictly positive, whose inputs all carry a
  valid signature over the trimmed copy and meet the escrow conditions, and whose 64-bit output
  sum does not exceed its 64-bit input sum. It never returns an error and panics only when an
  input's index lies outside the outputs of the transaction it names.
\<close>

theorem Verify_spec:
  "(Verify P prev height tx = Ok True \<longleftrightarrow>
     IsCoinbase tx \<or>
     (\<exists>outs. spends prev tx outs \<and> list_all (\<lambda>out. 0 < sint (Value out)) (Vout tx) \<and>
        (\<forall>i < length (Vin tx). input_ok P height tx i (Vin tx ! i) (outs ! i)) \<and>
        sint (sum_list (map Value (Vout tx))) \<le> sint (sum_list (map Value outs))))
   \<and> (Verify P prev height tx = Ok True \<or> Verify P prev height tx = Ok False \<or>
      (\<exists>vin \<in> set (Vin tx). ID (lookup_tx prev (Txid vin)) \<noteq> [] \<and>
         \<not> (0 \<le> sint (Vout_in vin) \<and>
            sint (Vout_in vin) < int (length (Vout (lookup_tx prev (Txid vin)))))))"
  using Verify_True_iff [of P prev height tx] Verify_outcome [of P prev height tx]
  unfolding list_all_iff by blast

theorem Verify_spec_witness:
  "Verify sample_prims (sample_prev 0) 3 (sample_signed 0) = Ok True \<and>
   (\<exists>outs. spends (sample_prev 0) (sample_signed 0) outs)"
  using Verify_spec [of sample_prims "sample_prev 0" 3 "sample_signed 0"]
    sample_sign_verify(3) sample_signed_facts(1) by blast

text \<open>
  Value is conserved: when the values a verified transaction spends and creates do not
  overflow 64 bits, a transaction that is not a coinbase creates no more than it spends.
\<close>

theorem Verify_conserves_value:
  assumes "Verify P prev height tx = Ok True" and "\<not> IsCoinbase tx" and "spends prev tx outs"
    and "\<forall>out \<in> set outs. 0 \<le> sint (Value out)"
    and "(\<Sum>out\<leftarrow>outs. sint (Value out)) < 2 ^ 63"
    and "(\<Sum>out\<leftarrow>Vout tx. sint (Value out)) < 2 ^ 63"
  shows "(\<Sum>out\<leftarrow>Vout tx. sint (Value out)) \<le> (\<Sum>out\<leftarrow>outs. sint (Value out))"
proof -
  obtain outs' where v: "spends prev tx outs'" "\<forall>out \<in> set (Vout tx). 0 < sint (Value out)"
    "sint (sum_list (map Value (Vout tx))) \<le> sint (sum_list (map Value outs'))"
    using assms(1,2) unfolding Verify_True_iff by blast
  have "outs' = outs" using v(1) assms(3) by (rule spends_unique)
  then show ?thesis
    using v assms(4-6) sint_sum_list64 [of "map Value (Vout tx)"] sint_sum_list64 [of "map Value outs"]
    by (force simp: comp_def)
qed

theorem Verify_conserves_value_witness:
  "Verify sample_prims (sample_prev 0) 3 (sample_signed 0) = Ok True \<and>
   (\<Sum>out\<leftarrow>Vout (sample_signed 0). sint (Value out)) \<le> (\<Sum>out\<leftarrow>[sample_out 10 0]. sint (Value out))"
  using Verify_conserves_value [of sample_prims "sample_prev 0" 3 "sample_signed 0" "[sample_out 10 0]"]
  by (simp add: sample_sign_verify(3) sample_signed_facts)

text \<open>
  C3. An escrow or ZKCP output is spent only by one of the two parties: by the seller, who
  reveals a preimage of the hash lock, or, when the input is marked as a refund, by the buyer
  once the block height exceeds the timeout. Either way the input carries a signature of the
  key that hashes to that party.
\<close>

theorem Verify_escrow_safe:
  assumes "Verify P prev height tx = Ok True" and "\<not> IsCoinbase tx" and "i < length (Vin tx)"
    and "go_index (Vout (lookup_tx prev (Txid (Vin tx ! i)))) (Vout_in (Vin tx ! i)) = Ok out"
    and "ScriptType out = ScriptTypeEscrow \<or> ScriptType out = ScriptTypeZKCP"
  shows "(let vin = Vin tx ! i; party = HashPubKey P (PubKey vin) in
     (if IsRefund vin then sint (TimeoutBlock out) < sint height \<and> party = BuyerPubKeyHash out
      else sha256 P (EscrowWitness vin) = DataHashLock out \<and> party = PubKeyHash out) \<and>
     ecdsa_verify P (SetBytes (take 32 (PubKey vin)), SetBytes (drop 32 (PubKey vin)))
       (sig_hash P tx i (expected_pkh vin out))
       (SetBytes (take 32 (Signature vin)), SetBytes (drop 32 (Signature vin))))"
proof -
  obtain outs where "spends prev tx outs" "input_ok P height tx i (Vin tx ! i) (outs ! i)"
    using assms(1-3) unfolding Verify_True_iff by blast
  moreover from this have "outs ! i = out"
    using assms(3,4) by (simp add: spends_def list_all2_conv_all_nth)
  ultimately have "input_ok P height tx i (Vin tx ! i) out" by simp
  then show ?thesis using assms(5)
    by (auto simp: input_ok_def script_ok_def Let_def CanRefundEscrow_iff CanClaimEscrow_iff
        CanClaimZKCP_iff split: if_splits)
qed

theorem Verify_escrow_safe_witness:
  "sha256 sample_prims (EscrowWitness (Vin (sample_signed 1) ! 0)) = DataHashLock (sample_out 10 1)"
  using Verify_escrow_safe [of sample_prims "sample_prev 1" 3 "sample_signed 1" 0 "sample_out 10 1"]
  by (simp add: sample_sign_verify(3) sample_signed_facts go_index_def Let_def)

text \<open>
  C4. Signing and verifying fit together: when every input names an existing output, carries
  the public key of the signing key and meets the conditions of its script, and the outputs are
  positive and covered, then \<open>Sign\<close> succeeds and \<open>Verify\<close> accepts the result. On every branch,
  failures included, \<open>Sign\<close> changes nothing of the transaction but the signatures.
\<close>

theorem Sign_Verify:
  "strip_sigs (snd (Sign P k rnd prev tx)) = strip_sigs tx \<and>
   (ecdsa_ok P k \<and> \<not> IsCoinbase tx \<and> spends prev tx outs \<and>
     list_all (\<lambda>vin. is_pubkey k (PubKey vin)) (Vin tx) \<and>
     list_all2 (script_ok P height) (Vin tx) outs \<and>
     list_all (\<lambda>out. 0 < sint (Value out)) (Vout tx) \<and>
     sint (sum_list (map Value (Vout tx))) \<le> sint (sum_list (map Value outs)) \<longrightarrow>
     fst (Sign P k rnd prev tx) = Ok () \<and> Verify P prev height (snd (Sign P k rnd prev tx)) = Ok True)"
proof -
  have "strip_sigs (snd (Sign P k rnd prev tx)) = strip_sigs tx"
    by (simp add: Sign_def Let_def sign_loop_strip)
  then show ?thesis
    using Sign_Verify_aux [of P k tx prev outs height rnd]
    by (auto simp: list_all_iff list_all2_conv_all_nth)
qed

theorem Sign_Verify_witness:
  "Verify sample_prims (sample_prev 2) 3
     (snd (Sign sample_prims (sample_key 5) (\<lambda>_. 0) (sample_prev 2) sample_tx)) = Ok True"
  using Sign_Verify [of sample_prims "sample_key 5" "\<lambda>_. 0" "sample_prev 2" sample_tx "[sample_out 10 2]" 3]
  by simp

text \<open>
  A plain output can be spent with any key: \<open>Verify\<close> checks the signature of a plain input
  against the public key the input itself carries, and never compares the hash of that key
  with the key hash the output is locked to. Whoever owns the output, the key \<open>k\<close> of anyone
  signs a transaction that spends it and verifies.
\<close>

theorem Verify_any_key_spends:
  assumes "ecdsa_ok P k" and "is_pubkey k pk" and "t \<noteq> []" and "0 < sint (Value owned)"
    and "ScriptType owned = ScriptTypeP2PKH" and "PubKeyHash owned \<noteq> HashPubKey P pk"
    and "prev (hex_encode t) = Some \<lparr>ID = t, Vin = ins, Vout = [owned]\<rparr>"
  shows "\<exists>tx. Verify P prev height tx = Ok True \<and> Vin tx \<noteq> [] \<and> \<not> IsCoinbase tx \<and>
     Txid (Vin tx ! 0) = t \<and> Vout_in (Vin tx ! 0) = 0 \<and>
     \<not> IsLockedWithKey owned (HashPubKey P (PubKey (Vin tx ! 0)))"
proof -
  obtain tx where "Verify P prev height tx = Ok True" "\<not> IsCoinbase tx" "length (Vin tx) = 1"
    "\<forall>i < 1. Txid (Vin tx ! i) = t \<and> Vout_in (Vin tx ! i) = 0 \<and> PubKey (Vin tx ! i) = pk"
    using spend_copies [of P k pk t prev ins owned 1 "[owned]" height] assms by auto
  then show ?thesis using assms(6) by (auto simp: IsLockedWithKey_def)
qed

theorem Verify_any_key_spends_witness:
  "\<exists>tx. Verify sample_prims [''01'' \<mapsto> \<lparr>ID = [1], Vin = [], Vout = [(sample_out 10 0)\<lparr>PubKeyHash := []\<rparr>]\<rparr>] 3 tx
     = Ok True \<and> Vin tx \<noteq> [] \<and> \<not> IsCoinbase tx"
proof -
  have "HashPubKey sample_prims sample_pk \<noteq> []" 
    using length_HashPubKey [OF sample_ripemd160_ok, of sample_pk] by auto
  then show ?thesis
    using Verify_any_key_spends [of sample_prims "sample_key 5" sample_pk "[1]" "(sample_out 10 0)\<lparr>PubKeyHash := []\<rparr>"
        "[''01'' \<mapsto> \<lparr>ID = [1], Vin = [], Vout = [(sample_out 10 0)\<lparr>PubKeyHash := []\<rparr>]\<rparr>]" "[]" 3]
    by (auto simp: hex_digit_def)
qed

text \<open>
  The bounds in the conservation of value are needed, and so is that the inputs differ:
  \<open>Verify\<close> accepts outputs whose 64-bit sum wraps around (four outputs of \<open>2 ^ 62\<close> sum to 0), and
  it counts an output once for every input that names it.
\<close>

theorem Verify_inflation:
  assumes "ecdsa_ok P k" and "is_pubkey k pk" and "t \<noteq> []" and "0 < sint (Value owned)"
    and "sint (Value owned) < 2 ^ 62" and "ScriptType owned = ScriptTypeP2PKH"
    and "prev (hex_encode t) = Some \<lparr>ID = t, Vin = ins, Vout = [owned]\<rparr>"
  shows "(\<exists>tx. Verify P prev height tx = Ok True \<and> \<not> IsCoinbase tx \<and> length (Vin tx) = 1 \<and>
       (\<Sum>out\<leftarrow>Vout tx. sint (Value out)) = 2 ^ 64)
   \<and> (\<exists>tx. Verify P prev height tx = Ok True \<and> \<not> IsCoinbase tx \<and>
       map (\<lambda>vin. (Txid vin, Vout_in vin)) (Vin tx) = [(t, 0), (t, 0)] \<and>
       (\<Sum>out\<leftarrow>Vout tx. sint (Value out)) = 2 * sint (Value owned))"
proof
  let ?b = "owned\<lparr>Value := 2 ^ 62\<rparr>"
  have "\<exists>tx. Verify P prev height tx = Ok True \<and> \<not> IsCoinbase tx \<and> Vout tx = [?b, ?b, ?b, ?b] \<and>
      length (Vin tx) = 1 \<and>
      (\<forall>i < 1. Txid (Vin tx ! i) = t \<and> Vout_in (Vin tx ! i) = 0 \<and> PubKey (Vin tx ! i) = pk)"
    by (rule spend_copies [where k = k and prev = prev and ins = ins, OF assms(1-3,7,6)])
      (use assms(4) in simp_all)
  then show "\<exists>tx. Verify P prev height tx = Ok True \<and> \<not> IsCoinbase tx \<and> length (Vin tx) = 1 \<and>
       (\<Sum>out\<leftarrow>Vout tx. sint (Value out)) = 2 ^ 64" by auto
next
  have "\<exists>tx. Verify P prev height tx = Ok True \<and> \<not> IsCoinbase tx \<and> Vout tx = [owned, owned] \<and>
      length (Vin tx) = 2 \<and>
      (\<forall>i < 2. Txid (Vin tx ! i) = t \<and> Vout_in (Vin tx ! i) = 0 \<and> PubKey (Vin tx ! i) = pk)"
    by (rule spend_copies [where k = k and prev = prev and ins = ins, OF assms(1-3,7,6)])
      (use assms(4) in \<open>simp_all add: numeral_2_eq_2\<close>)
  then obtain tx where tx: "Verify P prev height tx = Ok True" "\<not> IsCoinbase tx" "length (Vin tx) = 2"
    "Vout tx = [owned, owned]"
    "\<forall>i < 2. Txid (Vin tx ! i) = t \<and> Vout_in (Vin tx ! i) = 0 \<and> PubKey (Vin tx ! i) = pk"
    by blast
  then have "map (\<lambda>vin. (Txid vin, Vout_in vin)) (Vin tx) = [(t, 0), (t, 0)]"
    by (intro nth_equalityI) (auto simp: less_Suc_eq numeral_2_eq_2)
  with tx show "\<exists>tx. Verify P prev height tx = Ok True \<and> \<not> IsCoinbase tx \<and>
       map (\<lambda>vin. (Txid vin, Vout_in vin)) (Vin tx) = [(t, 0), (t, 0)] \<and>
       (\<Sum>out\<leftarrow>Vout tx. sint (Value out)) = 2 * sint (Value owned)" by auto
qed

theorem Verify_inflation_witness:
  "\<exists>tx. Verify sample_prims (sample_prev 0) 3 tx = Ok True \<and> (\<Sum>out\<leftarrow>Vout tx. sint (Value out)) = 2 ^ 64"
  using Verify_inflation [of sample_prims "sample_key 5" sample_pk "[1]" "sample_out 10 0" "sample_prev 0" "[]" 3]
  by (auto simp: hex_digit_def sample_prev_def)

text \<open>
  A new coinbase pays the subsidy of 10 to the key hash of a well-formed address, is
  recognised as a coinbase, verifies, and carries its own hash as its id; a malformed address
  panics.
\<close>

theorem NewCoinbaseTX_spec:
  "(case address_hash to of
      Some h \<Rightarrow> \<exists>tx. NewCoinbaseTX P (Ok r) to data = Ok tx \<and> IsCoinbase tx \<and> ID tx = Hash_tx P tx \<and>
        map (\<lambda>out. (Value out, PubKeyHash out, ScriptType out)) (Vout tx) = [(10, h, ScriptTypeP2PKH)] \<and>
        Verify P prev height tx = Ok True
    | None \<Rightarrow> NewCoinbaseTX P (Ok r) to data = Panic ''NewTXOutput: invalid address'')
   \<and> NewCoinbaseTX P (Error e) to [] = Error (Wrap ''failed to generate random data'' e)"
  by (auto simp: NewCoinbaseTX_def NewTXOutput_eq subsidy_def Let_def IsCoinbase_def Hash_tx_def
      Verify_def split: option.split)

end
