(* ===== verification/Merkle.thy ===== *)
theory Merkle
  imports Types Instances
begin

text \<open>
  The Merkle tree of \<^verbatim>\<open>internal/core/merkle_tree.go\<close>. Nodes are built level by level; a level
  of odd length is first extended by a node whose data is the hash of the last node's data.
  The results: the construction always returns a tree, its root is the reference function
  \<open>merkle_root\<close> on the leaf hashes, equal roots over equally many leaves mean equal leaves as
  far as the hash is injective on the strings that were hashed, and the extension of an odd
  level does not separate a list from the list that spells the extension out.
\<close>

section \<open>Construction\<close>

datatype MerkleNode = MerkleNode (Left: "MerkleNode option") (Right: "MerkleNode option") (Data: bytes)

definition NewMerkleNode ::
    "Prims \<Rightarrow> MerkleNode option \<Rightarrow> MerkleNode option \<Rightarrow> bytes \<Rightarrow> MerkleNode result" where
  "NewMerkleNode P left right data =
     (case (left, right) of
        (None, None) \<Rightarrow> Ok (MerkleNode left right (sha256 P data))
      | (Some l, Some r) \<Rightarrow> Ok (MerkleNode left right (sha256 P (Data l @ Data r)))
      | _ \<Rightarrow> Panic ''invalid memory address or nil pointer dereference'')"

text \<open>The leaves: one node per datum.\<close>

fun merkle_leaves :: "Prims \<Rightarrow> bytes list \<Rightarrow> MerkleNode list result" where
  "merkle_leaves P [] = Ok []"
| "merkle_leaves P (d # ds) =
     bind_result (NewMerkleNode P None None d) (\<lambda>n.
     bind_result (merkle_leaves P ds) (\<lambda>ns. Ok (n # ns)))"

text \<open>The extra node of an odd level: its \<open>Data\<close> is overwritten with the rehash.\<close>

definition pad_level :: "Prims \<Rightarrow> MerkleNode list \<Rightarrow> MerkleNode list" where
  "pad_level P nodes =
     (if length nodes mod 2 \<noteq> 0
      then nodes @ [MerkleNode None None (sha256 P (Data (last nodes)))]
      else nodes)"

fun pair_level :: "Prims \<Rightarrow> MerkleNode list \<Rightarrow> MerkleNode list result" where
  "pair_level P [] = Ok []"
| "pair_level P [x] = Panic ''index out of range''"
| "pair_level P (x # y # rest) =
     bind_result (NewMerkleNode P (Some x) (Some y) []) (\<lambda>n.
     bind_result (pair_level P rest) (\<lambda>ns. Ok (n # ns)))"

lemma pair_level_length: "pair_level P ns = Ok ms \<Longrightarrow> length ms = length ns div 2"
  by (induction P ns arbitrary: ms rule: pair_level.induct) (auto simp: result_simps)

lemma length_pad_level: "length (pad_level P ns) = length ns + length ns mod 2"
  by (auto simp: pad_level_def)

function merkle_loop :: "Prims \<Rightarrow> MerkleNode list \<Rightarrow> MerkleNode list result" where
  "merkle_loop P nodes =
     (if length nodes > 1
      then (case pair_level P (pad_level P nodes) of
              Ok newLevel \<Rightarrow> merkle_loop P newLevel
            | r \<Rightarrow> as_failure r)
      else Ok nodes)"
  by pat_completeness auto
termination
proof (relation "measure (\<lambda>(P, nodes). length nodes)", goal_cases)
  case (2 P nodes newLevel)
  then show ?case
    using pair_level_length [of P "pad_level P nodes" newLevel]
    by (simp add: length_pad_level)
qed simp

declare merkle_loop.simps [simp del]

text \<open>The root node; \<open>None\<close> for nil, which the code returns on empty input.\<close>

definition NewMerkleTree :: "Prims \<Rightarrow> bytes list \<Rightarrow> MerkleNode option result" where
  "NewMerkleTree P data =
     (if data = [] then Ok None
      else bind_result (merkle_leaves P data) (\<lambda>nodes.
           bind_result (merkle_loop P nodes) (\<lambda>nodes.
           bind_result (go_index nodes 0) (\<lambda>n. Ok (Some n)))))"

section \<open>The reference: roots over lists of digests\<close>

definition pad_hashes :: "Prims \<Rightarrow> bytes list \<Rightarrow> bytes list" where
  "pad_hashes P hs = (if odd (length hs) then hs @ [sha256 P (last hs)] else hs)"

fun pair_hashes :: "Prims \<Rightarrow> bytes list \<Rightarrow> bytes list" where
  "pair_hashes P (a # b # hs) = sha256 P (a @ b) # pair_hashes P hs"
| "pair_hashes P _ = []"

lemma length_pair_hashes [simp]: "length (pair_hashes P hs) = length hs div 2"
  by (induction P hs rule: pair_hashes.induct) auto

lemma length_pad_hashes: "length (pad_hashes P hs) = length hs + length hs mod 2"
  by (auto simp: pad_hashes_def) presburger+

function merkle_root :: "Prims \<Rightarrow> bytes list \<Rightarrow> bytes" where
  "merkle_root P hs =
     (case hs of [] \<Rightarrow> [] | [h] \<Rightarrow> h | _ \<Rightarrow> merkle_root P (pair_hashes P (pad_hashes P hs)))"
  by pat_completeness auto
termination
  by (relation "measure (\<lambda>(P, hs). length hs)") (auto simp: length_pad_hashes)

declare merkle_root.simps [simp del]

lemma merkle_root_single [simp]: "merkle_root P [h] = h"
  by (simp add: merkle_root.simps)

lemma merkle_root_step:
  "length hs > 1 \<Longrightarrow> merkle_root P hs = merkle_root P (pair_hashes P (pad_hashes P hs))"
  by (subst merkle_root.simps) (auto split: list.splits)

section \<open>The construction computes the reference\<close>

lemma merkle_leaves_Ok:
  "\<exists>ns. merkle_leaves P ds = Ok ns \<and> map Data ns = map (sha256 P) ds"
  by (induction ds) (auto simp: NewMerkleNode_def)

lemma pair_level_Ok:
  "even (length ns) \<Longrightarrow> \<exists>ms. pair_level P ns = Ok ms \<and> map Data ms = pair_hashes P (map Data ns)"
  by (induction P ns rule: pair_level.induct) (auto simp: NewMerkleNode_def)

lemma map_Data_pad_level: "ns \<noteq> [] \<Longrightarrow> map Data (pad_level P ns) = pad_hashes P (map Data ns)"
  by (auto simp: pad_level_def pad_hashes_def last_map)

lemma merkle_loop_Ok:
  "ns \<noteq> [] \<Longrightarrow> \<exists>n. merkle_loop P ns = Ok [n] \<and> Data n = merkle_root P (map Data ns)"
proof (induction "length ns" arbitrary: ns rule: less_induct)
  case less
  show ?case
  proof (cases "length ns > 1")
    case True
    have "even (length (pad_level P ns))" by (simp add: length_pad_level)
    then obtain ms where ms: "pair_level P (pad_level P ns) = Ok ms"
        "map Data ms = pair_hashes P (pad_hashes P (map Data ns))"
      using pair_level_Ok map_Data_pad_level [OF less.prems] by metis
    have len: "length ms = (length ns + length ns mod 2) div 2"
      using pair_level_length [OF ms(1)] by (simp add: length_pad_level)
    then have "length ms < length ns" "ms \<noteq> []" using True by auto
    then obtain n where "merkle_loop P ms = Ok [n]" "Data n = merkle_root P (map Data ms)"
      using less.hyps by blast
    then show ?thesis
      using True ms by (subst merkle_loop.simps) (simp add: merkle_root_step)
  next
    case False
    then obtain n where "ns = [n]" using less.prems by (cases ns) auto
    then show ?thesis by (subst merkle_loop.simps) simp
  qed
qed

lemma NewMerkleTree_Ok:
  "data \<noteq> [] \<Longrightarrow> \<exists>n. NewMerkleTree P data = Ok (Some n) \<and> Data n = merkle_root P (map (sha256 P) data)"
proof -
  assume ne: "data \<noteq> []"
  obtain ns where ns: "merkle_leaves P data = Ok ns" "map Data ns = map (sha256 P) data"
    using merkle_leaves_Ok by blast
  then have "ns \<noteq> []" using ne by auto
  then obtain n where "merkle_loop P ns = Ok [n]" "Data n = merkle_root P (map Data ns)"
    using merkle_loop_Ok by blast
  then show ?thesis using ne ns by (simp add: NewMerkleTree_def go_index_def)
qed

section \<open>Binding\<close>

text \<open>Every string that is hashed above the leaves when the root of \<open>hs\<close> is computed.\<close>

fun pair_inputs :: "bytes list \<Rightarrow> bytes list" where
  "pair_inputs (a # b # hs) = (a @ b) # pair_inputs hs"
| "pair_inputs _ = []"

function merkle_inputs :: "Prims \<Rightarrow> bytes list \<Rightarrow> bytes list" where
  "merkle_inputs P hs =
     (case hs of [] \<Rightarrow> [] | [h] \<Rightarrow> []
      | _ \<Rightarrow> pair_inputs (pad_hashes P hs) @ merkle_inputs P (pair_hashes P (pad_hashes P hs)))"
  by pat_completeness auto
termination
  by (relation "measure (\<lambda>(P, hs). length hs)") (auto simp: length_pad_hashes)

declare merkle_inputs.simps [simp del]

lemma merkle_inputs_step:
  "length hs > 1 \<Longrightarrow>
     merkle_inputs P hs = pair_inputs (pad_hashes P hs) @ merkle_inputs P (pair_hashes P (pad_hashes P hs))"
  by (subst merkle_inputs.simps) (auto split: list.splits)

lemma pair_hashes_map: "pair_hashes P hs = map (sha256 P) (pair_inputs hs)"
  by (induction P hs rule: pair_hashes.induct) auto

lemma pair_inputs_inject:
  "even (length xs) \<Longrightarrow> length xs = length ys \<Longrightarrow> \<forall>x \<in> set xs. length x = n \<Longrightarrow>
     \<forall>y \<in> set ys. length y = n \<Longrightarrow> pair_inputs xs = pair_inputs ys \<Longrightarrow> xs = ys"
proof (induction xs arbitrary: ys rule: pair_inputs.induct)
  case (1 a b hs)
  obtain c d zs where ys: "ys = c # d # zs"
    using "1.prems"(2) by (cases ys; cases "tl ys") auto
  have "hs = zs" by (rule "1.IH") (use "1.prems" ys in simp_all)
  moreover have "a = c \<and> b = d" using "1.prems" ys by simp
  ultimately show ?case using ys by simp
qed auto

lemma pad_hashes_inject:
  assumes "length xs = length ys" and "pad_hashes P xs = pad_hashes P ys"
  shows "xs = ys"
proof -
  have "take (length xs) (pad_hashes P xs) = xs" "take (length ys) (pad_hashes P ys) = ys"
    by (simp_all add: pad_hashes_def)
  then show ?thesis using assms by metis
qed

lemma pad_hashes_lengths:
  "sha256_ok P \<Longrightarrow> \<forall>x \<in> set xs. length x = 32 \<Longrightarrow> \<forall>x \<in> set (pad_hashes P xs). length x = 32"
  by (simp add: pad_hashes_def sha256_ok_def)

lemma pair_hashes_lengths:
  "sha256_ok P \<Longrightarrow> \<forall>x \<in> set (pair_hashes P xs). length x = 32"
  by (auto simp: pair_hashes_map sha256_ok_def)

lemma merkle_root_inject:
  assumes sha: "sha256_ok P"
  shows "length xs = length ys \<Longrightarrow> xs \<noteq> [] \<Longrightarrow> \<forall>x \<in> set xs. length x = 32 \<Longrightarrow>
     \<forall>y \<in> set ys. length y = 32 \<Longrightarrow>
     inj_on (sha256 P) (set (merkle_inputs P xs) \<union> set (merkle_inputs P ys)) \<Longrightarrow>
     merkle_root P xs = merkle_root P ys \<Longrightarrow> xs = ys"
proof (induction "length xs" arbitrary: xs ys rule: less_induct)
  case less
  show ?case
  proof (cases "length xs > 1")
    case False
    then obtain x y where "xs = [x]" "ys = [y]"
      using less.prems(1,2) by (cases xs; cases ys) auto
    then show ?thesis using less.prems(6) by simp
  next
    case True
    then have True': "length ys > 1" using less.prems(1) by simp
    let ?xs = "pad_hashes P xs" and ?ys = "pad_hashes P ys"
    have inj: "inj_on (sha256 P) (set (pair_inputs ?xs) \<union> set (pair_inputs ?ys))"
      "inj_on (sha256 P) (set (merkle_inputs P (pair_hashes P ?xs)) \<union> set (merkle_inputs P (pair_hashes P ?ys)))"
      by (rule inj_on_subset [OF less.prems(5)],
          unfold merkle_inputs_step [OF True] merkle_inputs_step [OF True'] set_append, blast)+
    have len: "length (pair_hashes P ?xs) < length xs"
      "length (pair_hashes P ?xs) = length (pair_hashes P ?ys)"
      using True less.prems(1) by (simp_all add: length_pad_hashes)
    have "0 < length (pair_hashes P ?xs)" using True by (simp add: length_pad_hashes)
    then have ne: "pair_hashes P ?xs \<noteq> []" by blast
    have root: "merkle_root P (pair_hashes P ?xs) = merkle_root P (pair_hashes P ?ys)"
      using less.prems(6) unfolding merkle_root_step [OF True] merkle_root_step [OF True'] .
    have "pair_hashes P ?xs = pair_hashes P ?ys"
      by (rule less.hyps [OF len ne pair_hashes_lengths [OF sha] pair_hashes_lengths [OF sha] inj(2) root])
    then have "pair_inputs ?xs = pair_inputs ?ys"
      unfolding pair_hashes_map by (rule map_inj_on [OF _ inj(1)])
    from pair_inputs_inject [OF _ _ pad_hashes_lengths [OF sha less.prems(3)]
        pad_hashes_lengths [OF sha less.prems(4)] this]
    have "?xs = ?ys" using less.prems(1) by (simp add: length_pad_hashes)
    then show ?thesis by (rule pad_hashes_inject [OF less.prems(1)])
  qed
qed

section \<open>The extension of an odd level\<close>

text \<open>
  The leaf list that ends with the digest of its last datum has the same root as the odd list
  without it: the extra node equals the leaf of that digest.
\<close>

lemma merkle_root_odd:
  assumes "odd (length ds)" and "length ds > 1"
  shows "merkle_root P (map (sha256 P) (ds @ [sha256 P (last ds)])) = merkle_root P (map (sha256 P) ds)"
proof -
  let ?hs = "map (sha256 P) ds" and ?ks = "map (sha256 P) (ds @ [sha256 P (last ds)])"
  have ne: "ds \<noteq> []" using assms(2) by auto
  have "pad_hashes P ?hs = ?ks"
    using assms(1) ne by (simp add: pad_hashes_def last_map)
  moreover have "pad_hashes P ?ks = ?ks"
    using assms(1) by (simp add: pad_hashes_def)
  moreover have "length ?hs > 1" "length ?ks > 1" using assms(2) by auto
  ultimately show ?thesis
    using merkle_root_step [of ?hs P] merkle_root_step [of ?ks P] by presburger
qed

section \<open>Properties\<close>

text \<open>
  C34. The level-by-level construction returns a tree for every non-empty list of data, never
  panics, and its root is the reference root over the hashes of the data; an empty list gives nil.
\<close>

theorem NewMerkleTree_refines:
  "if data = [] then NewMerkleTree P data = Ok None
   else \<exists>n. NewMerkleTree P data = Ok (Some n) \<and> Data n = merkle_root P (map (sha256 P) data)"
  using NewMerkleTree_Ok [of data P] by (auto simp: NewMerkleTree_def)

text \<open>
  The root binds the data: two lists of the same length with the same root are equal,
  provided the hash has no collision among the strings that are hashed for the two trees.
\<close>

theorem merkle_binding:
  assumes "sha256_ok P" and "length xs = length ys" and "xs \<noteq> []"
    and "inj_on (sha256 P) (set xs \<union> set ys \<union> set (merkle_inputs P (map (sha256 P) xs))
           \<union> set (merkle_inputs P (map (sha256 P) ys)))"
    and "NewMerkleTree P xs = Ok (Some n)" and "NewMerkleTree P ys = Ok (Some m)" and "Data n = Data m"
  shows "xs = ys"
proof -
  have "merkle_root P (map (sha256 P) xs) = merkle_root P (map (sha256 P) ys)"
    using NewMerkleTree_Ok [of xs P] NewMerkleTree_Ok [of ys P] assms(2,3,5-7) by force
  then have "map (sha256 P) xs = map (sha256 P) ys"
    using assms(1-4)
    by (intro merkle_root_inject [OF assms(1)]) (auto simp: sha256_ok_def elim: inj_on_subset)
  moreover have "inj_on (sha256 P) (set xs \<union> set ys)" using assms(4) by (rule inj_on_subset) auto
  ultimately show ?thesis by (metis map_inj_on)
qed

definition sample_pick :: Prims where
  "sample_pick = sample_prims\<lparr>sha256 := (\<lambda>x. replicate 32 (if x = [1] then 1 else if x = [2] then 2 else 3))\<rparr>"

lemma sample_pick_ok: "sha256_ok sample_pick"
  by (auto simp: sha256_ok_def sample_pick_def)

lemma sample_pick_inputs:
  "merkle_inputs sample_pick (map (sha256 sample_pick) [[1], [2]]) = [replicate 32 1 @ replicate 32 2]"
proof -
  have "merkle_inputs sample_pick [h] = []" for h by (simp add: merkle_inputs.simps)
  then show ?thesis
    by (subst merkle_inputs_step) (simp_all add: pad_hashes_def, simp add: sample_pick_def)
qed

lemma sample_pick_inj: "inj_on (sha256 sample_pick) {[1], [2], replicate 32 1 @ replicate 32 2}"
proof -
  have "replicate 32 a @ replicate 32 b \<noteq> [x]" for x a b :: byte
  proof
    assume "replicate 32 a @ replicate 32 b = [x]"
    from arg_cong [OF this, of length] show False by simp
  qed
  then show ?thesis by (auto simp: sample_pick_def inj_on_def split: if_splits)
qed

theorem merkle_binding_witness:
  "\<exists>n. NewMerkleTree sample_pick [[1], [2]] = Ok (Some n) \<and> ([[1], [2]] :: bytes list) = [[1], [2]]"
proof -
  obtain n where n: "NewMerkleTree sample_pick [[1], [2]] = Ok (Some n)"
    using NewMerkleTree_Ok [of "[[1], [2]]" sample_pick] by auto
  have inj: "inj_on (sha256 sample_pick) (set [[1], [2]] \<union> set [[1], [2]] \<union>
       set (merkle_inputs sample_pick (map (sha256 sample_pick) [[1], [2]])) \<union>
       set (merkle_inputs sample_pick (map (sha256 sample_pick) [[1], [2]])))"
    unfolding sample_pick_inputs by (rule inj_on_subset [OF sample_pick_inj]) auto
  have "([[1], [2]] :: bytes list) = [[1], [2]]"
    by (rule merkle_binding [OF sample_pick_ok refl _ inj n n refl]) simp
  with n show ?thesis by blast
qed

text \<open>
  Padding an odd level with the hash of its last node does not keep lists of different
  lengths apart: an odd list of data and the list extended by the hash of its last datum have
  the same root, although the comment in the code says the padding prevents exactly this.
\<close>

theorem merkle_odd_collision:
  assumes "odd (length ds)" and "length ds > 1"
  shows "\<exists>n m. NewMerkleTree P ds = Ok (Some n) \<and> NewMerkleTree P (ds @ [sha256 P (last ds)]) = Ok (Some m) \<and>
     Data n = Data m \<and> ds \<noteq> ds @ [sha256 P (last ds)]"
proof -
  have "ds \<noteq> []" using assms(2) by auto
  then show ?thesis
    using NewMerkleTree_Ok [of ds P] NewMerkleTree_Ok [of "ds @ [sha256 P (last ds)]" P]
      merkle_root_odd [OF assms, of P] by auto
qed

theorem merkle_odd_collision_witness:
  "\<exists>n m. NewMerkleTree sample_prims [[1], [2], [3]] = Ok (Some n) \<and>
     NewMerkleTree sample_prims [[1], [2], [3], sha256 sample_prims [3]] = Ok (Some m) \<and> Data n = Data m"
  using merkle_odd_collision [of "[[1], [2], [3]]" sample_prims] by simp

end
