(* ===== verification/Block.thy ===== *)
theory Block
  imports Transaction Merkle
begin

text \<open>
  Blocks and the two ways to seal them: \<^verbatim>\<open>internal/core/block.go\<close>,
  \<^verbatim>\<open>internal/core/proofofwork.go\<close> and \<^verbatim>\<open>internal/core/poa.go\<close>. The clock is the argument
  \<open>now\<close>; a context is a function that tells whether it is done when the mining loop polls it
  at a given nonce; the package-level list of authority keys is passed and returned.
\<close>

section \<open>Serialisation and the transaction hash\<close>

definition HashTransactions :: "Prims \<Rightarrow> Block \<Rightarrow> bytes result" where
  "HashTransactions P b =
     (if Transactions b = [] then Ok []
      else if \<exists>tx \<in> set (Transactions b). Serialize_tx P tx = [] then Ok []
      else bind_result (NewMerkleTree P (map (Serialize_tx P) (Transactions b))) (\<lambda>mTree.
             case mTree of None \<Rightarrow> Ok [] | Some root \<Rightarrow> Ok (Data root)))"

definition Serialize :: "Prims \<Rightarrow> Block \<Rightarrow> bytes" where
  "Serialize P b = (case gob_block P b of None \<Rightarrow> [] | Some d \<Rightarrow> d)"

definition DeserializeBlock :: "Prims \<Rightarrow> bytes \<Rightarrow> Block result" where
  "DeserializeBlock P d =
     (if d = [] then Error (ErrMsg ''cannot deserialize empty block data'')
      else wrap_err ''failed to deserialize block'' (ungob_block P d))"

section \<open>Proof of work\<close>

definition maxNonce :: int where "maxNonce = 2 ^ 63 - 1"
definition targetBits :: int64 where "targetBits = 16"
definition difficultyAdjustmentInterval :: int64 where "difficultyAdjustmentInterval = 10"
definition targetBlockTimeSeconds :: int64 where "targetBlockTimeSeconds = 600"

record ProofOfWork =
  pow_block :: Block
  pow_target :: nat

text \<open>
  \<^verbatim>\<open>target.Lsh(target, uint(256-bits))\<close>: the subtraction and the conversion wrap, so a negative
  or huge difference becomes a shift that \<^verbatim>\<open>math/big\<close> cannot allocate, and panics.
\<close>

definition big_Lsh :: "nat \<Rightarrow> int64 \<Rightarrow> nat result" where
  "big_Lsh x n = (if unat n < 2 ^ 51 then Ok (x * 2 ^ unat n) else Panic ''makeslice: len out of range'')"

definition NewProofOfWork :: "Block \<Rightarrow> ProofOfWork result" where
  "NewProofOfWork b =
     (let bits = (if Bits b = 0 then targetBits else Bits b) in
      bind_result (big_Lsh 1 (256 - bits)) (\<lambda>target. Ok \<lparr>pow_block = b, pow_target = target\<rparr>))"

definition prepareData :: "ProofOfWork \<Rightarrow> int64 \<Rightarrow> bytes \<Rightarrow> bytes" where
  "prepareData pow nonce txHash =
     (let bits = (if Bits (pow_block pow) = 0 then targetBits else Bits (pow_block pow)) in
      concat [PrevBlockHash (pow_block pow), txHash, IntToHex (Timestamp (pow_block pow)),
              IntToHex bits, IntToHex nonce])"

type_synonym ctx = "int64 \<Rightarrow> bool"

definition Background :: ctx where "Background = (\<lambda>_. False)"

function run_loop ::
    "Prims \<Rightarrow> ctx \<Rightarrow> ProofOfWork \<Rightarrow> bytes \<Rightarrow> int64 \<Rightarrow> bytes \<Rightarrow> (int64 \<times> bytes) result" where
  "run_loop P ctx pow txHash nonce hash =
     (if sint nonce < maxNonce then
        if sint nonce mod 1000 = 0 \<and> ctx nonce then Error ContextCanceled
        else
          let hash = sha256 P (prepareData pow nonce txHash) in
          if SetBytes hash < pow_target pow then Ok (nonce, hash)
          else run_loop P ctx pow txHash (nonce + 1) hash
      else Ok (nonce, hash))"
  by pat_completeness auto

lemma sint_succ64: "sint (n :: int64) < maxNonce \<Longrightarrow> sint (n + 1) = sint n + 1"
  using sint_range64 [of n] by (subst sint_add64) (auto simp: maxNonce_def)

termination run_loop
  by (relation "measure (\<lambda>(P, ctx, pow, txHash, nonce, hash). nat (maxNonce - sint nonce))")
    (auto simp: sint_succ64)

declare run_loop.simps [simp del]

definition Run :: "Prims \<Rightarrow> ctx \<Rightarrow> ProofOfWork \<Rightarrow> (int64 \<times> bytes) result" where
  "Run P ctx pow =
     bind_result (HashTransactions P (pow_block pow)) (\<lambda>txHash.
       if txHash = [] then Error (ErrMsg ''failed to compute transaction hash'')
       else run_loop P ctx pow txHash 0 (replicate 32 0))"

definition Validate :: "Prims \<Rightarrow> ProofOfWork \<Rightarrow> bool result" where
  "Validate P pow =
     bind_result (HashTransactions P (pow_block pow)) (\<lambda>txHash.
       Ok (SetBytes (sha256 P (prepareData pow (Nonce (pow_block pow)) txHash)) < pow_target pow))"

definition NewBlock ::
    "Prims \<Rightarrow> ctx \<Rightarrow> int64 \<Rightarrow> Transaction list \<Rightarrow> bytes \<Rightarrow> int64 \<Rightarrow> int64 \<Rightarrow> Block result" where
  "NewBlock P ctx now transactions prevBlockHash height bits =
     (let bits = (if bits = 0 then targetBits else bits);
          block = \<lparr>Timestamp = now, Transactions = transactions, PrevBlockHash = prevBlockHash,
                   Hash = [], Nonce = 0, Height = height, Bits = bits,
                   AuthoritySignature = [], AuthorityPubKey = []\<rparr>
      in bind_result (NewProofOfWork block) (\<lambda>pow.
         bind_result (Run P ctx pow) (\<lambda>(nonce, hash).
           Ok (block\<lparr>Hash := hash, Nonce := nonce\<rparr>))))"

definition NewGenesisBlock :: "Prims \<Rightarrow> int64 \<Rightarrow> Transaction \<Rightarrow> Block result" where
  "NewGenesisBlock P now coinbase =
     (case NewBlock P Background now [coinbase] [] 0 targetBits of
        Error e \<Rightarrow> Panic ''failed to create genesis block''
      | r \<Rightarrow> r)"

text \<open>\<^verbatim>\<open>%\<close> and \<^verbatim>\<open>/\<close> on constants and non-negative operands, as they occur here, agree with
  \<open>mod\<close> and \<open>div\<close>; the comparison of \<^verbatim>\<open>Height % 10\<close> with 0 does not depend on the sign.\<close>

definition CalculateNewDifficulty :: "Block \<Rightarrow> Block \<Rightarrow> int64" where
  "CalculateNewDifficulty lastBlock anchorBlock =
     (if sint (Height lastBlock) mod sint difficultyAdjustmentInterval \<noteq> 0 then Bits lastBlock
      else
        let actualTime = Timestamp lastBlock - Timestamp anchorBlock;
            targetTime = difficultyAdjustmentInterval * targetBlockTimeSeconds;
            newBits = (if sint actualTime < sint targetTime div 2 then Bits lastBlock + 1
                       else if sint actualTime > sint (targetTime * 2) then Bits lastBlock - 1
                       else Bits lastBlock);
            newBits = (if sint newBits < 8 then 8 else newBits)
        in if sint newBits > 24 then 24 else newBits)"

section \<open>Proof of authority\<close>

type_synonym authorizedKeys = "bytes list"

fun AddAuthorizedKey :: "bytes \<Rightarrow> authorizedKeys \<Rightarrow> authorizedKeys" where
  "AddAuthorizedKey pubKey keys = (if pubKey \<in> set keys then keys else keys @ [pubKey])"

definition SetAuthorizedKeys :: "bytes list \<Rightarrow> authorizedKeys \<Rightarrow> authorizedKeys" where
  "SetAuthorizedKeys keys old = keys"

definition IsAuthorizedKey :: "authorizedKeys \<Rightarrow> bytes \<Rightarrow> bool" where
  "IsAuthorizedKey keys pubKey = (\<exists>key \<in> set keys. key = pubKey)"

definition SignHash :: "Prims \<Rightarrow> Block \<Rightarrow> bytes result" where
  "SignHash P b =
     bind_result (HashTransactions P b) (\<lambda>txHash.
       Ok (sha256 P (concat [PrevBlockHash b, txHash, IntToHex (Timestamp b),
                             IntToHex (Height b), IntToHex (Bits b)])))"

definition NewBlockPoA ::
    "Prims \<Rightarrow> int64 \<Rightarrow> nat \<Rightarrow> Transaction list \<Rightarrow> bytes \<Rightarrow> int64 \<Rightarrow> int64 \<Rightarrow> PrivateKey \<Rightarrow> Block result" where
  "NewBlockPoA P now rnd transactions prevBlockHash height bits authorityKey =
     (let bits = (if bits = 0 then targetBits else bits);
          block = \<lparr>Timestamp = now, Transactions = transactions, PrevBlockHash = prevBlockHash,
                   Hash = [], Nonce = 0, Height = height, Bits = bits,
                   AuthoritySignature = [], AuthorityPubKey = []\<rparr>
      in bind_result (FillBytes 32 (key_X authorityKey)) (\<lambda>xBytes.
         bind_result (FillBytes 32 (key_Y authorityKey)) (\<lambda>yBytes.
         let block = block\<lparr>AuthorityPubKey := xBytes @ yBytes\<rparr> in
         bind_result (SignHash P block) (\<lambda>signHash.
         let block = block\<lparr>Hash := signHash\<rparr> in
         bind_result (ecdsa_sign P authorityKey signHash rnd) (\<lambda>(r, s).
         bind_result (FillBytes 32 r) (\<lambda>rBytes.
         bind_result (FillBytes 32 s) (\<lambda>sBytes.
           Ok (block\<lparr>AuthoritySignature := rBytes @ sBytes\<rparr>))))))))"

definition VerifyPoABlock :: "Prims \<Rightarrow> authorizedKeys \<Rightarrow> Block \<Rightarrow> bool result" where
  "VerifyPoABlock P keys block =
     (if length (AuthoritySignature block) \<noteq> 64 \<or> length (AuthorityPubKey block) \<noteq> 64 then Ok False
      else if \<not> IsAuthorizedKey keys (AuthorityPubKey block) then Ok False
      else
        let x = SetBytes (take 32 (AuthorityPubKey block));
            y = SetBytes (drop 32 (AuthorityPubKey block));
            r = SetBytes (take 32 (AuthoritySignature block));
            s = SetBytes (drop 32 (AuthoritySignature block))
        in bind_result (SignHash P block) (\<lambda>signHash. Ok (ecdsa_verify P (x, y) signHash (r, s))))"

section \<open>Lemmas\<close>

text \<open>The transaction hash is always computed, and only depends on the transactions.\<close>

definition tx_root :: "Prims \<Rightarrow> Transaction list \<Rightarrow> bytes" where
  "tx_root P txs =
     (if txs = [] \<or> (\<exists>tx \<in> set txs. Serialize_tx P tx = []) then []
      else merkle_root P (map (\<lambda>tx. sha256 P (Serialize_tx P tx)) txs))"

lemma HashTransactions_eq [simp]: "HashTransactions P b = Ok (tx_root P (Transactions b))"
  using NewMerkleTree_Ok [of "map (Serialize_tx P) (Transactions b)" P]
  by (auto simp: HashTransactions_def tx_root_def comp_def)

lemma DeserializeBlock_Serialize:
  assumes "gob_ok P"
  shows "Serialize P b \<noteq> []" and "DeserializeBlock P (Serialize P b) = Ok b"
proof -
  obtain d where "gob_block P b = Some d" "d \<noteq> []" "ungob_block P d = Ok b"
    using gob_ok_block [OF assms] .
  then show "Serialize P b \<noteq> []" "DeserializeBlock P (Serialize P b) = Ok b"
    by (simp_all add: Serialize_def DeserializeBlock_def)
qed

lemma length_merkle_root:
  "hs \<noteq> [] \<Longrightarrow> sha256_ok P \<Longrightarrow> list_all (\<lambda>h. length h = 32) hs \<Longrightarrow> length (merkle_root P hs) = 32"
proof (induction "length hs" arbitrary: hs rule: less_induct)
  case less
  show ?case
  proof (cases "length hs > 1")
    case True
    let ?n = "pair_hashes P (pad_hashes P hs)"
    have l: "length ?n = (length hs + length hs mod 2) div 2" by (simp add: length_pad_hashes)
    have "list_all (\<lambda>h. length h = 32) (pair_hashes P xs)" for xs
      using less.prems(2) by (induction P xs rule: pair_hashes.induct) (auto simp: sha256_ok_def)
    moreover have "?n \<noteq> []" "length ?n < length hs" using True l by (auto simp flip: length_0_conv)
    ultimately show ?thesis using less.hyps less.prems(2) True by (simp add: merkle_root_step)
  next
    case False
    then obtain h where "hs = [h]" using less.prems(1) by (cases hs) auto
    then show ?thesis using less.prems by simp
  qed
qed

lemma tx_root_nonempty:
  assumes "txs \<noteq> []" and "gob_ok P" and "sha256_ok P"
  shows "tx_root P txs \<noteq> []"
proof -
  have "Serialize_tx P tx \<noteq> []" for tx
    using gob_ok_tx [OF assms(2), of tx] by (metis Serialize_tx_def option.simps(5))
  moreover have "length (merkle_root P (map (\<lambda>tx. sha256 P (Serialize_tx P tx)) txs)) = 32"
    using assms by (intro length_merkle_root) (auto simp: list_all_iff sha256_ok_def)
  ultimately show ?thesis using assms(1) by (auto simp: tx_root_def)
qed

text \<open>The difficulty of a block, and the number its nonce has to bring below the target.\<close>

definition eff_bits :: "Block \<Rightarrow> int64" where
  "eff_bits b = (if Bits b = 0 then targetBits else Bits b)"

lemma eff_bits_upd [simp]:
  "eff_bits (b\<lparr>Height := h\<rparr>) = eff_bits b" "eff_bits (b\<lparr>Hash := x\<rparr>) = eff_bits b"
  "eff_bits (b\<lparr>Nonce := n\<rparr>) = eff_bits b"
  by (simp_all add: eff_bits_def)

definition pow_hash :: "Prims \<Rightarrow> Block \<Rightarrow> int64 \<Rightarrow> bytes" where
  "pow_hash P b n =
     sha256 P (PrevBlockHash b @ tx_root P (Transactions b) @ IntToHex (Timestamp b) @
               IntToHex (eff_bits b) @ IntToHex n)"

lemma prepareData_eq:
  "pow_block pow = b \<Longrightarrow> sha256 P (prepareData pow n (tx_root P (Transactions b))) = pow_hash P b n"
  by (simp add: prepareData_def pow_hash_def Let_def eff_bits_def)

lemma NewProofOfWork_eq:
  "NewProofOfWork b =
     (if unat (256 - eff_bits b) < 2 ^ 51
      then Ok \<lparr>pow_block = b, pow_target = 2 ^ unat (256 - eff_bits b)\<rparr>
      else Panic ''makeslice: len out of range'')"
  by (simp add: NewProofOfWork_def big_Lsh_def Let_def eff_bits_def)

lemma run_loop_sound:
  assumes "run_loop P ctx pow txHash n h = Ok (n', h')" and "sint n' < maxNonce"
  shows "h' = sha256 P (prepareData pow n' txHash) \<and> SetBytes h' < pow_target pow \<and> sint n \<le> sint n' \<and>
    (\<forall>m. sint n \<le> sint m \<and> sint m < sint n' \<longrightarrow> \<not> SetBytes (sha256 P (prepareData pow m txHash)) < pow_target pow)"
  using assms
proof (induction P ctx pow txHash n h rule: run_loop.induct)
  case (1 P ctx pow txHash n h)
  have lt: "sint n < maxNonce" using "1.prems" by (subst (asm) run_loop.simps) (auto split: if_splits)
  let ?h = "sha256 P (prepareData pow n txHash)"
  have nc: "\<not> (sint n mod 1000 = 0 \<and> ctx n)"
    using "1.prems"(1) lt by (subst (asm) run_loop.simps) (auto split: if_splits)
  show ?case
  proof (cases "SetBytes ?h < pow_target pow")
    case True
    then have "n' = n \<and> h' = ?h"
      using "1.prems"(1) lt nc by (subst (asm) run_loop.simps) (auto split: if_splits simp: Let_def)
    then show ?thesis using True by auto
  next
    case False
    have "run_loop P ctx pow txHash (n + 1) ?h = Ok (n', h')"
      using "1.prems"(1) lt nc False by (subst (asm) run_loop.simps) (simp add: Let_def)
    from "1.IH" [OF lt nc refl False this "1.prems"(2)]
    have IH: "h' = sha256 P (prepareData pow n' txHash)" "SetBytes h' < pow_target pow" "sint n + 1 \<le> sint n'"
      "\<And>m. sint n + 1 \<le> sint m \<Longrightarrow> sint m < sint n' \<Longrightarrow>
         \<not> SetBytes (sha256 P (prepareData pow m txHash)) < pow_target pow"
      by (auto simp: sint_succ64 [OF lt])
    have "\<not> SetBytes (sha256 P (prepareData pow m txHash)) < pow_target pow"
      if "sint n \<le> sint m" "sint m < sint n'" for m
      using that False IH(4) signed_word_eqI [of m n] by (cases "sint m = sint n") auto
    with IH(1-3) show ?thesis by auto
  qed
qed

text \<open>The loop finds a nonce when there is one and nobody cancels.\<close>

lemma run_loop_complete:
  assumes "\<forall>n. \<not> ctx n" and "sint n \<le> sint m" and "sint m < maxNonce"
    and "SetBytes (sha256 P (prepareData pow m txHash)) < pow_target pow"
  shows "\<exists>n' h'. run_loop P ctx pow txHash n h = Ok (n', h') \<and> sint n' < maxNonce"
  using assms
proof (induction P ctx pow txHash n h rule: run_loop.induct)
  case (1 P ctx pow txHash n h)
  let ?h = "sha256 P (prepareData pow n txHash)"
  have lt: "sint n < maxNonce" using "1.prems"(2,3) by simp
  have nc: "\<not> (sint n mod 1000 = 0 \<and> ctx n)" using "1.prems"(1) by simp
  show ?case
  proof (cases "SetBytes ?h < pow_target pow")
    case True
    then show ?thesis using lt nc by (subst run_loop.simps) (auto simp: Let_def)
  next
    case False
    then have "m \<noteq> n" using "1.prems"(4) by auto
    then have "sint n \<noteq> sint m" using signed_word_eqI by metis
    then have "sint (n + 1) \<le> sint m" using "1.prems"(2) by (simp add: sint_succ64 [OF lt])
    then show ?thesis
      using "1.IH" [OF lt nc refl False "1.prems"(1) _ "1.prems"(3,4)] lt nc False
      by (subst run_loop.simps) (simp add: Let_def)
  qed
qed

lemma run_loop_Ok:
  assumes "run_loop P ctx pow txHash n h = Ok (n', h')" and "sha256_ok P" and "length h = 32"
  shows "length h' = 32"
  using assms
proof (induction P ctx pow txHash n h rule: run_loop.induct)
  case (1 P ctx pow txHash n h)
  from "1.prems"(1) show ?case
    apply (subst (asm) run_loop.simps)
    using "1.IH" "1.prems"(2,3) by (auto simp: Let_def sha256_ok_def split: if_splits)
qed

lemma NewBlock_OkD:
  assumes "NewBlock P ctx now txs prev height bits = Ok b"
  shows "Timestamp b = now" "Transactions b = txs" "PrevBlockHash b = prev" "Height b = height"
    "Bits b = (if bits = 0 then targetBits else bits)" "AuthoritySignature b = []" "AuthorityPubKey b = []"
    "sha256_ok P \<Longrightarrow> length (Hash b) = 32" "tx_root P txs \<noteq> []"
    "NewProofOfWork b = Ok \<lparr>pow_block = b, pow_target = 2 ^ unat (256 - eff_bits b)\<rparr>"
    "sint (Nonce b) < maxNonce \<Longrightarrow> Hash b = pow_hash P b (Nonce b) \<and>
       SetBytes (Hash b) < 2 ^ unat (256 - eff_bits b) \<and> 0 \<le> sint (Nonce b) \<and>
       (\<forall>m. 0 \<le> sint m \<and> sint m < sint (Nonce b) \<longrightarrow>
          \<not> SetBytes (pow_hash P b m) < 2 ^ unat (256 - eff_bits b))"
proof -
  define b0 where "b0 = \<lparr>Timestamp = now, Transactions = txs, PrevBlockHash = prev,
      Hash = [], Nonce = 0, Height = height, Bits = (if bits = 0 then targetBits else bits),
      AuthoritySignature = [], AuthorityPubKey = []\<rparr>"
  define pow where "pow = \<lparr>pow_block = b0, pow_target = 2 ^ unat (256 - eff_bits b0)\<rparr>"
  have "bind_result (NewProofOfWork b0) (\<lambda>pow. bind_result (Run P ctx pow)
      (\<lambda>(nonce, hash). Ok (b0\<lparr>Hash := hash, Nonce := nonce\<rparr>))) = Ok b"
    using assms unfolding NewBlock_def b0_def by (simp add: Let_def)
  then obtain n h where pw: "NewProofOfWork b0 = Ok pow" "Run P ctx pow = Ok (n, h)"
    and b: "b = b0\<lparr>Hash := h, Nonce := n\<rparr>"
    by (auto simp: bind_result_eq_Ok NewProofOfWork_eq pow_def split: if_splits)
  have run: "tx_root P txs \<noteq> []" "run_loop P ctx pow (tx_root P txs) 0 (replicate 32 0) = Ok (n, h)"
    using pw(2) by (auto simp: Run_def pow_def b0_def split: if_splits)
  show "Timestamp b = now" "Transactions b = txs" "PrevBlockHash b = prev" "Height b = height"
    "Bits b = (if bits = 0 then targetBits else bits)" "AuthoritySignature b = []" "AuthorityPubKey b = []"
    "tx_root P txs \<noteq> []"
    using run(1) by (simp_all add: b b0_def)
  show "sha256_ok P \<Longrightarrow> length (Hash b) = 32"
    using run_loop_Ok [OF run(2)] by (simp add: b)
  show "NewProofOfWork b = Ok \<lparr>pow_block = b, pow_target = 2 ^ unat (256 - eff_bits b)\<rparr>"
    using pw(1) by (simp add: NewProofOfWork_eq b split: if_splits)
  have tr: "tx_root P txs = tx_root P (Transactions b0)" by (simp add: b0_def)
  have eb: "eff_bits b = eff_bits b0" by (simp add: b)
  have hash: "sha256 P (prepareData pow m (tx_root P txs)) = pow_hash P b m" for m
    unfolding tr by (subst prepareData_eq) (simp_all add: pow_def b pow_hash_def)
  show "sint (Nonce b) < maxNonce \<Longrightarrow> Hash b = pow_hash P b (Nonce b) \<and>
       SetBytes (Hash b) < 2 ^ unat (256 - eff_bits b) \<and> 0 \<le> sint (Nonce b) \<and>
       (\<forall>m. 0 \<le> sint m \<and> sint m < sint (Nonce b) \<longrightarrow>
          \<not> SetBytes (pow_hash P b m) < 2 ^ unat (256 - eff_bits b))"
    using run_loop_sound [OF run(2)] unfolding hash eb by (simp add: b pow_def)
qed

lemma Validate_eq:
  "pow_block pow = b \<Longrightarrow>
     Validate P pow = Ok (SetBytes (pow_hash P b (Nonce b)) < pow_target pow)"
  by (simp add: Validate_def prepareData_eq)

text \<open>What a node checks of a block without authority signature.\<close>

definition pow_valid :: "Prims \<Rightarrow> Block \<Rightarrow> bool" where
  "pow_valid P b \<longleftrightarrow> SetBytes (pow_hash P b (Nonce b)) < 2 ^ unat (256 - eff_bits b)"

lemma Validate_NewProofOfWork:
  "bind_result (NewProofOfWork b) (Validate P) =
     (if unat (256 - eff_bits b) < 2 ^ 51 then Ok (pow_valid P b) else Panic ''makeslice: len out of range'')"
  by (simp add: NewProofOfWork_eq Validate_eq pow_valid_def)

text \<open>Bits that \<open>CalculateNewDifficulty\<close> adjusts stay within 8 and 24 and move by one step.\<close>

lemma CalculateNewDifficulty_cases:
  assumes "sint (Height l) mod 10 = 0"
  shows "sint (CalculateNewDifficulty l a) =
    min 24 (max 8 (sint (if sint (Timestamp l - Timestamp a) < 3000 then Bits l + 1
                         else if sint (Timestamp l - Timestamp a) > 12000 then Bits l - 1 else Bits l)))"
  using assms
  by (simp add: CalculateNewDifficulty_def difficultyAdjustmentInterval_def targetBlockTimeSeconds_def
      Let_def min_def max_def)

lemma unat_256_minus:
  assumes "0 < sint bits" and "sint bits \<le> 256"
  shows "unat (256 - bits :: int64) = nat (256 - sint bits)"
proof -
  have "256 - bits = word_of_int (256 - sint bits)" by simp
  then have "unat (256 - bits) = unat (word_of_int (256 - sint bits) :: int64)" by (rule arg_cong)
  also have "\<dots> = nat (256 - sint bits)"
    by (subst unsigned_of_int) (use assms in \<open>simp add: take_bit_int_eq_self\<close>)
  finally show ?thesis .
qed

lemma NewBlock_complete:
  assumes "\<forall>n. \<not> ctx n" and "tx_root P txs \<noteq> []" and "0 < sint bits" and "sint bits \<le> 256"
    and "0 \<le> sint n" and "sint n < maxNonce"
    and "SetBytes (sha256 P (prev @ tx_root P txs @ IntToHex now @ IntToHex bits @ IntToHex n))
      < 2 ^ unat (256 - bits)"
  shows "\<exists>b. NewBlock P ctx now txs prev height bits = Ok b \<and> sint (Nonce b) < maxNonce"
proof -
  define b0 where "b0 = \<lparr>Timestamp = now, Transactions = txs, PrevBlockHash = prev,
      Hash = [], Nonce = 0, Height = height, Bits = bits, AuthoritySignature = [], AuthorityPubKey = []\<rparr>"
  define pow where "pow = \<lparr>pow_block = b0, pow_target = 2 ^ unat (256 - bits)\<rparr>"
  have nz: "bits \<noteq> 0" using assms(3) by auto
  have "unat (256 - bits) < 2 ^ 51" using unat_256_minus [OF assms(3,4)] assms(3) by (simp add: nat_less_iff)
  then have pw: "NewProofOfWork b0 = Ok pow" using nz by (simp add: NewProofOfWork_eq b0_def pow_def eff_bits_def)
  have "SetBytes (sha256 P (prepareData pow n (tx_root P txs))) < pow_target pow"
    using assms(7) nz by (simp add: prepareData_def pow_def b0_def Let_def)
  then obtain n' h' where "run_loop P ctx pow (tx_root P txs) 0 (replicate 32 0) = Ok (n', h')" "sint n' < maxNonce"
    using run_loop_complete [of ctx 0 n P pow "tx_root P txs" "replicate 32 0"] assms(1,5,6) by auto
  then have "Run P ctx pow = Ok (n', h')"
    using assms(2) by (simp add: Run_def pow_def b0_def)
  then have "NewBlock P ctx now txs prev height bits = Ok (b0\<lparr>Hash := h', Nonce := n'\<rparr>)"
    using pw nz by (simp add: NewBlock_def Let_def b0_def)
  then show ?thesis using \<open>sint n' < maxNonce\<close> by auto
qed

text \<open>The blocks that the sample routines mine.\<close>

lemma sample_hash_small: "SetBytes (sample_hash x) < 2 ^ 240"
proof -
  have "SetBytes (sample_hash x) < 256"
    unfolding sample_hash_def SetBytes_zeros using SetBytes_snoc [of "[]"] unat_less_256 by simp
  then show ?thesis by simp
qed

lemma sample_tx_root: "txs \<noteq> [] \<Longrightarrow> tx_root sample_prims txs \<noteq> []"
  by (simp add: tx_root_nonempty)

lemma sample_NewBlock:
  assumes "txs \<noteq> []" and "\<forall>n. \<not> ctx n" and "0 < sint bits" and "sint bits \<le> 16"
  shows "\<exists>b. NewBlock sample_prims ctx now txs prev height bits = Ok b \<and> sint (Nonce b) < maxNonce"
proof (rule NewBlock_complete [OF assms(2) sample_tx_root [OF assms(1)] assms(3), of 0])
  have "240 \<le> unat (256 - bits)" using assms(3,4) by (simp add: unat_256_minus)
  then have "(2 :: nat) ^ 240 \<le> 2 ^ unat (256 - bits)" by (rule power_increasing) simp
  then show "SetBytes (sha256 sample_prims (prev @ tx_root sample_prims txs @ IntToHex now @ IntToHex bits @ IntToHex 0))
      < 2 ^ unat (256 - bits)"
    using sample_hash_small order_less_le_trans by (simp add: sample_prims_def) blast
qed (use assms in \<open>simp_all add: maxNonce_def\<close>)

section \<open>Properties\<close>

text \<open>
  C17. A mined block carries proof of work: when mining returns before the nonces are used up,
  the hash of the block is the hash of its header at its nonce, it lies below the target of its
  difficulty, no smaller nonce would do, and \<open>Validate\<close> accepts the block. The block has the
  transactions, the predecessor and the height it was asked to have.
\<close>

theorem NewBlock_pow:
  assumes "NewBlock P ctx now txs prev height bits = Ok b" and "sint (Nonce b) < maxNonce"
  shows "Hash b = pow_hash P b (Nonce b)
    \<and> SetBytes (Hash b) < 2 ^ unat (256 - (if bits = 0 then 16 else bits))
    \<and> (\<forall>m. 0 \<le> sint m \<and> sint m < sint (Nonce b) \<longrightarrow>
          2 ^ unat (256 - (if bits = 0 then 16 else bits)) \<le> SetBytes (pow_hash P b m))
    \<and> bind_result (NewProofOfWork b) (Validate P) = Ok True
    \<and> (Transactions b, PrevBlockHash b, Height b, Timestamp b) = (txs, prev, height, now)"
proof -
  note d = NewBlock_OkD [OF assms(1)]
  have bits: "eff_bits b = (if bits = 0 then 16 else bits)" by (simp add: d(5) targetBits_def eff_bits_def)
  show ?thesis
    using d(11) [OF assms(2)] d(1-4)
    unfolding bits d(10) by (auto simp: Validate_eq not_less bits)
qed

theorem NewBlock_pow_witness:
  "\<exists>b. NewBlock sample_prims Background 0 [sample_tx] [] 1 1 = Ok b \<and>
     bind_result (NewProofOfWork b) (Validate sample_prims) = Ok True"
proof -
  obtain b where b: "NewBlock sample_prims Background 0 [sample_tx] [] 1 1 = Ok b" "sint (Nonce b) < maxNonce"
    using sample_NewBlock [of "[sample_tx]" Background 1 0 "[]" 1] by (auto simp: Background_def)
  from NewBlock_pow [OF b] have "bind_result (NewProofOfWork b) (Validate sample_prims) = Ok True"
    by (elim conjE)
  with b(1) show ?thesis by (intro exI conjI)
qed

text \<open>
  Mining returns: when nobody cancels and some nonce below the maximum brings the hash
  below the target, \<open>NewBlock\<close> returns a block whose nonce is at most that one, and the block
  validates.
\<close>

theorem NewBlock_returns:
  assumes "\<forall>n. \<not> ctx n" and "tx_root P txs \<noteq> []" and "0 < sint bits" and "sint bits \<le> 256"
    and "0 \<le> sint n" and "sint n < maxNonce"
    and "SetBytes (sha256 P (prev @ tx_root P txs @ IntToHex now @ IntToHex bits @ IntToHex n))
      < 2 ^ unat (256 - bits)"
  shows "\<exists>b. NewBlock P ctx now txs prev height bits = Ok b \<and> sint (Nonce b) \<le> sint n \<and>
    bind_result (NewProofOfWork b) (Validate P) = Ok True"
proof -
  obtain b where b: "NewBlock P ctx now txs prev height bits = Ok b" "sint (Nonce b) < maxNonce"
    using NewBlock_complete [OF assms] by blast
  note d = NewBlock_OkD [OF b(1)]
  have nz: "bits \<noteq> 0" using assms(3) by auto
  have "SetBytes (pow_hash P b n) < 2 ^ unat (256 - eff_bits b)"
    using assms(7) nz by (simp add: pow_hash_def d eff_bits_def)
  then have "sint (Nonce b) \<le> sint n" using d(11) [OF b(2)] assms(5) not_less by blast
  moreover have "bind_result (NewProofOfWork b) (Validate P) = Ok True"
    using d(11) [OF b(2)] unfolding d(10) by (auto simp: Validate_eq)
  ultimately show ?thesis using b(1) by blast
qed

theorem NewBlock_returns_witness:
  "\<exists>b. NewBlock sample_prims Background 0 [sample_tx] [] 1 16 = Ok b \<and> sint (Nonce b) \<le> 0"
proof -
  have "SetBytes (sample_hash x) < 2 ^ 240" for x by (rule sample_hash_small)
  then show ?thesis
    using NewBlock_returns [of Background sample_prims "[sample_tx]" 16 0 "[]" 0 1] sample_tx_root [of "[sample_tx]"]
    by (auto simp: Background_def maxNonce_def sample_prims_def)
qed

text \<open>
  The header that is hashed does not contain the height, nor the stored hash: whoever
  changes the height of a valid block, or the hash it is filed under, has a valid block again.
  The choice of the longest chain in \<open>AddBlock\<close> compares exactly this height.
\<close>

theorem Validate_ignores_height:
  "bind_result (NewProofOfWork (b\<lparr>Height := h, Hash := x\<rparr>)) (Validate P) =
   bind_result (NewProofOfWork b) (Validate P)"
  by (simp add: Validate_NewProofOfWork pow_valid_def pow_hash_def)

text \<open>
  Difficulty: at a height that is not a multiple of ten the bits are kept. At such a
  multiple the new bits lie between 8 and 24; from bits in that range they move by at most one:
  up when the last blocks took less than 3000 seconds, down when they took more than 12000.
\<close>

theorem CalculateNewDifficulty_bounds:
  "(if sint (Height l) mod 10 \<noteq> 0 then CalculateNewDifficulty l a = Bits l
    else 8 \<le> sint (CalculateNewDifficulty l a) \<and> sint (CalculateNewDifficulty l a) \<le> 24 \<and>
      (8 \<le> sint (Bits l) \<and> sint (Bits l) \<le> 24 \<longrightarrow>
        sint (CalculateNewDifficulty l a) =
          (if sint (Timestamp l - Timestamp a) < 3000 then min 24 (sint (Bits l) + 1)
           else if sint (Timestamp l - Timestamp a) > 12000 then max 8 (sint (Bits l) - 1)
           else sint (Bits l))))"
proof (cases "sint (Height l) mod 10 = 0")
  case True
  have "sint (Bits l + 1) = sint (Bits l) + 1" "sint (Bits l - 1) = sint (Bits l) - 1"
    if "8 \<le> sint (Bits l)" "sint (Bits l) \<le> 24"
    using that by (simp_all add: sint_add64 sint_sub64)
  then show ?thesis using True by (auto simp: CalculateNewDifficulty_cases)
next
  case False
  then show ?thesis by (simp add: CalculateNewDifficulty_def difficultyAdjustmentInterval_def)
qed

theorem CalculateNewDifficulty_bounds_witness:
  "sint (CalculateNewDifficulty
     \<lparr>Timestamp = 2999, Transactions = [], PrevBlockHash = [], Hash = [], Nonce = 0,
      Height = 10, Bits = 16, AuthoritySignature = [], AuthorityPubKey = []\<rparr>
     \<lparr>Timestamp = 0, Transactions = [], PrevBlockHash = [], Hash = [], Nonce = 0,
      Height = 0, Bits = 16, AuthoritySignature = [], AuthorityPubKey = []\<rparr>) = 17"
  using CalculateNewDifficulty_bounds [of
     "\<lparr>Timestamp = 2999, Transactions = [], PrevBlockHash = [], Hash = [], Nonce = 0,
       Height = 10, Bits = 16, AuthoritySignature = [], AuthorityPubKey = []\<rparr>"
     "\<lparr>Timestamp = 0, Transactions = [], PrevBlockHash = [], Hash = [], Nonce = 0,
       Height = 0, Bits = 16, AuthoritySignature = [], AuthorityPubKey = []\<rparr>"]
  by simp

text \<open>
  Proof of authority, complete: a block made with a working key verifies as soon as the
  list of authority keys contains the public key it carries, in particular after
  \<open>AddAuthorizedKey\<close>. Its hash is the hash that was signed.
\<close>

theorem NewBlockPoA_verifies:
  assumes "ecdsa_ok P k"
  shows "\<exists>b. NewBlockPoA P now rnd txs prev height bits k = Ok b \<and> is_pubkey k (AuthorityPubKey b) \<and>
     SignHash P b = Ok (Hash b) \<and>
     VerifyPoABlock P (AddAuthorizedKey (AuthorityPubKey b) keys) b = Ok True"
proof -
  obtain xb yb where xy: "FillBytes 32 (key_X k) = Ok xb" "length xb = 32" "SetBytes xb = key_X k"
    "FillBytes 32 (key_Y k) = Ok yb" "length yb = 32" "SetBytes yb = key_Y k"
    using assms FillBytes_32 unfolding ecdsa_ok_def by metis
  define h where "h = sha256 P (concat [prev, tx_root P txs, IntToHex now, IntToHex height,
      IntToHex (if bits = 0 then targetBits else bits)])"
  obtain r s rb sb where sg: "ecdsa_sign P k h rnd = Ok (r, s)" "FillBytes 32 r = Ok rb"
    "FillBytes 32 s = Ok sb" "sig_by P k h (rb @ sb)"
    using sign_once [OF assms] .
  define b where "b = \<lparr>Timestamp = now, Transactions = txs, PrevBlockHash = prev,
      Hash = h, Nonce = 0, Height = height, Bits = (if bits = 0 then targetBits else bits),
      AuthoritySignature = rb @ sb, AuthorityPubKey = xb @ yb\<rparr>"
  have "NewBlockPoA P now rnd txs prev height bits k = Ok b"
    using xy sg by (simp add: NewBlockPoA_def SignHash_def Let_def b_def h_def)
  moreover have sh: "SignHash P b = Ok (Hash b)" by (simp add: SignHash_def b_def h_def)
  moreover have "is_pubkey k (AuthorityPubKey b)" using xy by (simp add: is_pubkey_def b_def)
  moreover have "VerifyPoABlock P (AddAuthorizedKey (AuthorityPubKey b) keys) b = Ok True"
    using xy sg(4) sh by (simp add: VerifyPoABlock_def IsAuthorizedKey_def sig_by_def b_def)
  ultimately show ?thesis by blast
qed

theorem NewBlockPoA_verifies_witness:
  "\<exists>b. NewBlockPoA sample_prims 0 0 [sample_tx] [] 1 0 (sample_key 5) = Ok b \<and>
     VerifyPoABlock sample_prims (AddAuthorizedKey (AuthorityPubKey b) []) b = Ok True"
  using NewBlockPoA_verifies [of sample_prims "sample_key 5" 0 0 "[sample_tx]" "[]" 1 0 "[]"]
    sample_ecdsa_ok [of 5] by auto


text \<open>
  Adding authority keys one by one, in any order and with repetitions, yields a list without
  duplicates that authorises exactly the keys that were there or were added.
\<close>

theorem AddAuthorizedKey_fold:
  assumes "distinct keys"
  shows "distinct (fold AddAuthorizedKey ks keys) \<and>
    (IsAuthorizedKey (fold AddAuthorizedKey ks keys) k \<longleftrightarrow> IsAuthorizedKey keys k \<or> k \<in> set ks)"
  using assms by (induction ks arbitrary: keys) (auto simp: IsAuthorizedKey_def)

theorem AddAuthorizedKey_fold_witness:
  "distinct (fold AddAuthorizedKey [[1], [2], [1]] [[3]]) \<and>
   IsAuthorizedKey (fold AddAuthorizedKey [[1], [2], [1]] [[3]]) [2]"
  using AddAuthorizedKey_fold [of "[[3]]" "[[1], [2], [1]]" "[2]"] by simp

end
