(* ===== verification/Storage.thy ===== *)
theory Storage
  imports Prelude
begin

text \<open>
  The storage interface of \<^verbatim>\<open>internal/storage/storage.go\<close>. A Go interface value is a table of
  methods, here a record of functions over an abstract database state \<open>'s\<close>; a method that
  writes returns its error and the new state. The locale \<open>storage\<close> is the contract the
  blockchain relies on: what each read returns in terms of three abstract views (blocks, tip,
  unspent outputs), what each successful write changes, and that a failed write changes nothing.
\<close>

record 's Storage =
  SaveBlock :: "bytes \<Rightarrow> bytes \<Rightarrow> 's \<Rightarrow> unit result \<times> 's"
  SaveBlockAndTip :: "bytes \<Rightarrow> bytes \<Rightarrow> 's \<Rightarrow> unit result \<times> 's"
  GetBlock :: "bytes \<Rightarrow> 's \<Rightarrow> bytes result"
  GetTip :: "'s \<Rightarrow> bytes result"
  UpdateTip :: "bytes \<Rightarrow> 's \<Rightarrow> unit result \<times> 's"
  GetUTXO :: "bytes \<Rightarrow> 's \<Rightarrow> bytes result"
  SaveUTXO :: "bytes \<Rightarrow> bytes \<Rightarrow> 's \<Rightarrow> unit result \<times> 's"
  DeleteUTXO :: "bytes \<Rightarrow> 's \<Rightarrow> unit result \<times> 's"
  ClearUTXOSet :: "'s \<Rightarrow> unit result \<times> 's"
  IterateUTXO :: "'s \<Rightarrow> (bytes \<times> bytes) list result"

text \<open>
  \<^verbatim>\<open>IterateUTXO\<close> hands entries to a callback until the callback returns false. The record holds
  the entries in iteration order; \<open>run_yield\<close> is the loop over them. The callback threads the
  variables it captures (\<open>'a\<close>) and may panic.
\<close>

fun run_yield :: "('k \<Rightarrow> 'v \<Rightarrow> 'a \<Rightarrow> ('a \<times> bool) result) \<Rightarrow> ('k \<times> 'v) list \<Rightarrow> 'a \<Rightarrow> 'a result" where
  "run_yield yield [] acc = Ok acc"
| "run_yield yield ((k, v) # kvs) acc =
     bind_result (yield k v acc)
       (\<lambda>(acc', go_on). if go_on then run_yield yield kvs acc' else Ok acc')"

definition iterate_utxo ::
    "('s, 'm) Storage_scheme \<Rightarrow> 's \<Rightarrow> (bytes \<Rightarrow> bytes \<Rightarrow> 'a \<Rightarrow> ('a \<times> bool) result) \<Rightarrow> 'a \<Rightarrow> 'a result" where
  "iterate_utxo S s yield acc = bind_result (IterateUTXO S s) (\<lambda>kvs. run_yield yield kvs acc)"

text \<open>A callback that never stops and never panics is a fold.\<close>

lemma run_yield_fold:
  assumes "\<And>k v acc. (k, v) \<in> set kvs \<Longrightarrow> yield k v acc = Ok (f k v acc, True)"
  shows "run_yield yield kvs acc = Ok (fold (\<lambda>(k, v). f k v) kvs acc)"
  using assms by (induction kvs arbitrary: acc) auto

locale storage =
  fixes S :: "'s Storage"
    and inv :: "'s \<Rightarrow> bool"
    and blk :: "'s \<Rightarrow> bytes \<Rightarrow> bytes option"
    and tipv :: "'s \<Rightarrow> bytes option"
    and utxo :: "'s \<Rightarrow> bytes \<Rightarrow> bytes option"
    and okh :: "bytes \<Rightarrow> bool"
  assumes get_block: "inv s \<Longrightarrow> okh h \<Longrightarrow>
      GetBlock S h s = (case blk s h of None \<Rightarrow> Error ErrNotFound | Some d \<Rightarrow> Ok d)"
    and get_tip: "inv s \<Longrightarrow>
      GetTip S s = (case tipv s of None \<Rightarrow> Error ErrNotFound | Some h \<Rightarrow> Ok h)"
    and get_utxo: "inv s \<Longrightarrow>
      GetUTXO S k s = (case utxo s k of None \<Rightarrow> Error ErrNotFound | Some d \<Rightarrow> Ok d)"
    and save_block: "inv s \<Longrightarrow> okh h \<Longrightarrow> SaveBlock S h d s = (r, s') \<Longrightarrow>
      (r = Ok () \<and> inv s' \<and> blk s' = (blk s)(h \<mapsto> d) \<and> tipv s' = tipv s \<and> utxo s' = utxo s) \<or>
      ((\<exists>e. r = Error e) \<and> s' = s)"
    and save_block_and_tip: "inv s \<Longrightarrow> okh h \<Longrightarrow> SaveBlockAndTip S h d s = (r, s') \<Longrightarrow>
      (r = Ok () \<and> inv s' \<and> blk s' = (blk s)(h \<mapsto> d) \<and> tipv s' = Some h \<and> utxo s' = utxo s) \<or>
      ((\<exists>e. r = Error e) \<and> s' = s)"
    and update_tip: "inv s \<Longrightarrow> UpdateTip S h s = (r, s') \<Longrightarrow>
      (r = Ok () \<and> inv s' \<and> blk s' = blk s \<and> tipv s' = Some h \<and> utxo s' = utxo s) \<or>
      ((\<exists>e. r = Error e) \<and> s' = s)"
    and save_utxo: "inv s \<Longrightarrow> SaveUTXO S k d s = (r, s') \<Longrightarrow>
      (r = Ok () \<and> inv s' \<and> blk s' = blk s \<and> tipv s' = tipv s \<and> utxo s' = (utxo s)(k \<mapsto> d)) \<or>
      ((\<exists>e. r = Error e) \<and> s' = s)"
    and delete_utxo: "inv s \<Longrightarrow> DeleteUTXO S k s = (r, s') \<Longrightarrow>
      (r = Ok () \<and> inv s' \<and> blk s' = blk s \<and> tipv s' = tipv s \<and> utxo s' = (utxo s)(k := None)) \<or>
      ((\<exists>e. r = Error e) \<and> s' = s)"
    and clear_utxo: "inv s \<Longrightarrow> ClearUTXOSet S s = (r, s') \<Longrightarrow>
      (r = Ok () \<and> inv s' \<and> blk s' = blk s \<and> tipv s' = tipv s \<and> utxo s' = Map.empty) \<or>
      ((\<exists>e. r = Error e) \<and> s' = s)"
    and iterate: "inv s \<Longrightarrow>
      \<exists>kvs. IterateUTXO S s = Ok kvs \<and> distinct (map fst kvs) \<and> map_of kvs = utxo s"
begin

lemma save_block_inv: "inv s \<Longrightarrow> okh h \<Longrightarrow> SaveBlock S h d s = (r, s') \<Longrightarrow> inv s'"
  using save_block by blast

lemma save_block_and_tip_inv: "inv s \<Longrightarrow> okh h \<Longrightarrow> SaveBlockAndTip S h d s = (r, s') \<Longrightarrow> inv s'"
  using save_block_and_tip by blast

text \<open>A block that was saved is read back, and the other blocks are still there.\<close>

lemma get_after_save:
  assumes "inv s" and "okh h" and "okh h'" and "SaveBlockAndTip S h d s = (Ok (), s')"
  shows "GetBlock S h' s' = (if h' = h then Ok d else GetBlock S h' s)" and "GetTip S s' = Ok h"
proof -
  have s': "inv s'" "blk s' = (blk s)(h \<mapsto> d)" "tipv s' = Some h"
    using save_block_and_tip [OF assms(1,2,4)] by auto
  show "GetTip S s' = Ok h" using s' by (simp add: get_tip)
  show "GetBlock S h' s' = (if h' = h then Ok d else GetBlock S h' s)"
    using s' assms by (simp add: get_block)
qed

end

end
