(* ===== verification/Bolt.thy ===== *)
theory Bolt
  imports Storage
begin

text \<open>
  The bbolt implementation of the storage interface, \<^verbatim>\<open>internal/storage/bolt/boltdb.go\<close>.
  bbolt itself is a parameter \<open>B\<close>: a record of the bucket and transaction operations the file
  calls, with the documented laws of these operations as the predicate \<open>bbolt_ok\<close>. The
  operations of \<open>DB\<close> are definitions over it, and the interpretation at the end shows that
  they provide the storage contract.
\<close>

section \<open>The bbolt API\<close>

type_synonym 'b buckets = "string \<rightharpoonup> 'b"

abbreviation ErrBucketNotFound :: goerr where "ErrBucketNotFound \<equiv> ErrMsg ''bucket not found''"

record 'b bbolt =
  b_new :: 'b
  b_Get :: "'b \<Rightarrow> bytes \<Rightarrow> bytes option"
  b_Put :: "bytes \<Rightarrow> bytes \<Rightarrow> 'b \<Rightarrow> 'b result"
  b_Delete :: "bytes \<Rightarrow> 'b \<Rightarrow> 'b result"
  b_Cursor :: "'b \<Rightarrow> (bytes \<times> bytes) list"
  b_CreateBucketIfNotExists :: "string \<Rightarrow> 'b buckets \<Rightarrow> 'b buckets result"
  b_CreateBucket :: "string \<Rightarrow> 'b buckets \<Rightarrow> 'b buckets result"
  b_DeleteBucket :: "string \<Rightarrow> 'b buckets \<Rightarrow> 'b buckets result"
  b_Update :: "('b buckets \<Rightarrow> 'b buckets result) \<Rightarrow> 'b buckets \<Rightarrow> unit result \<times> 'b buckets"
  b_View :: "'b buckets \<Rightarrow> goerr option"

text \<open>
  What the bbolt documentation says of these operations. \<open>Put\<close> refuses a blank key and
  oversized keys or values; \<open>Update\<close> commits when its function returns nil, rolls back when
  the function fails, and may itself fail on commit, leaving the database as it was; a cursor
  visits every pair once.
\<close>

definition bucket_ok :: "'b bbolt \<Rightarrow> bool" where
  "bucket_ok B \<longleftrightarrow>
     (\<forall>k. b_Get B (b_new B) k = None) \<and>
     (\<forall>k v b. (\<exists>b'. b_Put B k v b = Ok b' \<and> b_Get B b' = (b_Get B b)(k \<mapsto> v)) \<or>
              (\<exists>e. b_Put B k v b = Error e)) \<and>
     (\<forall>k v b. k \<noteq> [] \<and> length k \<le> 32768 \<and> length v \<le> 2 ^ 31 - 2 \<longrightarrow> is_Ok (b_Put B k v b)) \<and>
     (\<forall>k b. \<exists>b'. b_Delete B k b = Ok b' \<and> b_Get B b' = (b_Get B b)(k := None)) \<and>
     (\<forall>b. distinct (map fst (b_Cursor B b)) \<and> map_of (b_Cursor B b) = b_Get B b)"

definition tx_ok :: "'b bbolt \<Rightarrow> bool" where
  "tx_ok B \<longleftrightarrow>
     (\<forall>n bs. b_CreateBucketIfNotExists B n bs =
        Ok (case bs n of None \<Rightarrow> bs(n \<mapsto> b_new B) | Some _ \<Rightarrow> bs)) \<and>
     (\<forall>n bs. bs n = None \<longrightarrow> b_CreateBucket B n bs = Ok (bs(n \<mapsto> b_new B))) \<and>
     (\<forall>n bs. b_DeleteBucket B n bs =
        (case bs n of None \<Rightarrow> Error ErrBucketNotFound | Some _ \<Rightarrow> Ok (bs(n := None)))) \<and>
     (\<forall>f bs bs'. f bs = Ok bs' \<longrightarrow>
        b_Update B f bs = (Ok (), bs') \<or> (\<exists>e. b_Update B f bs = (Error e, bs))) \<and>
     (\<forall>f bs e. f bs = Error e \<longrightarrow> b_Update B f bs = (Error e, bs)) \<and>
     (\<forall>f bs s. f bs = Panic s \<longrightarrow> b_Update B f bs = (Panic s, bs)) \<and>
     (\<forall>f bs. b_View B bs = None \<longrightarrow> b_View B (snd (b_Update B f bs)) = None)"

definition bbolt_ok :: "'b bbolt \<Rightarrow> bool" where
  "bbolt_ok B \<longleftrightarrow> bucket_ok B \<and> tx_ok B"

section \<open>boltdb.go\<close>

definition blocksBucket :: string where "blocksBucket = ''blocks''"
definition utxoBucket :: string where "utxoBucket = ''chainstate''"
definition tipKey :: bytes where "tipKey = string_bytes ''l''"

text \<open>\<^verbatim>\<open>b.Put\<close> through the pointer \<^verbatim>\<open>tx.Bucket(name)\<close>: a nil dereference panics.\<close>

definition nil_bucket :: "'a result" where
  "nil_bucket = Panic ''invalid memory address or nil pointer dereference''"

definition Open :: "'b bbolt \<Rightarrow> 'b buckets \<Rightarrow> unit result \<times> 'b buckets" where
  "Open B db =
     (let (r, db') = b_Update B
            (\<lambda>tx. bind_result (b_CreateBucketIfNotExists B blocksBucket tx)
                    (\<lambda>tx. b_CreateBucketIfNotExists B utxoBucket tx)) db
      in (wrap_err ''failed to initialize buckets'' r, db'))"

definition DB_SaveBlock :: "'b bbolt \<Rightarrow> bytes \<Rightarrow> bytes \<Rightarrow> 'b buckets \<Rightarrow> unit result \<times> 'b buckets" where
  "DB_SaveBlock B hash blockData db =
     b_Update B (\<lambda>tx. case tx blocksBucket of
         None \<Rightarrow> Error ErrNotFound
       | Some b \<Rightarrow> bind_result (b_Put B hash blockData b) (\<lambda>b. Ok (tx(blocksBucket \<mapsto> b)))) db"

definition DB_SaveBlockAndTip ::
    "'b bbolt \<Rightarrow> bytes \<Rightarrow> bytes \<Rightarrow> 'b buckets \<Rightarrow> unit result \<times> 'b buckets" where
  "DB_SaveBlockAndTip B hash blockData db =
     b_Update B (\<lambda>tx. case tx blocksBucket of
         None \<Rightarrow> Error ErrNotFound
       | Some b \<Rightarrow> bind_result (b_Put B hash blockData b)
           (\<lambda>b. bind_result (b_Put B tipKey hash b) (\<lambda>b. Ok (tx(blocksBucket \<mapsto> b))))) db"

text \<open>The reads run inside \<^verbatim>\<open>db.View\<close>, which fails when the database is closed.\<close>

definition in_View :: "'b bbolt \<Rightarrow> 'b buckets \<Rightarrow> 'a result \<Rightarrow> 'a result" where
  "in_View B db r = (case b_View B db of Some e \<Rightarrow> Error e | None \<Rightarrow> r)"

definition DB_GetBlock :: "'b bbolt \<Rightarrow> bytes \<Rightarrow> 'b buckets \<Rightarrow> bytes result" where
  "DB_GetBlock B hash db = in_View B db
     (case db blocksBucket of None \<Rightarrow> Error ErrNotFound
      | Some b \<Rightarrow> (case b_Get B b hash of None \<Rightarrow> Error ErrNotFound | Some data \<Rightarrow> Ok data))"

definition DB_GetTip :: "'b bbolt \<Rightarrow> 'b buckets \<Rightarrow> bytes result" where
  "DB_GetTip B db = in_View B db
     (case db blocksBucket of None \<Rightarrow> Error ErrNotFound
      | Some b \<Rightarrow> (case b_Get B b tipKey of None \<Rightarrow> Error ErrNotFound | Some data \<Rightarrow> Ok data))"

definition DB_UpdateTip :: "'b bbolt \<Rightarrow> bytes \<Rightarrow> 'b buckets \<Rightarrow> unit result \<times> 'b buckets" where
  "DB_UpdateTip B hash db =
     b_Update B (\<lambda>tx. case tx blocksBucket of None \<Rightarrow> nil_bucket
       | Some b \<Rightarrow> bind_result (b_Put B tipKey hash b) (\<lambda>b. Ok (tx(blocksBucket \<mapsto> b)))) db"

definition DB_GetUTXO :: "'b bbolt \<Rightarrow> bytes \<Rightarrow> 'b buckets \<Rightarrow> bytes result" where
  "DB_GetUTXO B txID db = in_View B db
     (case db utxoBucket of None \<Rightarrow> Error ErrNotFound
      | Some b \<Rightarrow> (case b_Get B b txID of None \<Rightarrow> Error ErrNotFound | Some data \<Rightarrow> Ok data))"

definition DB_SaveUTXO :: "'b bbolt \<Rightarrow> bytes \<Rightarrow> bytes \<Rightarrow> 'b buckets \<Rightarrow> unit result \<times> 'b buckets" where
  "DB_SaveUTXO B txID outsData db =
     b_Update B (\<lambda>tx. case tx utxoBucket of None \<Rightarrow> nil_bucket
       | Some b \<Rightarrow> bind_result (b_Put B txID outsData b) (\<lambda>b. Ok (tx(utxoBucket \<mapsto> b)))) db"

definition DB_DeleteUTXO :: "'b bbolt \<Rightarrow> bytes \<Rightarrow> 'b buckets \<Rightarrow> unit result \<times> 'b buckets" where
  "DB_DeleteUTXO B txID db =
     b_Update B (\<lambda>tx. case tx utxoBucket of None \<Rightarrow> nil_bucket
       | Some b \<Rightarrow> bind_result (b_Delete B txID b) (\<lambda>b. Ok (tx(utxoBucket \<mapsto> b)))) db"

definition DB_ClearUTXOSet :: "'b bbolt \<Rightarrow> 'b buckets \<Rightarrow> unit result \<times> 'b buckets" where
  "DB_ClearUTXOSet B db =
     b_Update B (\<lambda>tx. case b_DeleteBucket B utxoBucket tx of
         Error e \<Rightarrow> if e \<noteq> ErrBucketNotFound then Error e else b_CreateBucket B utxoBucket tx
       | Ok tx \<Rightarrow> b_CreateBucket B utxoBucket tx
       | r \<Rightarrow> as_failure r) db"

definition DB_IterateUTXO :: "'b bbolt \<Rightarrow> 'b buckets \<Rightarrow> (bytes \<times> bytes) list result" where
  "DB_IterateUTXO B db = in_View B db
     (case db utxoBucket of None \<Rightarrow> nil_bucket | Some b \<Rightarrow> Ok (b_Cursor B b))"

definition bolt_storage :: "'b bbolt \<Rightarrow> 'b buckets Storage" where
  "bolt_storage B =
     \<lparr>SaveBlock = DB_SaveBlock B, SaveBlockAndTip = DB_SaveBlockAndTip B,
      GetBlock = DB_GetBlock B, GetTip = DB_GetTip B, UpdateTip = DB_UpdateTip B,
      GetUTXO = DB_GetUTXO B, SaveUTXO = DB_SaveUTXO B, DeleteUTXO = DB_DeleteUTXO B,
      ClearUTXOSet = DB_ClearUTXOSet B, IterateUTXO = DB_IterateUTXO B\<rparr>"

section \<open>The contract\<close>

text \<open>
  The invariant of an open database: both buckets exist. The abstract views read the two
  buckets; a block key is any key but the tip key, which lives in the same bucket.
\<close>

definition bolt_inv :: "'b bbolt \<Rightarrow> 'b buckets \<Rightarrow> bool" where
  "bolt_inv B db \<longleftrightarrow> bbolt_ok B \<and> b_View B db = None \<and>
     db blocksBucket \<noteq> None \<and> db utxoBucket \<noteq> None"

definition bolt_blk :: "'b bbolt \<Rightarrow> 'b buckets \<Rightarrow> bytes \<Rightarrow> bytes option" where
  "bolt_blk B db h = (if h = tipKey then None else b_Get B (the (db blocksBucket)) h)"

definition bolt_tip :: "'b bbolt \<Rightarrow> 'b buckets \<Rightarrow> bytes option" where
  "bolt_tip B db = b_Get B (the (db blocksBucket)) tipKey"

definition bolt_utxo :: "'b bbolt \<Rightarrow> 'b buckets \<Rightarrow> bytes \<Rightarrow> bytes option" where
  "bolt_utxo B db = b_Get B (the (db utxoBucket))"

abbreviation block_key :: "bytes \<Rightarrow> bool" where "block_key h \<equiv> h \<noteq> tipKey"

lemma buckets_differ [simp]: "blocksBucket \<noteq> utxoBucket" "utxoBucket \<noteq> blocksBucket"
  by (simp_all add: blocksBucket_def utxoBucket_def)

lemma bbolt_PutE:
  assumes "bbolt_ok B"
  obtains b' where "b_Put B k v b = Ok b'" and "b_Get B b' = (b_Get B b)(k \<mapsto> v)"
        | e where "b_Put B k v b = Error e"
  using assms unfolding bbolt_ok_def bucket_ok_def by blast

lemma bbolt_DeleteE:
  assumes "bbolt_ok B"
  obtains b' where "b_Delete B k b = Ok b'" and "b_Get B b' = (b_Get B b)(k := None)"
  using assms unfolding bbolt_ok_def bucket_ok_def by blast

lemma bbolt_Update_Ok:
  "bbolt_ok B \<Longrightarrow> f bs = Ok bs' \<Longrightarrow> b_Update B f bs = (r, x) \<Longrightarrow>
     (r = Ok () \<and> x = bs') \<or> ((\<exists>e. r = Error e) \<and> x = bs)"
  unfolding bbolt_ok_def tx_ok_def by (metis prod.inject)

lemma bbolt_Update_Error:
  "bbolt_ok B \<Longrightarrow> f bs = Error e \<Longrightarrow> b_Update B f bs = (Error e, bs)"
  unfolding bbolt_ok_def tx_ok_def by blast

lemma bbolt_View: "bbolt_ok B \<Longrightarrow> b_View B bs = None \<Longrightarrow> b_Update B f bs = (r, bs') \<Longrightarrow> b_View B bs' = None"
  unfolding bbolt_ok_def tx_ok_def by (metis snd_conv)

text \<open>
  One rule for every write: an update whose function only replaces one bucket either commits
  with that bucket or leaves the database alone.
\<close>

lemma bolt_update_bucket:
  assumes inv: "bolt_inv B db" and n: "db n = Some b"
    and f: "(\<exists>b'. f db = Ok (db(n \<mapsto> b')) \<and> Q b') \<or> (\<exists>e. f db = Error e)"
    and upd: "b_Update B f db = (r, db')"
  shows "(r = Ok () \<and> bolt_inv B db' \<and> (\<exists>b'. db' = db(n \<mapsto> b') \<and> Q b'))
       \<or> ((\<exists>e. r = Error e) \<and> db' = db)"
proof -
  have ok: "bbolt_ok B" using inv by (simp add: bolt_inv_def)
  from f show ?thesis
  proof
    assume "\<exists>b'. f db = Ok (db(n \<mapsto> b')) \<and> Q b'"
    then obtain b' where b': "f db = Ok (db(n \<mapsto> b'))" "Q b'" by blast
    have "(r = Ok () \<and> db' = db(n \<mapsto> b')) \<or> ((\<exists>e. r = Error e) \<and> db' = db)"
      using bbolt_Update_Ok [OF ok b'(1) upd] .
    moreover have "b_View B db' = None"
      using bbolt_View [OF ok _ upd] inv by (simp add: bolt_inv_def)
    ultimately show ?thesis using inv b'(2) by (auto simp: bolt_inv_def)
  next
    assume "\<exists>e. f db = Error e"
    then show ?thesis using bbolt_Update_Error [OF ok] upd by fastforce
  qed
qed

lemma bolt_buckets:
  assumes "bolt_inv B db"
  obtains b u where "db blocksBucket = Some b" and "db utxoBucket = Some u"
  using assms by (auto simp: bolt_inv_def)

lemmas bolt_views = bolt_blk_def bolt_tip_def bolt_utxo_def fun_eq_iff

lemma bolt_save_block:
  assumes inv: "bolt_inv B s" and "block_key h" and upd: "DB_SaveBlock B h d s = (r, s')"
  shows "(r = Ok () \<and> bolt_inv B s' \<and> bolt_blk B s' = (bolt_blk B s)(h \<mapsto> d)
            \<and> bolt_tip B s' = bolt_tip B s \<and> bolt_utxo B s' = bolt_utxo B s)
       \<or> ((\<exists>e. r = Error e) \<and> s' = s)"
proof -
  obtain b u where b: "s blocksBucket = Some b" "s utxoBucket = Some u"
    using bolt_buckets [OF inv] .
  have ok: "bbolt_ok B" using inv by (simp add: bolt_inv_def)
  let ?Q = "\<lambda>b'. b_Get B b' = (b_Get B b)(h \<mapsto> d)"
  have "(r = Ok () \<and> bolt_inv B s' \<and> (\<exists>b'. s' = s(blocksBucket \<mapsto> b') \<and> ?Q b'))
      \<or> ((\<exists>e. r = Error e) \<and> s' = s)"
    by (rule bolt_update_bucket [OF inv b(1) _ upd [unfolded DB_SaveBlock_def]],
        rule bbolt_PutE [OF ok, of h d b]) (auto simp: b)
  then show ?thesis using assms(2) b by (auto simp: bolt_views)
qed

lemma bolt_save_block_and_tip:
  assumes inv: "bolt_inv B s" and "block_key h" and upd: "DB_SaveBlockAndTip B h d s = (r, s')"
  shows "(r = Ok () \<and> bolt_inv B s' \<and> bolt_blk B s' = (bolt_blk B s)(h \<mapsto> d)
            \<and> bolt_tip B s' = Some h \<and> bolt_utxo B s' = bolt_utxo B s)
       \<or> ((\<exists>e. r = Error e) \<and> s' = s)"
proof -
  obtain b u where b: "s blocksBucket = Some b" "s utxoBucket = Some u"
    using bolt_buckets [OF inv] .
  have ok: "bbolt_ok B" using inv by (simp add: bolt_inv_def)
  let ?Q = "\<lambda>b'. b_Get B b' = (b_Get B b)(h \<mapsto> d, tipKey \<mapsto> h)"
  let ?f = "\<lambda>tx. case tx blocksBucket of
         None \<Rightarrow> Error ErrNotFound
       | Some b \<Rightarrow> bind_result (b_Put B h d b)
           (\<lambda>b. bind_result (b_Put B tipKey h b) (\<lambda>b. Ok (tx(blocksBucket \<mapsto> b))))"
  have "(\<exists>b'. ?f s = Ok (s(blocksBucket \<mapsto> b')) \<and> ?Q b') \<or> (\<exists>e. ?f s = Error e)"
  proof (rule bbolt_PutE [OF ok, of h d b])
    fix b1 assume b1: "b_Put B h d b = Ok b1" "b_Get B b1 = (b_Get B b)(h \<mapsto> d)"
    then show ?thesis by (rule_tac bbolt_PutE [OF ok, of tipKey h b1]) (auto simp: b)
  qed (simp add: b)
  from bolt_update_bucket [OF inv b(1) this upd [unfolded DB_SaveBlockAndTip_def]]
  show ?thesis using assms(2) b by (auto simp: bolt_views)
qed

lemma bolt_update_tip:
  assumes inv: "bolt_inv B s" and upd: "DB_UpdateTip B h s = (r, s')"
  shows "(r = Ok () \<and> bolt_inv B s' \<and> bolt_blk B s' = bolt_blk B s
            \<and> bolt_tip B s' = Some h \<and> bolt_utxo B s' = bolt_utxo B s)
       \<or> ((\<exists>e. r = Error e) \<and> s' = s)"
proof -
  obtain b u where b: "s blocksBucket = Some b" "s utxoBucket = Some u"
    using bolt_buckets [OF inv] .
  have ok: "bbolt_ok B" using inv by (simp add: bolt_inv_def)
  have "(r = Ok () \<and> bolt_inv B s' \<and>
        (\<exists>b'. s' = s(blocksBucket \<mapsto> b') \<and> b_Get B b' = (b_Get B b)(tipKey \<mapsto> h)))
      \<or> ((\<exists>e. r = Error e) \<and> s' = s)"
    by (rule bolt_update_bucket [OF inv b(1) _ upd [unfolded DB_UpdateTip_def]],
        rule bbolt_PutE [OF ok, of tipKey h b]) (auto simp: b)
  then show ?thesis using b by (auto simp: bolt_views)
qed

lemma bolt_save_utxo:
  assumes inv: "bolt_inv B s" and upd: "DB_SaveUTXO B k d s = (r, s')"
  shows "(r = Ok () \<and> bolt_inv B s' \<and> bolt_blk B s' = bolt_blk B s
            \<and> bolt_tip B s' = bolt_tip B s \<and> bolt_utxo B s' = (bolt_utxo B s)(k \<mapsto> d))
       \<or> ((\<exists>e. r = Error e) \<and> s' = s)"
proof -
  obtain b u where b: "s blocksBucket = Some b" "s utxoBucket = Some u"
    using bolt_buckets [OF inv] .
  have ok: "bbolt_ok B" using inv by (simp add: bolt_inv_def)
  have "(r = Ok () \<and> bolt_inv B s' \<and>
        (\<exists>b'. s' = s(utxoBucket \<mapsto> b') \<and> b_Get B b' = (b_Get B u)(k \<mapsto> d)))
      \<or> ((\<exists>e. r = Error e) \<and> s' = s)"
    by (rule bolt_update_bucket [OF inv b(2) _ upd [unfolded DB_SaveUTXO_def]],
        rule bbolt_PutE [OF ok, of k d u]) (auto simp: b)
  then show ?thesis using b by (auto simp: bolt_views)
qed

lemma bolt_delete_utxo:
  assumes inv: "bolt_inv B s" and upd: "DB_DeleteUTXO B k s = (r, s')"
  shows "(r = Ok () \<and> bolt_inv B s' \<and> bolt_blk B s' = bolt_blk B s
            \<and> bolt_tip B s' = bolt_tip B s \<and> bolt_utxo B s' = (bolt_utxo B s)(k := None))
       \<or> ((\<exists>e. r = Error e) \<and> s' = s)"
proof -
  obtain b u where b: "s blocksBucket = Some b" "s utxoBucket = Some u"
    using bolt_buckets [OF inv] .
  have ok: "bbolt_ok B" using inv by (simp add: bolt_inv_def)
  have "(r = Ok () \<and> bolt_inv B s' \<and>
        (\<exists>b'. s' = s(utxoBucket \<mapsto> b') \<and> b_Get B b' = (b_Get B u)(k := None)))
      \<or> ((\<exists>e. r = Error e) \<and> s' = s)"
    by (rule bolt_update_bucket [OF inv b(2) _ upd [unfolded DB_DeleteUTXO_def]],
        rule bbolt_DeleteE [OF ok, of k u]) (auto simp: b)
  then show ?thesis using b by (auto simp: bolt_views)
qed

lemma bolt_clear_utxo:
  assumes inv: "bolt_inv B s" and upd: "DB_ClearUTXOSet B s = (r, s')"
  shows "(r = Ok () \<and> bolt_inv B s' \<and> bolt_blk B s' = bolt_blk B s
            \<and> bolt_tip B s' = bolt_tip B s \<and> bolt_utxo B s' = Map.empty)
       \<or> ((\<exists>e. r = Error e) \<and> s' = s)"
proof -
  obtain b u where b: "s blocksBucket = Some b" "s utxoBucket = Some u"
    using bolt_buckets [OF inv] .
  have tx: "tx_ok B" and new: "b_Get B (b_new B) = Map.empty"
    using inv by (auto simp: bolt_inv_def bbolt_ok_def bucket_ok_def fun_eq_iff)
  have "b_DeleteBucket B utxoBucket s = Ok (s(utxoBucket := None))"
    using tx b unfolding tx_ok_def by simp
  moreover have "b_CreateBucket B utxoBucket (s(utxoBucket := None)) = Ok (s(utxoBucket \<mapsto> b_new B))"
    using tx unfolding tx_ok_def by (metis fun_upd_same fun_upd_upd)
  ultimately have "(r = Ok () \<and> bolt_inv B s' \<and>
        (\<exists>b'. s' = s(utxoBucket \<mapsto> b') \<and> b_Get B b' = Map.empty))
      \<or> ((\<exists>e. r = Error e) \<and> s' = s)"
    by (intro bolt_update_bucket [OF inv b(2) _ upd [unfolded DB_ClearUTXOSet_def]])
      (auto simp: new)
  then show ?thesis using b by (auto simp: bolt_views)
qed

text \<open>The bbolt database provides the storage contract, for every bbolt that keeps its laws.\<close>

interpretation bolt: storage "bolt_storage B" "bolt_inv B" "bolt_blk B" "bolt_tip B" "bolt_utxo B"
    block_key for B
proof (unfold_locales, goal_cases)
  case (1 s h)
  then show ?case
    by (auto simp: bolt_storage_def DB_GetBlock_def in_View_def bolt_inv_def bolt_blk_def
        split: option.splits)
next
  case (2 s)
  then show ?case
    by (auto simp: bolt_storage_def DB_GetTip_def in_View_def bolt_inv_def bolt_tip_def
        split: option.splits)
next
  case (3 s k)
  then show ?case
    by (auto simp: bolt_storage_def DB_GetUTXO_def in_View_def bolt_inv_def bolt_utxo_def
        split: option.splits)
next
  case (4 s h d r s')
  then show ?case by (intro bolt_save_block) (simp_all add: bolt_storage_def)
next
  case (5 s h d r s')
  then show ?case by (intro bolt_save_block_and_tip) (simp_all add: bolt_storage_def)
next
  case (6 s h r s')
  then show ?case by (intro bolt_update_tip) (simp_all add: bolt_storage_def)
next
  case (7 s k d r s')
  then show ?case by (intro bolt_save_utxo) (simp_all add: bolt_storage_def)
next
  case (8 s k r s')
  then show ?case by (intro bolt_delete_utxo) (simp_all add: bolt_storage_def)
next
  case (9 s r s')
  then show ?case by (intro bolt_clear_utxo) (simp_all add: bolt_storage_def)
next
  case (10 s)
  then show ?case
    by (auto simp: bolt_storage_def DB_IterateUTXO_def in_View_def bolt_inv_def bolt_utxo_def
        bbolt_ok_def bucket_ok_def)
qed

lemma Open_bolt_inv:
  assumes "bbolt_ok B" and "b_View B db = None" and "Open B db = (Ok (), db')"
  shows "bolt_inv B db'"
proof -
  let ?f = "\<lambda>tx. bind_result (b_CreateBucketIfNotExists B blocksBucket tx)
                    (\<lambda>tx. b_CreateBucketIfNotExists B utxoBucket tx)"
  have tx: "b_CreateBucketIfNotExists B n bs =
        Ok (case bs n of None \<Rightarrow> bs(n \<mapsto> b_new B) | Some _ \<Rightarrow> bs)" for n bs
    using assms(1) by (simp add: bbolt_ok_def tx_ok_def)
  let ?mk = "\<lambda>n bs. case bs n of None \<Rightarrow> bs(n \<mapsto> b_new B) | Some _ \<Rightarrow> bs"
  have "?f db = Ok (?mk utxoBucket (?mk blocksBucket db))"
    unfolding tx bind_result.simps ..
  moreover have "?mk utxoBucket (?mk blocksBucket db) blocksBucket \<noteq> None"
      "?mk utxoBucket (?mk blocksBucket db) utxoBucket \<noteq> None"
    by (simp_all split: option.split)
  ultimately obtain db1 where f: "?f db = Ok db1"
    and ex: "db1 blocksBucket \<noteq> None" "db1 utxoBucket \<noteq> None" by blast
  obtain r where upd: "b_Update B ?f db = (r, db')"
    and "wrap_err ''failed to initialize buckets'' r = Ok ()"
    using assms(3) unfolding Open_def by (cases "b_Update B ?f db") simp
  then have r: "r = Ok ()" by (simp add: result_simps)
  have "db' = db1"
    using bbolt_Update_Ok [OF assms(1) f upd] unfolding r by simp
  moreover have "b_View B db' = None" by (rule bbolt_View [OF assms(1,2) upd])
  ultimately show ?thesis using assms(1) ex unfolding bolt_inv_def by blast
qed

section \<open>A concrete bbolt\<close>

text \<open>Buckets as association lists: the laws can hold, and examples can be evaluated.\<close>

definition list_bbolt :: "(bytes \<times> bytes) list bbolt" where
  "list_bbolt =
     \<lparr>b_new = [], b_Get = map_of,
      b_Put = (\<lambda>k v b. if k = [] then Error (ErrMsg ''key required'') else Ok (AList.update k v b)),
      b_Delete = (\<lambda>k b. Ok (AList.delete k b)),
      b_Cursor = AList.clearjunk,
      b_CreateBucketIfNotExists =
        (\<lambda>n bs. Ok (case bs n of None \<Rightarrow> bs(n \<mapsto> []) | Some _ \<Rightarrow> bs)),
      b_CreateBucket =
        (\<lambda>n bs. case bs n of None \<Rightarrow> Ok (bs(n \<mapsto> [])) | Some _ \<Rightarrow> Error (ErrMsg ''bucket already exists'')),
      b_DeleteBucket =
        (\<lambda>n bs. case bs n of None \<Rightarrow> Error ErrBucketNotFound | Some _ \<Rightarrow> Ok (bs(n := None))),
      b_Update = (\<lambda>f bs. case f bs of Ok bs' \<Rightarrow> (Ok (), bs') | r \<Rightarrow> (as_failure r, bs)),
      b_View = (\<lambda>_. None)\<rparr>"

lemma list_bbolt_ok [simp]: "bbolt_ok list_bbolt"
proof -
  have "bucket_ok list_bbolt"
    by (auto simp: bucket_ok_def list_bbolt_def update_conv' delete_conv' distinct_clearjunk
        map_of_clearjunk)
  moreover have "tx_ok list_bbolt"
    by (auto simp: tx_ok_def list_bbolt_def split: result.splits option.splits)
  ultimately show ?thesis by (simp add: bbolt_ok_def)
qed

definition empty_db :: "(bytes \<times> bytes) list buckets" where
  "empty_db = [blocksBucket \<mapsto> [], utxoBucket \<mapsto> []]"

lemma empty_db_inv [simp]: "bolt_inv list_bbolt empty_db"
  by (simp add: bolt_inv_def empty_db_def) (simp add: list_bbolt_def)

section \<open>Properties\<close>

text \<open>
  Opening creates what is missing and keeps what is there: after \<open>Open\<close> succeeds both
  buckets exist, and the stored blocks, the tip and the unspent outputs of a database that
  had both buckets are unchanged.
\<close>

theorem Open_ok:
  assumes "bbolt_ok B" and "b_View B db = None" and "Open B db = (Ok (), db')"
  shows "bolt_inv B db' \<and> (bolt_inv B db \<longrightarrow> db' = db)"
proof -
  have "db' = db" if "bolt_inv B db"
  proof -
    let ?f = "\<lambda>tx. bind_result (b_CreateBucketIfNotExists B blocksBucket tx)
                    (\<lambda>tx. b_CreateBucketIfNotExists B utxoBucket tx)"
    have f: "?f db = Ok db"
      using assms(1) that by (auto simp: bbolt_ok_def tx_ok_def bolt_inv_def)
    obtain r where "b_Update B ?f db = (r, db')" "wrap_err ''failed to initialize buckets'' r = Ok ()"
      using assms(3) unfolding Open_def by (cases "b_Update B ?f db") simp
    then show ?thesis using bbolt_Update_Ok [where f = ?f, OF assms(1) f] by (auto simp: wrap_err_eq_Ok)
  qed
  then show ?thesis using Open_bolt_inv [OF assms] by blast
qed

theorem Open_ok_witness:
  "\<exists>db'. Open list_bbolt Map.empty = (Ok (), db') \<and> bolt_inv list_bbolt db'"
proof -
  obtain db' where o: "Open list_bbolt Map.empty = (Ok (), db')"
    by (simp add: Open_def list_bbolt_def)
  moreover have "b_View list_bbolt Map.empty = None" by (simp add: list_bbolt_def)
  ultimately show ?thesis using Open_ok [OF list_bbolt_ok _ o] by blast
qed

text \<open>
  C27. Saving a block with the tip is atomic. It either succeeds, and then the block is read back
  under its hash, the tip is that hash and every other block and all unspent outputs read as
  before; or it fails, and the database is as before. The hash must not be the key \<open>l\<close> of the
  tip, which lives in the same bucket.
\<close>

theorem SaveBlockAndTip_atomic:
  assumes "bolt_inv B db" and "block_key h" and "DB_SaveBlockAndTip B h d db = (r, db')"
  shows "(r = Ok () \<and> bolt_inv B db' \<and> DB_GetBlock B h db' = Ok d \<and> DB_GetTip B db' = Ok h \<and>
      (\<forall>h'. h' \<noteq> h \<and> block_key h' \<longrightarrow> DB_GetBlock B h' db' = DB_GetBlock B h' db) \<and>
      (\<forall>k. DB_GetUTXO B k db' = DB_GetUTXO B k db))
    \<or> ((\<exists>e. r = Error e) \<and> db' = db)"
proof -
  have sel: "SaveBlockAndTip (bolt_storage B) = DB_SaveBlockAndTip B" "GetBlock (bolt_storage B) = DB_GetBlock B"
    "GetTip (bolt_storage B) = DB_GetTip B" "GetUTXO (bolt_storage B) = DB_GetUTXO B"
    by (simp_all add: bolt_storage_def)
  from bolt.save_block_and_tip [OF assms(1,2), unfolded sel, OF assms(3)] show ?thesis
  proof
    assume ok: "r = Ok () \<and> bolt_inv B db' \<and> bolt_blk B db' = (bolt_blk B db)(h \<mapsto> d) \<and>
      bolt_tip B db' = Some h \<and> bolt_utxo B db' = bolt_utxo B db"
    then have save: "DB_SaveBlockAndTip B h d db = (Ok (), db')" using assms(3) by simp
    note get = bolt.get_after_save [OF assms(1,2), unfolded sel, OF _ save]
    have "DB_GetUTXO B k db' = DB_GetUTXO B k db" for k
      using bolt.get_utxo [of B db k] bolt.get_utxo [of B db' k] ok assms(1) by (simp add: sel)
    then show ?thesis using get [OF assms(2)] get ok by auto
  qed blast
qed

theorem SaveBlockAndTip_atomic_witness:
  "\<exists>r db'. DB_SaveBlockAndTip list_bbolt [7] [1] empty_db = (r, db') \<and>
     (r = Ok () \<and> DB_GetBlock list_bbolt [7] db' = Ok [1] \<or> (\<exists>e. r = Error e) \<and> db' = empty_db)"
proof -
  obtain r db' where s: "DB_SaveBlockAndTip list_bbolt [7] [1] empty_db = (r, db')" by force
  have "block_key [7]" by (simp add: tipKey_def string_bytes_def)
  from SaveBlockAndTip_atomic [OF empty_db_inv this s] s show ?thesis by blast
qed

end
