(* ===== verification/Chain.thy ===== *)
theory Chain
  imports Block Bolt Instances
begin

text \<open>
  The blockchain of \<^verbatim>\<open>internal/core/blockchain.go\<close> over the storage interface. A Go
  \<^verbatim>\<open>*Blockchain\<close> is the record \<open>Blockchain\<close> of the cached tip and the database state; the methods
  of the database are the argument \<open>S\<close>. An operation that changes the blockchain returns it next
  to its outcome, on the failing branches too.

  The iterator \<^verbatim>\<open>Blocks\<close> follows predecessor hashes as long as blocks are found and the consumer
  asks for more. Nothing in the code keeps these hashes from forming a cycle, so the loop is a
  partial function, and \<open>Diverge\<close> is the outcome of a consumer that never stops. The predicate
  \<open>chain\<close> says which blocks a finite walk meets.
\<close>

section \<open>The blockchain\<close>

record 's Blockchain =
  tip :: bytes
  db :: 's

definition genesisCoinbaseData :: string where
  "genesisCoinbaseData = ''The Times 03/Jan/2009 Chancellor on brink of second bailout for banks''"

definition CreateBlockchain ::
    "Prims \<Rightarrow> 's Storage \<Rightarrow> int64 \<Rightarrow> string \<Rightarrow> 's \<Rightarrow> 's Blockchain result \<times> 's" where
  "CreateBlockchain P S now address d =
     (let tip = GetTip S d in
      if (case tip of Ok h \<Rightarrow> h \<noteq> [] | _ \<Rightarrow> False) then (Error (ErrMsg ''blockchain already exists''), d)
      else if \<not> (case tip of Panic _ \<Rightarrow> False | Diverge \<Rightarrow> False | _ \<Rightarrow> True) then (as_failure tip, d)
      else
        case bind_result (wrap_err ''failed to create coinbase tx''
                            (NewCoinbaseTX P (Ok []) address genesisCoinbaseData))
               (NewGenesisBlock P now) of
          Ok genesis \<Rightarrow>
            (case SaveBlockAndTip S (Hash genesis) (Serialize P genesis) d of
               (Ok _, d') \<Rightarrow> (Ok \<lparr>tip = Hash genesis, db = d'\<rparr>, d')
             | (r, d') \<Rightarrow> (wrap_err ''failed to save genesis block'' (as_failure r), d'))
        | r \<Rightarrow> (as_failure r, d))"

definition NewBlockchain :: "'s Storage \<Rightarrow> 's \<Rightarrow> 's Blockchain result" where
  "NewBlockchain S d =
     (case GetTip S d of
        Ok t \<Rightarrow> Ok \<lparr>tip = t, db = d\<rparr>
      | Error e \<Rightarrow>
          if errors_Is e ErrNotFound
          then Error (ErrMsg ''no existing blockchain found, create one first'')
          else Error (Wrap ''failed to get tip'' e)
      | r \<Rightarrow> as_failure r)"

definition BC_GetBlock :: "Prims \<Rightarrow> 's Storage \<Rightarrow> 's \<Rightarrow> bytes \<Rightarrow> Block result" where
  "BC_GetBlock P S d blockHash = bind_result (GetBlock S blockHash d) (DeserializeBlock P)"

definition GetBestHeight :: "Prims \<Rightarrow> 's Storage \<Rightarrow> 's Blockchain \<Rightarrow> int64 result" where
  "GetBestHeight P S bc =
     bind_result (GetTip S (db bc)) (\<lambda>tip.
     bind_result (GetBlock S tip (db bc)) (\<lambda>blockData.
     bind_result (DeserializeBlock P blockData) (\<lambda>lastBlock. Ok (Height lastBlock))))"

text \<open>The consensus check of \<^verbatim>\<open>AddBlock\<close>: authority signature if there is one, else work.\<close>

definition block_sealed :: "Prims \<Rightarrow> authorizedKeys \<Rightarrow> Block \<Rightarrow> unit result" where
  "block_sealed P keys block =
     (if AuthoritySignature block \<noteq> [] then
        bind_result (VerifyPoABlock P keys block) (\<lambda>ok.
          if ok then Ok ()
          else Error (ErrMsg ''invalid block: proof-of-authority signature verification failed''))
      else
        bind_result (NewProofOfWork block) (\<lambda>pow.
        bind_result (Validate P pow) (\<lambda>ok.
          if ok then Ok () else Error (ErrMsg ''invalid block: proof-of-work failed''))))"

text \<open>The reads of \<^verbatim>\<open>AddBlock\<close> and \<^verbatim>\<open>MineBlock\<close>: the tip and the block it names.\<close>

definition last_block :: "Prims \<Rightarrow> 's Storage \<Rightarrow> 's \<Rightarrow> (bytes \<times> Block) result" where
  "last_block P S d =
     bind_result (wrap_err ''failed to get tip'' (GetTip S d)) (\<lambda>lastHash.
     bind_result (wrap_err ''failed to get last block'' (GetBlock S lastHash d)) (\<lambda>lastBlockData.
     bind_result (wrap_err ''failed to deserialize last block'' (DeserializeBlock P lastBlockData))
       (\<lambda>lastBlock. Ok (lastHash, lastBlock))))"

definition AddBlock ::
    "Prims \<Rightarrow> 's Storage \<Rightarrow> authorizedKeys \<Rightarrow> Block \<Rightarrow> 's Blockchain \<Rightarrow> unit result \<times> 's Blockchain" where
  "AddBlock P S keys block bc =
     (case GetBlock S (Hash block) (db bc) of
        Ok _ \<Rightarrow> (Ok (), bc)
      | Error _ \<Rightarrow>
          (case block_sealed P keys block of
             Ok _ \<Rightarrow>
               (let blockData = Serialize P block in
                if blockData = [] then (Error (ErrMsg ''failed to serialize block''), bc)
                else
                  case last_block P S (db bc) of
                    Ok (lastHash, lastBlock) \<Rightarrow>
                      if sint (Height block) > sint (Height lastBlock) then
                        (case SaveBlockAndTip S (Hash block) blockData (db bc) of
                           (Ok _, d') \<Rightarrow> (Ok (), bc\<lparr>db := d', tip := Hash block\<rparr>)
                         | (r, d') \<Rightarrow> (wrap_err ''failed to save block and tip'' (as_failure r), bc\<lparr>db := d'\<rparr>))
                      else
                        (case SaveBlock S (Hash block) blockData (db bc) of
                           (Ok _, d') \<Rightarrow> (Ok (), bc\<lparr>db := d'\<rparr>)
                         | (r, d') \<Rightarrow> (wrap_err ''failed to save block'' (as_failure r), bc\<lparr>db := d'\<rparr>))
                  | r \<Rightarrow> (as_failure r, bc))
           | r \<Rightarrow> (as_failure r, bc))
      | r \<Rightarrow> (as_failure r, bc))"

lemma block_sealed_Ok:
  "block_sealed P keys b = Ok () \<longleftrightarrow>
     (if AuthoritySignature b \<noteq> [] then VerifyPoABlock P keys b = Ok True
      else unat (256 - eff_bits b) < 2 ^ 51 \<and> pow_valid P b)"
proof (cases "AuthoritySignature b \<noteq> []")
  case True
  then show ?thesis by (auto simp: block_sealed_def bind_result_eq_Ok)
next
  case False
  then have "block_sealed P keys b = bind_result (bind_result (NewProofOfWork b) (Validate P))
      (\<lambda>ok. if ok then Ok () else Error (ErrMsg ''invalid block: proof-of-work failed''))"
    by (simp add: block_sealed_def bind_result_assoc)
  then show ?thesis using False unfolding Validate_NewProofOfWork by auto
qed

section \<open>Iteration\<close>

text \<open>\<open>yield\<close> updates the variables the loop body captures and tells whether to go on.\<close>

partial_function (option) blocks_iter ::
    "Prims \<Rightarrow> 's Storage \<Rightarrow> 's \<Rightarrow> (Block \<Rightarrow> 'a \<Rightarrow> 'a \<times> bool) \<Rightarrow> bytes \<Rightarrow> 'a \<Rightarrow> 'a result option" where
  "blocks_iter P S d yield currentHash acc =
     (if currentHash = [] then Some (Ok acc)
      else case GetBlock S currentHash d of
        Ok blockData \<Rightarrow>
          (case DeserializeBlock P blockData of
             Ok block \<Rightarrow>
               (if snd (yield block acc)
                then blocks_iter P S d yield (PrevBlockHash block) (fst (yield block acc))
                else Some (Ok (fst (yield block acc))))
           | Error e \<Rightarrow> Some (Ok acc)
           | r \<Rightarrow> Some (as_failure r))
      | Error e \<Rightarrow> Some (Ok acc)
      | r \<Rightarrow> Some (as_failure r))"

definition Blocks ::
    "Prims \<Rightarrow> 's Storage \<Rightarrow> 's Blockchain \<Rightarrow> (Block \<Rightarrow> 'a \<Rightarrow> 'a \<times> bool) \<Rightarrow> 'a \<Rightarrow> 'a result" where
  "Blocks P S bc yield acc =
     (case blocks_iter P S (db bc) yield (tip bc) acc of Some r \<Rightarrow> r | None \<Rightarrow> Diverge)"

definition FindTransaction :: "Prims \<Rightarrow> 's Storage \<Rightarrow> 's Blockchain \<Rightarrow> bytes \<Rightarrow> Transaction result" where
  "FindTransaction P S bc txID =
     bind_result
       (Blocks P S bc (\<lambda>block found.
          case find (\<lambda>tx. ID tx = txID) (Transactions block) of
            Some tx \<Rightarrow> (Some tx, False)
          | None \<Rightarrow> (found, True)) None)
       (\<lambda>found. case found of
          Some tx \<Rightarrow> Ok tx
        | None \<Rightarrow> Error (ErrMsg ''transaction not found''))"

definition GetBlockHashes :: "Prims \<Rightarrow> 's Storage \<Rightarrow> 's Blockchain \<Rightarrow> bytes list result" where
  "GetBlockHashes P S bc = Blocks P S bc (\<lambda>block blocks. (blocks @ [Hash block], True)) []"

text \<open>
  The maps of \<^verbatim>\<open>FindUTXO\<close>: collected outputs by hexadecimal transaction id, and spent indices.
\<close>

type_synonym utxo_map = "(string \<times> TXOutput list) list"
type_synonym spent_map = "string \<Rightarrow> int64 list"

fun utxo_outputs :: "string \<Rightarrow> int64 list \<Rightarrow> (nat \<times> TXOutput) list \<Rightarrow> utxo_map \<Rightarrow> utxo_map" where
  "utxo_outputs txID spent [] UTXO = UTXO"
| "utxo_outputs txID spent ((outIdx, out) # outs) UTXO =
     (if \<exists>spentOutIdx \<in> set spent. spentOutIdx = of_nat outIdx
      then utxo_outputs txID spent outs UTXO
      else utxo_outputs txID spent outs (alist_append txID out UTXO))"

fun mark_spent :: "TXInput list \<Rightarrow> spent_map \<Rightarrow> spent_map" where
  "mark_spent [] spent = spent"
| "mark_spent (vin # vins) spent =
     mark_spent vins (spent(hex_encode (Txid vin) := spent (hex_encode (Txid vin)) @ [Vout_in vin]))"

definition utxo_step :: "Transaction \<Rightarrow> utxo_map \<times> spent_map \<Rightarrow> utxo_map \<times> spent_map" where
  "utxo_step tx = (\<lambda>(UTXO, spentTXOs).
     let txID = hex_encode (ID tx) in
     (utxo_outputs txID (spentTXOs txID) (indexed (Vout tx)) UTXO,
      if \<not> IsCoinbase tx then mark_spent (Vin tx) spentTXOs else spentTXOs))"

definition FindUTXO :: "Prims \<Rightarrow> 's Storage \<Rightarrow> 's Blockchain \<Rightarrow> utxo_map result" where
  "FindUTXO P S bc =
     bind_result (Blocks P S bc (\<lambda>block st. (fold utxo_step (Transactions block) st, True)) ([], \<lambda>_. []))
       (\<lambda>(UTXO, spentTXOs). Ok UTXO)"

section \<open>Transactions against the chain\<close>

fun collect_prev :: "Prims \<Rightarrow> 's Storage \<Rightarrow> 's Blockchain \<Rightarrow> TXInput list \<Rightarrow> prevTXs \<Rightarrow> prevTXs result" where
  "collect_prev P S bc [] prevTXs = Ok prevTXs"
| "collect_prev P S bc (vin # vins) prevTXs =
     bind_result (wrap_err ''failed to find previous transaction'' (FindTransaction P S bc (Txid vin)))
       (\<lambda>prevTX. collect_prev P S bc vins (prevTXs(hex_encode (ID prevTX) \<mapsto> prevTX)))"

definition SignTransaction ::
    "Prims \<Rightarrow> 's Storage \<Rightarrow> 's Blockchain \<Rightarrow> (nat \<Rightarrow> nat) \<Rightarrow> Transaction \<Rightarrow> PrivateKey \<Rightarrow>
     unit result \<times> Transaction" where
  "SignTransaction P S bc rnd tx privKey =
     (case collect_prev P S bc (Vin tx) Map.empty of
        Ok prevTXs \<Rightarrow> Sign P privKey rnd prevTXs tx
      | r \<Rightarrow> (as_failure r, tx))"

definition VerifyTransaction :: "Prims \<Rightarrow> 's Storage \<Rightarrow> 's Blockchain \<Rightarrow> Transaction \<Rightarrow> bool result" where
  "VerifyTransaction P S bc tx =
     (if IsCoinbase tx then Ok True
      else
        bind_result (collect_prev P S bc (Vin tx) Map.empty) (\<lambda>prevTXs.
        bind_result (wrap_err ''failed to get blockchain height'' (GetBestHeight P S bc)) (\<lambda>bestHeight.
          Verify P prevTXs bestHeight tx)))"

section \<open>Mining\<close>

fun verify_all :: "Prims \<Rightarrow> 's Storage \<Rightarrow> 's Blockchain \<Rightarrow> Transaction list \<Rightarrow> unit result" where
  "verify_all P S bc [] = Ok ()"
| "verify_all P S bc (tx # txs) =
     bind_result (wrap_err ''error verifying transaction'' (VerifyTransaction P S bc tx)) (\<lambda>valid.
       if \<not> valid then Error (ErrMsg ''invalid transaction'') else verify_all P S bc txs)"

lemma verify_all_Ok:
  "verify_all P S bc txs = Ok () \<longleftrightarrow> list_all (\<lambda>tx. VerifyTransaction P S bc tx = Ok True) txs"
  by (induction txs) (auto simp: bind_result_eq_Ok wrap_err_eq_Ok split: if_splits)

partial_function (option) anchor_loop ::
    "Prims \<Rightarrow> 's Storage \<Rightarrow> 's \<Rightarrow> int64 \<Rightarrow> Block \<Rightarrow> Block result option" where
  "anchor_loop P S d bound anchorBlock =
     (if sint (Height anchorBlock) > sint bound then
        (case wrap_err ''failed to get ancestor block'' (GetBlock S (PrevBlockHash anchorBlock) d) of
           Ok prevBlockData \<Rightarrow>
             (case wrap_err ''failed to deserialize ancestor block'' (DeserializeBlock P prevBlockData) of
                Ok prevBlock \<Rightarrow> anchor_loop P S d bound prevBlock
              | r \<Rightarrow> Some (as_failure r))
         | r \<Rightarrow> Some (as_failure r))
      else Some (Ok anchorBlock))"

definition next_bits :: "Prims \<Rightarrow> 's Storage \<Rightarrow> 's \<Rightarrow> Block \<Rightarrow> int64 result" where
  "next_bits P S d lastBlock =
     (let newBits = (if Bits lastBlock = 0 then targetBits else Bits lastBlock);
          newHeight = Height lastBlock + 1
      in if sint newHeight mod sint difficultyAdjustmentInterval = 0 then
           bind_result (case anchor_loop P S d (newHeight - difficultyAdjustmentInterval) lastBlock of
                          Some r \<Rightarrow> r | None \<Rightarrow> Diverge)
             (\<lambda>anchorBlock. Ok (CalculateNewDifficulty lastBlock anchorBlock))
         else Ok newBits)"

definition MineBlock ::
    "Prims \<Rightarrow> 's Storage \<Rightarrow> ctx \<Rightarrow> int64 \<Rightarrow> Transaction list \<Rightarrow> 's Blockchain \<Rightarrow>
     Block result \<times> 's Blockchain" where
  "MineBlock P S ctx now transactions bc =
     (case bind_result (verify_all P S bc transactions) (\<lambda>_.
           bind_result (last_block P S (db bc)) (\<lambda>(lastHash, lastBlock).
           bind_result (next_bits P S (db bc) lastBlock) (\<lambda>newBits.
             NewBlock P ctx now transactions lastHash (Height lastBlock + 1) newBits))) of
        Ok newBlock \<Rightarrow>
          (case SaveBlockAndTip S (Hash newBlock) (Serialize P newBlock) (db bc) of
             (Ok _, d') \<Rightarrow> (Ok newBlock, bc\<lparr>db := d', tip := Hash newBlock\<rparr>)
           | (r, d') \<Rightarrow> (wrap_err ''failed to save mined block'' (as_failure r), bc\<lparr>db := d'\<rparr>))
      | r \<Rightarrow> (as_failure r, bc))"

section \<open>The blocks a walk meets\<close>

text \<open>
  \<open>chain lk h bs\<close>: the walk from hash \<open>h\<close> meets the blocks \<open>bs\<close> and ends, at an empty hash or at a
  hash for which no block can be read.
\<close>

inductive chain :: "(bytes \<Rightarrow> Block result) \<Rightarrow> bytes \<Rightarrow> Block list \<Rightarrow> bool" for lk where
  chain_Nil: "chain lk [] []"
| chain_miss: "h \<noteq> [] \<Longrightarrow> lk h = Error e \<Longrightarrow> chain lk h []"
| chain_Cons: "h \<noteq> [] \<Longrightarrow> lk h = Ok b \<Longrightarrow> chain lk (PrevBlockHash b) bs \<Longrightarrow> chain lk h (b # bs)"

inductive_cases chain_NilE: "chain lk [] bs"
inductive_cases chain_ConsE: "chain lk h (b # bs)"

text \<open>A loop body run over a finite list of blocks.\<close>

fun run_blocks :: "(Block \<Rightarrow> 'a \<Rightarrow> 'a \<times> bool) \<Rightarrow> Block list \<Rightarrow> 'a \<Rightarrow> 'a" where
  "run_blocks yield [] acc = acc"
| "run_blocks yield (b # bs) acc =
     (if snd (yield b acc) then run_blocks yield bs (fst (yield b acc)) else fst (yield b acc))"

lemma BC_GetBlock_Ok:
  "BC_GetBlock P S d h = Ok b \<longleftrightarrow> (\<exists>x. GetBlock S h d = Ok x \<and> DeserializeBlock P x = Ok b)"
  by (simp add: BC_GetBlock_def bind_result_eq_Ok)

lemma blocks_iter_chain:
  "chain (BC_GetBlock P S d) h bs \<Longrightarrow> blocks_iter P S d yield h acc = Some (Ok (run_blocks yield bs acc))"
proof (induction h bs arbitrary: acc rule: chain.induct)
  case chain_Nil
  then show ?case by (simp add: blocks_iter.simps)
next
  case (chain_miss h e)
  then show ?case
    by (subst blocks_iter.simps, cases "GetBlock S h d")
      (auto simp: BC_GetBlock_def split: result.splits)
next
  case (chain_Cons h b bs)
  then obtain x where "GetBlock S h d = Ok x" "DeserializeBlock P x = Ok b"
    by (auto simp: BC_GetBlock_Ok)
  with chain_Cons show ?case by (subst blocks_iter.simps) simp
qed

lemma Blocks_chain:
  "chain (BC_GetBlock P S (db bc)) (tip bc) bs \<Longrightarrow> Blocks P S bc yield acc = Ok (run_blocks yield bs acc)"
  by (simp add: Blocks_def blocks_iter_chain)

text \<open>A loop body that always goes on is a fold.\<close>

lemma run_blocks_fold: "run_blocks (\<lambda>b acc. (f b acc, True)) bs acc = fold f bs acc"
  by (induction bs arbitrary: acc) auto

definition chain_txs :: "Block list \<Rightarrow> Transaction list" where
  "chain_txs bs = concat (map Transactions bs)"

lemma FindTransaction_chain:
  assumes "chain (BC_GetBlock P S (db bc)) (tip bc) bs"
  shows "FindTransaction P S bc txID =
    (case find (\<lambda>tx. ID tx = txID) (chain_txs bs) of
       Some tx \<Rightarrow> Ok tx | None \<Rightarrow> Error (ErrMsg ''transaction not found''))"
proof -
  let ?f = "\<lambda>block found. case find (\<lambda>tx. ID tx = txID) (Transactions block) of
            Some tx \<Rightarrow> (Some tx, False) | None \<Rightarrow> (found, True)"
  have fa: "find Q (xs @ ys) = (case find Q xs of Some x \<Rightarrow> Some x | None \<Rightarrow> find Q ys)"
    for Q xs and ys :: "Transaction list" by (induction xs) auto
  have "run_blocks ?f bs None = find (\<lambda>tx. ID tx = txID) (chain_txs bs)"
    by (induction bs) (auto simp: chain_txs_def fa split: option.split)
  then show ?thesis
    unfolding FindTransaction_def Blocks_chain [OF assms] by simp
qed

lemma GetBlockHashes_chain:
  assumes "chain (BC_GetBlock P S (db bc)) (tip bc) bs"
  shows "GetBlockHashes P S bc = Ok (map Hash bs)"
proof -
  have "fold (\<lambda>b acc. acc @ [Hash b]) bs acc = acc @ map Hash bs" for acc
    by (induction bs arbitrary: acc) auto
  then show ?thesis
    unfolding GetBlockHashes_def Blocks_chain [OF assms] run_blocks_fold by simp
qed

lemma FindUTXO_chain:
  assumes "chain (BC_GetBlock P S (db bc)) (tip bc) bs"
  shows "FindUTXO P S bc = Ok (fst (fold utxo_step (chain_txs bs) ([], \<lambda>_. [])))"
proof -
  have "fold (\<lambda>b. fold utxo_step (Transactions b)) bs st = fold utxo_step (chain_txs bs) st" for st
    by (induction bs arbitrary: st) (auto simp: chain_txs_def)
  then show ?thesis
    unfolding FindUTXO_def Blocks_chain [OF assms] run_blocks_fold by (simp add: case_prod_beta)
qed

text \<open>A walk that comes back to the same block and goes on has no result.\<close>

lemma blocks_iter_cycle:
  assumes b: "BC_GetBlock P S d h = Ok b" and p: "PrevBlockHash b = h" and ne: "h \<noteq> []"
    and go: "\<And>acc. snd (yield b acc)"
  shows "blocks_iter P S d yield h acc = None"
proof (rule ccontr)
  assume "blocks_iter P S d yield h acc \<noteq> None"
  then obtain y where y: "blocks_iter P S d yield h acc = Some y" by blast
  obtain x where x: "GetBlock S h d = Ok x" "DeserializeBlock P x = Ok b"
    using b by (auto simp: BC_GetBlock_Ok)
  let ?Q = "\<lambda>a y. fst a \<noteq> ((((P, S), d), yield), h)"
  have "?Q (((((P, S), d), yield), h), acc) y"
  proof (rule blocks_iter.raw_induct [where Pa = ?Q, OF _ y])
    fix it P' S' d' h' y
      and yield' :: "Block \<Rightarrow> 'b \<Rightarrow> 'b \<times> bool" and acc' :: 'b
    assume IH: "\<And>P' S' d' yield' h' acc' y. it P' S' d' yield' h' acc' = Some y \<Longrightarrow>
        ?Q (((((P', S'), d'), yield'), h'), acc') y"
      and eq: "(if h' = [] then Some (Ok acc')
      else case GetBlock S' h' d' of
        Ok blockData \<Rightarrow>
          (case DeserializeBlock P' blockData of
             Ok block \<Rightarrow>
               (if snd (yield' block acc')
                then it P' S' d' yield' (PrevBlockHash block) (fst (yield' block acc'))
                else Some (Ok (fst (yield' block acc'))))
           | Error e \<Rightarrow> Some (Ok acc')
           | r \<Rightarrow> Some (as_failure r))
      | Error e \<Rightarrow> Some (Ok acc')
      | r \<Rightarrow> Some (as_failure r)) = Some y"
    show "?Q (((((P', S'), d'), yield'), h'), acc') y"
    proof
      assume "fst (((((P', S'), d'), yield'), h'), acc') = ((((P, S), d), yield), h)"
      then have a: "P' = P" "S' = S" "d' = d" "yield' = yield" "h' = h" by simp_all
      have "it P S d yield h (fst (yield b acc')) = Some y"
        using eq ne x p go unfolding a by simp
      from IH [OF this] show False by simp
    qed
  qed
  then show False by simp
qed

text \<open>The walk from a hash is unique.\<close>

lemma chain_det: "chain lk h bs \<Longrightarrow> chain lk h bs' \<Longrightarrow> bs = bs'"
proof (induction h bs arbitrary: bs' rule: chain.induct)
  case (chain_Cons h b bs)
  from chain_Cons.prems chain_Cons.hyps(1,2) chain_Cons.IH show ?case
    by (cases rule: chain.cases) auto
qed (auto elim: chain.cases)

text \<open>
  A well-formed chain: every block is filed under its hash, the heights count down to the
  genesis block, which has height 0 and no predecessor.
\<close>

inductive good_chain :: "(bytes \<Rightarrow> Block result) \<Rightarrow> bytes \<Rightarrow> Block list \<Rightarrow> bool" for lk where
  good_genesis: "h \<noteq> [] \<Longrightarrow> lk h = Ok b \<Longrightarrow> Hash b = h \<Longrightarrow> PrevBlockHash b = [] \<Longrightarrow> Height b = 0 \<Longrightarrow>
    good_chain lk h [b]"
| good_step: "h \<noteq> [] \<Longrightarrow> lk h = Ok b \<Longrightarrow> Hash b = h \<Longrightarrow> good_chain lk (PrevBlockHash b) (c # bs) \<Longrightarrow>
    sint (Height b) = sint (Height c) + 1 \<Longrightarrow> good_chain lk h (b # c # bs)"

lemma good_chain_chain: "good_chain lk h bs \<Longrightarrow> chain lk h bs"
proof (induction rule: good_chain.induct)
  case (good_genesis h b)
  then show ?case using chain_Cons [of h lk b "[]"] chain_Nil by simp
qed (rule chain_Cons)

lemma good_chain_hd: "good_chain lk h bs \<Longrightarrow> \<exists>b bs'. bs = b # bs' \<and> lk h = Ok b \<and> Hash b = h \<and> h \<noteq> []"
  by (induction rule: good_chain.induct) auto

text \<open>It only depends on the blocks filed under the hashes of the chain.\<close>

lemma good_chain_cong:
  "good_chain lk h bs \<Longrightarrow> (\<And>b. b \<in> set bs \<Longrightarrow> lk' (Hash b) = lk (Hash b)) \<Longrightarrow> good_chain lk' h bs"
proof (induction rule: good_chain.induct)
  case (good_genesis h b)
  then show ?case by (auto intro!: good_chain.good_genesis)
next
  case (good_step h b c bs)
  have "lk' h = Ok b" using good_step.prems [of b] good_step.hyps(2,3) by simp
  moreover have "good_chain lk' (PrevBlockHash b) (c # bs)"
    using good_step.prems by (intro good_step.IH) auto
  ultimately show ?case using good_step.hyps by (intro good_chain.good_step) auto
qed

lemma good_chain_lookup: "good_chain lk h bs \<Longrightarrow> c \<in> set bs \<Longrightarrow> lk (Hash c) = Ok c"
  by (induction rule: good_chain.induct) auto

text \<open>Heights along a well-formed chain, hence no block twice.\<close>

lemma good_chain_height:
  "good_chain lk h bs \<Longrightarrow> i < length bs \<Longrightarrow> sint (Height (bs ! i)) = int (length bs) - 1 - int i"
proof (induction arbitrary: i rule: good_chain.induct)
  case (good_step h b c bs)
  show ?case
  proof (cases i)
    case 0
    then show ?thesis using good_step.hyps good_step.IH [of 0] by simp
  next
    case (Suc j)
    then show ?thesis using good_step.IH [of j] good_step.prems by simp
  qed
qed simp

lemma good_chain_distinct:
  assumes "good_chain lk h bs"
  shows "distinct bs"
proof -
  have "bs ! i \<noteq> bs ! j" if "i < length bs" "j < length bs" "i \<noteq> j" for i j
  proof
    assume "bs ! i = bs ! j"
    then have "int (length bs) - 1 - int i = int (length bs) - 1 - int j"
      using good_chain_height [OF assms that(1)] good_chain_height [OF assms that(2)] by metis
    then show False using that(3) by simp
  qed
  then show ?thesis by (simp add: distinct_conv_nth)
qed

section \<open>The blockchain over a storage that keeps its contract\<close>

text \<open>The cached tip is the stored one.\<close>

definition bc_synced :: "('s \<Rightarrow> bool) \<Rightarrow> ('s \<Rightarrow> bytes option) \<Rightarrow> 's Blockchain \<Rightarrow> bool" where
  "bc_synced dbinv dbtip bc \<longleftrightarrow> dbinv (db bc) \<and> dbtip (db bc) = Some (tip bc)"

context storage
begin

lemma BC_GetBlock_eq:
  "inv s \<Longrightarrow> okh h \<Longrightarrow>
     BC_GetBlock P S s h = (case blk s h of None \<Rightarrow> Error ErrNotFound | Some d \<Rightarrow> DeserializeBlock P d)"
  by (simp add: BC_GetBlock_def get_block split: option.split)

lemma last_block_eq:
  assumes "inv s" and "tipv s = Some h" and "BC_GetBlock P S s h = Ok b"
  shows "last_block P S s = Ok (h, b)"
  using assms by (auto simp: last_block_def get_tip BC_GetBlock_Ok)

lemma GetBestHeight_eq:
  assumes "bc_synced inv tipv bc" and "BC_GetBlock P S (db bc) (tip bc) = Ok b"
  shows "GetBestHeight P S bc = Ok (Height b)"
  using assms by (auto simp: GetBestHeight_def bc_synced_def get_tip BC_GetBlock_Ok)

text \<open>Saving a block under a new hash leaves the other blocks readable.\<close>

lemma BC_GetBlock_after_save:
  assumes "inv s'" and "inv s" and "blk s' = (blk s)(h \<mapsto> Serialize P b)" and "gob_ok P" and "okh h'"
  shows "BC_GetBlock P S s' h' = (if h' = h then Ok b else BC_GetBlock P S s h')"
  using assms DeserializeBlock_Serialize [OF assms(4)] by (auto simp: BC_GetBlock_eq)

text \<open>
  \<open>AddBlock\<close> on every branch: a known block changes nothing and neither does any failure; a
  success stores a sealed block, and moves the tip exactly when it is higher than the tip.
\<close>

lemma AddBlock_cases:
  assumes bc: "bc_synced inv tipv bc" and ok: "okh (Hash b)" and res: "AddBlock P S keys b bc = (r, bc')"
    and last: "BC_GetBlock P S (db bc) (tip bc) = Ok lastB"
  shows "if blk (db bc) (Hash b) \<noteq> None then r = Ok () \<and> bc' = bc
    else if r \<noteq> Ok () then bc' = bc
    else block_sealed P keys b = Ok () \<and> bc_synced inv tipv bc' \<and>
      blk (db bc') = (blk (db bc))(Hash b \<mapsto> Serialize P b) \<and> utxo (db bc') = utxo (db bc) \<and>
      tip bc' = (if sint (Height b) > sint (Height lastB) then Hash b else tip bc)"
proof (cases "blk (db bc) (Hash b)")
  case (Some d)
  then show ?thesis using bc ok res by (simp add: AddBlock_def get_block bc_synced_def)
next
  case None
  have inv: "inv (db bc)" "tipv (db bc) = Some (tip bc)" using bc by (auto simp: bc_synced_def)
  have gb: "GetBlock S (Hash b) (db bc) = Error ErrNotFound" using None inv ok by (simp add: get_block)
  note lb = last_block_eq [OF inv last]
  show ?thesis
  proof (cases "block_sealed P keys b = Ok () \<and> Serialize P b \<noteq> []")
    case False
    then have "r \<noteq> Ok () \<and> bc' = bc"
      using res gb by (cases "block_sealed P keys b") (auto simp: AddBlock_def)
    then show ?thesis using None by simp
  next
    case True
    show ?thesis
    proof (cases "sint (Height b) > sint (Height lastB)")
      case high: True
      obtain r1 d1 where sv: "SaveBlockAndTip S (Hash b) (Serialize P b) (db bc) = (r1, d1)" by force
      with res gb True lb high have "r = (case r1 of Ok _ \<Rightarrow> Ok () | _ \<Rightarrow> wrap_err ''failed to save block and tip'' (as_failure r1))"
        "bc' = (case r1 of Ok _ \<Rightarrow> bc\<lparr>db := d1, tip := Hash b\<rparr> | _ \<Rightarrow> bc\<lparr>db := d1\<rparr>)"
        by (auto simp: AddBlock_def split: result.splits)
      with save_block_and_tip [OF inv(1) ok sv] None True high show ?thesis
        by (auto simp: bc_synced_def)
    next
      case low: False
      obtain r1 d1 where sv: "SaveBlock S (Hash b) (Serialize P b) (db bc) = (r1, d1)" by force
      with res gb True lb low have "r = (case r1 of Ok _ \<Rightarrow> Ok () | _ \<Rightarrow> wrap_err ''failed to save block'' (as_failure r1))"
        "bc' = bc\<lparr>db := d1\<rparr>"
        by (auto simp: AddBlock_def split: result.splits)
      with save_block [OF inv(1) ok sv] inv(2) None True low show ?thesis
        by (auto simp: bc_synced_def)
    qed
  qed
qed

text \<open>The search for the anchor block ends on a well-formed chain.\<close>

lemma anchor_loop_good:
  "good_chain (BC_GetBlock P S s) h bs \<Longrightarrow> 0 \<le> sint bound \<Longrightarrow>
     \<exists>a \<in> set bs. anchor_loop P S s bound (hd bs) = Some (Ok a) \<and> sint (Height a) \<le> sint bound"
proof (induction rule: good_chain.induct)
  case (good_genesis h b)
  then show ?case by (subst anchor_loop.simps) simp
next
  case (good_step h b c bs)
  show ?case
  proof (cases "sint (Height b) > sint bound")
    case True
    have "BC_GetBlock P S s (PrevBlockHash b) = Ok c"
      using good_chain_hd [OF good_step.hyps(4)] by auto
    then have "anchor_loop P S s bound b = anchor_loop P S s bound c"
      using True by (subst anchor_loop.simps) (auto simp: BC_GetBlock_Ok)
    then show ?thesis using good_step.IH good_step.prems by auto
  next
    case False
    then show ?thesis by (subst anchor_loop.simps) simp
  qed
qed

text \<open>
  The bits of the next block: \<open>MineBlock\<close> asks for an adjustment when the new height is a
  multiple of ten, \<open>CalculateNewDifficulty\<close> only adjusts when the last height is one, so the bits
  are those of the last block.
\<close>

lemma next_bits_good:
  assumes "good_chain (BC_GetBlock P S s) h (b # bs)" and "sint (Height b) < 2 ^ 63 - 1"
  shows "next_bits P S s b = Ok (Bits b) \<or> next_bits P S s b = Ok (eff_bits b)"
proof (cases "sint (Height b + 1) mod 10 = 0")
  case True
  have h0: "0 \<le> sint (Height b)" using good_chain_height [OF assms(1), of 0] by simp
  have h1: "sint (Height b + 1) = sint (Height b) + 1" using assms(2) h0 by (subst sint_add64) auto
  have h10: "10 \<le> sint (Height b + 1)" using True h0 h1 by presburger
  then have "sint (Height b + 1 - 10) = sint (Height b + 1) - 10"
    using sint_range64 [of "Height b + 1"] by (subst sint_sub64) auto
  then obtain a where "anchor_loop P S s (Height b + 1 - 10) b = Some (Ok a)"
    using anchor_loop_good [OF assms(1), of "Height b + 1 - 10"] h10 by auto
  moreover have "sint (Height b) mod 10 \<noteq> 0" using True h1 by presburger
  ultimately show ?thesis
    using True by (simp add: next_bits_def difficultyAdjustmentInterval_def CalculateNewDifficulty_def Let_def)
next
  case False
  then show ?thesis by (simp add: next_bits_def difficultyAdjustmentInterval_def eff_bits_def)
qed

lemma NewBlock_eff_bits:
  "NewBlock P ctx now txs prev height (Bits b) = NewBlock P ctx now txs prev height (eff_bits b)"
  by (simp add: NewBlock_def eff_bits_def targetBits_def)

lemma MineBlock_cases:
  assumes bc: "bc_synced inv tipv bc" and sha: "sha256_ok P" and okh: "\<And>h. length h = 32 \<Longrightarrow> okh h"
    and good: "good_chain (BC_GetBlock P S (db bc)) (tip bc) (b # bs)"
    and max: "sint (Height b) < 2 ^ 63 - 1" and res: "MineBlock P S ctx now txs bc = (r, bc')"
  shows "(\<exists>nb. r = Ok nb \<and> verify_all P S bc txs = Ok () \<and>
      NewBlock P ctx now txs (tip bc) (Height b + 1) (eff_bits b) = Ok nb \<and> okh (Hash nb) \<and>
      bc_synced inv tipv bc' \<and> tip bc' = Hash nb \<and> blk (db bc') = (blk (db bc))(Hash nb \<mapsto> Serialize P nb) \<and>
      utxo (db bc') = utxo (db bc)) \<or> (\<not> is_Ok r \<and> bc' = bc)"
proof -
  have inv: "inv (db bc)" "tipv (db bc) = Some (tip bc)" using bc by (auto simp: bc_synced_def)
  have lb: "last_block P S (db bc) = Ok (tip bc, b)"
    using last_block_eq [OF inv] good_chain_hd [OF good] by auto
  have nbits: "bind_result (next_bits P S (db bc) b) (NewBlock P ctx now txs (tip bc) (Height b + 1)) =
      NewBlock P ctx now txs (tip bc) (Height b + 1) (eff_bits b)"
    using next_bits_good [OF good max] by (auto simp: NewBlock_eff_bits)
  let ?m = "bind_result (verify_all P S bc txs)
      (\<lambda>_. NewBlock P ctx now txs (tip bc) (Height b + 1) (eff_bits b))"
  have mine: "MineBlock P S ctx now txs bc = (case ?m of
        Ok newBlock \<Rightarrow>
          (case SaveBlockAndTip S (Hash newBlock) (Serialize P newBlock) (db bc) of
             (Ok _, d') \<Rightarrow> (Ok newBlock, bc\<lparr>db := d', tip := Hash newBlock\<rparr>)
           | (r, d') \<Rightarrow> (wrap_err ''failed to save mined block'' (as_failure r), bc\<lparr>db := d'\<rparr>))
      | r \<Rightarrow> (as_failure r, bc))"
    unfolding MineBlock_def lb using nbits by simp
  show ?thesis
  proof (cases ?m)
    case (Ok nb)
    then have vb: "verify_all P S bc txs = Ok ()"
      "NewBlock P ctx now txs (tip bc) (Height b + 1) (eff_bits b) = Ok nb"
      by (auto simp: bind_result_eq_Ok)
    have ok: "okh (Hash nb)" using NewBlock_OkD(8) [OF vb(2) sha] okh by simp
    obtain r1 d1 where sv: "SaveBlockAndTip S (Hash nb) (Serialize P nb) (db bc) = (r1, d1)" by force
    have "r = (case r1 of Ok _ \<Rightarrow> Ok nb | _ \<Rightarrow> wrap_err ''failed to save mined block'' (as_failure r1))"
      "bc' = (case r1 of Ok _ \<Rightarrow> bc\<lparr>db := d1, tip := Hash nb\<rparr> | _ \<Rightarrow> bc\<lparr>db := d1\<rparr>)"
      using res unfolding mine Ok by (auto simp: sv split: result.splits)
    with save_block_and_tip [OF inv(1) ok sv] vb ok show ?thesis by (auto simp: bc_synced_def)
  next
    case (Error e)
    show ?thesis by (rule disjI2) (use res in \<open>auto simp: mine Error\<close>)
  next
    case (Panic e)
    show ?thesis by (rule disjI2) (use res in \<open>auto simp: mine Panic\<close>)
  next
    case Diverge
    show ?thesis by (rule disjI2) (use res in \<open>auto simp: mine Diverge\<close>)
  qed
qed

text \<open>A block that is saved on top of a well-formed chain, under a hash that was free, extends it.\<close>

lemma save_extends_chain:
  assumes "inv s" and "inv s'" and "blk s' = (blk s)(Hash nb \<mapsto> Serialize P nb)" and "gob_ok P" and ok: "okh (Hash nb)" "Hash nb \<noteq> []"
    and good: "good_chain (BC_GetBlock P S s) (PrevBlockHash nb) (b # bs)" and oks: "\<forall>c \<in> set (b # bs). okh (Hash c)"
    and fresh: "blk s (Hash nb) = None" and "sint (Height nb) = sint (Height b) + 1"
  shows "good_chain (BC_GetBlock P S s') (Hash nb) (nb # b # bs)"
proof -
  note lk = BC_GetBlock_after_save [OF assms(2,1,3,4)]
  have "Hash c \<noteq> Hash nb" if "c \<in> set (b # bs)" for c
    using good_chain_lookup [OF good that] that fresh oks assms(1) by (force simp: BC_GetBlock_eq)
  then have "good_chain (BC_GetBlock P S s') (PrevBlockHash nb) (b # bs)"
    using oks by (intro good_chain_cong [OF good]) (auto simp: lk)
  then show ?thesis using ok lk [OF ok(1)] assms(10) by (intro good_step) auto
qed

text \<open>Mining extends a well-formed chain, unless the hash of the new block is taken.\<close>

lemma MineBlock_good_chain:
  assumes bc: "bc_synced inv tipv bc" and sha: "sha256_ok P" and gob: "gob_ok P" and okh: "\<And>h. length h = 32 \<Longrightarrow> okh h"
    and good: "good_chain (BC_GetBlock P S (db bc)) (tip bc) (b # bs)" and oks: "\<forall>c \<in> set (b # bs). okh (Hash c)"
    and max: "sint (Height b) < 2 ^ 63 - 1" and res: "MineBlock P S ctx now txs bc = (Ok nb, bc')"
    and fresh: "blk (db bc) (Hash nb) = None"
  shows "bc_synced inv tipv bc' \<and> good_chain (BC_GetBlock P S (db bc')) (tip bc') (nb # b # bs) \<and>
     Transactions nb = txs \<and> Bits nb = eff_bits b \<and> tip bc' = Hash nb \<and> okh (Hash nb)"
proof -
  have m: "NewBlock P ctx now txs (tip bc) (Height b + 1) (eff_bits b) = Ok nb" "okh (Hash nb)"
    "bc_synced inv tipv bc'" "tip bc' = Hash nb" "blk (db bc') = (blk (db bc))(Hash nb \<mapsto> Serialize P nb)"
    using MineBlock_cases [OF bc sha okh good max res] by auto
  note d = NewBlock_OkD [OF m(1)]
  have inv: "inv (db bc)" "inv (db bc')" using bc m(3) by (auto simp: bc_synced_def)
  have "sint (Height nb) = sint (Height b) + 1"
    using max good_chain_height [OF good, of 0] unfolding d(4) by (subst sint_add64) auto
  moreover have "Hash nb \<noteq> []" using d(8) [OF sha] by auto
  ultimately have "good_chain (BC_GetBlock P S (db bc')) (Hash nb) (nb # b # bs)"
    using save_extends_chain [OF inv m(5) gob m(2)] good oks fresh d(3) by simp
  moreover have "Bits nb = eff_bits b" using d(5) by (simp add: eff_bits_def targetBits_def)
  ultimately show ?thesis using m d(2) by simp
qed

text \<open>A new blockchain is a well-formed chain of one block.\<close>

lemma CreateBlockchain_cases:
  assumes inv: "inv s" and sha: "sha256_ok P" and gob: "gob_ok P" and okh: "\<And>h. length h = 32 \<Longrightarrow> okh h"
    and res: "CreateBlockchain P S now address s = (r, s')"
  shows "case tipv s of
      Some h \<Rightarrow> h \<noteq> [] \<longrightarrow> r = Error (ErrMsg ''blockchain already exists'') \<and> s' = s
    | None \<Rightarrow> (\<exists>bc g. r = Ok bc \<and> db bc = s' \<and> bc_synced inv tipv bc \<and> okh (Hash g) \<and>
          good_chain (BC_GetBlock P S s') (tip bc) [g] \<and> length (Transactions g) = 1)
        \<or> (\<not> is_Ok r \<and> s' = s)"
proof (cases "tipv s")
  case (Some h)
  then show ?thesis using res inv by (auto simp: CreateBlockchain_def get_tip Let_def split: if_splits)
next
  case None
  let ?m = "bind_result (wrap_err ''failed to create coinbase tx''
              (NewCoinbaseTX P (Ok []) address genesisCoinbaseData)) (NewGenesisBlock P now)"
  show ?thesis
  proof (cases ?m)
    case (Ok g)
    then obtain cb where "NewGenesisBlock P now cb = Ok g" by (auto simp: bind_result_eq_Ok)
    then have nb: "NewBlock P Background now [cb] [] 0 targetBits = Ok g"
      by (auto simp: NewGenesisBlock_def split: result.splits)
    note d = NewBlock_OkD [OF nb]
    have ok: "okh (Hash g)" "Hash g \<noteq> []" using okh d(8) [OF sha] by auto
    obtain r1 d1 where sv: "SaveBlockAndTip S (Hash g) (Serialize P g) s = (r1, d1)" by force
    have rs: "r = (case r1 of Ok _ \<Rightarrow> Ok \<lparr>tip = Hash g, db = d1\<rparr> | _ \<Rightarrow> wrap_err ''failed to save genesis block'' (as_failure r1))"
      "s' = d1"
      using res None inv Ok sv by (auto simp: CreateBlockchain_def get_tip Let_def split: result.splits)
    from save_block_and_tip [OF inv ok(1) sv] show ?thesis
    proof
      assume a: "r1 = Ok () \<and> inv d1 \<and> blk d1 = (blk s)(Hash g \<mapsto> Serialize P g) \<and> tipv d1 = Some (Hash g) \<and> utxo d1 = utxo s"
      then have "BC_GetBlock P S d1 (Hash g) = Ok g"
        using BC_GetBlock_after_save [OF _ inv _ gob ok(1), of d1 "Hash g" g] by simp
      then have "good_chain (BC_GetBlock P S d1) (Hash g) [g]"
        using ok(2) d(3,4) by (intro good_genesis) auto
      then show ?thesis using rs a d(2) ok(1) None by (auto simp: bc_synced_def)
    qed (use rs None in auto)
  qed (use res None inv in \<open>auto simp: CreateBlockchain_def get_tip Let_def\<close>)
qed

end

section \<open>The unspent outputs\<close>

text \<open>The indices of outputs of transaction \<open>k\<close> that the transactions \<open>ts\<close> spend.\<close>

definition spent_by :: "Transaction list \<Rightarrow> string \<Rightarrow> int64 list" where
  "spent_by ts k =
     concat (map (\<lambda>tx. if IsCoinbase tx then [] else
       map Vout_in (filter (\<lambda>vin. hex_encode (Txid vin) = k) (Vin tx))) ts)"

definition unspent_outs :: "int64 list \<Rightarrow> TXOutput list \<Rightarrow> TXOutput list" where
  "unspent_outs spent outs = map snd (filter (\<lambda>(j, out). of_nat j \<notin> set spent) (indexed outs))"

lemma mark_spent_eq:
  "mark_spent vins sp k = sp k @ map Vout_in (filter (\<lambda>vin. hex_encode (Txid vin) = k) vins)"
  by (induction vins arbitrary: sp) auto

lemma utxo_outputs_get:
  "alist_get (utxo_outputs t spent ios U) k =
     alist_get U k @ (if k = t then map snd (filter (\<lambda>(j, out). of_nat j \<notin> set spent) ios) else [])"
  by (induction t spent ios U rule: utxo_outputs.induct) auto

lemma utxo_outputs_distinct: "distinct (map fst U) \<Longrightarrow> distinct (map fst (utxo_outputs t spent ios U))"
  by (induction t spent ios U rule: utxo_outputs.induct) auto

lemma utxo_step_get:
  "alist_get (fst (utxo_step tx (U, sp))) k =
     alist_get U k @ (if hex_encode (ID tx) = k then unspent_outs (sp k) (Vout tx) else [])"
  "snd (utxo_step tx (U, sp)) k = sp k @ spent_by [tx] k"
  by (auto simp: utxo_step_def Let_def utxo_outputs_get unspent_outs_def mark_spent_eq spent_by_def)

lemma utxo_fold_spent: "snd (fold utxo_step ts st) k = snd st k @ spent_by ts k"
  by (induction ts arbitrary: st) (auto simp: utxo_step_get(2) spent_by_def split: prod.split)

lemma utxo_fold_other:
  "\<forall>tx \<in> set ts. hex_encode (ID tx) \<noteq> k \<Longrightarrow>
     alist_get (fst (fold utxo_step ts st)) k = alist_get (fst st) k"
proof (induction ts arbitrary: st)
  case (Cons tx ts)
  then show ?case using utxo_step_get(1) [of tx "fst st" "snd st" k] by simp
qed simp

lemma utxo_fold_distinct:
  "distinct (map fst (fst st)) \<Longrightarrow> distinct (map fst (fst (fold utxo_step ts st)))"
  by (induction ts arbitrary: st)
    (auto simp: utxo_step_def Let_def utxo_outputs_distinct split: prod.split)

lemma utxo_fold_get:
  assumes "ID tx \<notin> ID ` set (pre @ post)"
  shows "alist_get (fst (fold utxo_step (pre @ tx # post) ([], \<lambda>_. []))) (hex_encode (ID tx)) =
    unspent_outs (spent_by pre (hex_encode (ID tx))) (Vout tx)"
proof -
  let ?k = "hex_encode (ID tx)" and ?s = "fold utxo_step pre ([], \<lambda>_. [])"
  have o: "\<forall>t \<in> set pre. hex_encode (ID t) \<noteq> ?k" "\<forall>t \<in> set post. hex_encode (ID t) \<noteq> ?k"
    using assms by (metis Un_iff hex_encode_inject image_eqI set_append)+
  have "alist_get (fst (fold utxo_step post (utxo_step tx ?s))) ?k = alist_get (fst (utxo_step tx ?s)) ?k"
    by (rule utxo_fold_other [OF o(2)])
  also have "\<dots> = unspent_outs (snd ?s ?k) (Vout tx)"
    using utxo_step_get(1) [of tx "fst ?s" "snd ?s" ?k] utxo_fold_other [OF o(1), of "([], \<lambda>_. [])"] by simp
  finally show ?thesis by (simp add: utxo_fold_spent)
qed

section \<open>Concrete chains\<close>

lemma list_SaveBlockAndTip:
  "s blocksBucket = Some b \<Longrightarrow> h \<noteq> [] \<Longrightarrow>
     DB_SaveBlockAndTip list_bbolt h d s =
       (Ok (), s(blocksBucket \<mapsto> AList.update tipKey h (AList.update h d b)))"
  by (simp add: DB_SaveBlockAndTip_def list_bbolt_def tipKey_def string_bytes_def)

definition sample_block :: "Transaction list \<Rightarrow> Block" where
  "sample_block txs = \<lparr>Timestamp = 0, Transactions = txs, PrevBlockHash = [], Hash = [7], Nonce = 0,
     Height = 0, Bits = 16, AuthoritySignature = [], AuthorityPubKey = []\<rparr>"

abbreviation list_storage :: "(bytes \<times> bytes) list buckets Storage" where
  "list_storage \<equiv> bolt_storage list_bbolt"

definition sample_bc :: "Transaction list \<Rightarrow> (bytes \<times> bytes) list buckets Blockchain" where
  "sample_bc txs = \<lparr>tip = [7],
     db = snd (SaveBlockAndTip list_storage [7] (Serialize sample_prims (sample_block txs)) empty_db)\<rparr>"

lemma sample_bc_facts:
  "bc_synced (bolt_inv list_bbolt) (bolt_tip list_bbolt) (sample_bc txs)"
  "bolt_blk list_bbolt (db (sample_bc txs)) =
     [[7] \<mapsto> Serialize sample_prims (sample_block txs)]"
  "good_chain (BC_GetBlock sample_prims list_storage (db (sample_bc txs))) (tip (sample_bc txs))
     [sample_block txs]"
proof -
  let ?d = "Serialize sample_prims (sample_block txs)"
  have ne: "block_key [7]" by (simp add: tipKey_def string_bytes_def)
  have "SaveBlockAndTip list_storage [7] ?d empty_db = (Ok (), db (sample_bc txs))"
    using list_SaveBlockAndTip [of empty_db "[]" "[7]" ?d]
    by (simp add: sample_bc_def bolt_storage_def empty_db_def)
  from bolt.save_block_and_tip [OF empty_db_inv ne this]
  have s: "bolt_inv list_bbolt (db (sample_bc txs))" "bolt_tip list_bbolt (db (sample_bc txs)) = Some [7]"
    "bolt_blk list_bbolt (db (sample_bc txs)) = (bolt_blk list_bbolt empty_db)([7] \<mapsto> ?d)" by auto
  then show "bc_synced (bolt_inv list_bbolt) (bolt_tip list_bbolt) (sample_bc txs)"
    by (simp add: bc_synced_def sample_bc_def)
  have "bolt_blk list_bbolt empty_db = Map.empty"
    by (auto simp: bolt_blk_def empty_db_def list_bbolt_def)
  then show "bolt_blk list_bbolt (db (sample_bc txs)) = [[7] \<mapsto> ?d]" using s(3) by simp
  have "BC_GetBlock sample_prims list_storage (db (sample_bc txs)) [7] = Ok (sample_block txs)"
    using bolt.BC_GetBlock_after_save [OF s(1) empty_db_inv s(3) sample_gob_ok ne] by simp
  then show "good_chain (BC_GetBlock sample_prims list_storage (db (sample_bc txs))) (tip (sample_bc txs))
     [sample_block txs]"
    by (intro good_genesis) (simp_all add: sample_bc_def sample_block_def)
qed

lemma length_32_block_key: "length h = 32 \<Longrightarrow> block_key h"
  by (auto simp: tipKey_def string_bytes_def)

lemma sample_block_sel [simp]:
  "Hash (sample_block txs) = [7]" "Height (sample_block txs) = 0" "Transactions (sample_block txs) = txs"
  "Bits (sample_block txs) = 16" "tip (sample_bc txs) = [7]"
  by (simp_all add: sample_block_def sample_bc_def)

text \<open>Mining a coinbase on top of the sample chain.\<close>

definition sample_coinbase :: Transaction where
  "sample_coinbase = \<lparr>ID = [9], Vin = [\<lparr>Txid = [], Vout_in = -1, Signature = [], PubKey = [],
     EscrowWitness = [], IsRefund = False\<rparr>], Vout = [sample_out 10 0]\<rparr>"

lemma list_mine:
  assumes sy: "bc_synced (bolt_inv list_bbolt) (bolt_tip list_bbolt) bc"
    and lk: "BC_GetBlock sample_prims list_storage (db bc) (tip bc) = Ok (sample_block txs0)"
    and v: "verify_all sample_prims list_storage bc txs = Ok ()" "txs \<noteq> []"
  shows "\<exists>nb bc'. MineBlock sample_prims list_storage Background now txs bc = (Ok nb, bc') \<and> length (Hash nb) = 32"
proof -
  obtain nb where nb: "NewBlock sample_prims Background now txs (tip bc) 1 16 = Ok nb"
    using sample_NewBlock [OF v(2), of Background 16 now "tip bc" 1] by (auto simp: Background_def)
  have len: "length (Hash nb) = 32" using NewBlock_OkD(8) [OF nb] by simp
  have inv: "bolt_inv list_bbolt (db bc)" "bolt_tip list_bbolt (db bc) = Some (tip bc)"
    using sy by (auto simp: bc_synced_def)
  have lb: "last_block sample_prims list_storage (db bc) = Ok (tip bc, sample_block txs0)"
    using bolt.last_block_eq [OF inv] lk by auto
  have "next_bits sample_prims list_storage (db bc) (sample_block txs0) = Ok 16"
    by (simp add: next_bits_def difficultyAdjustmentInterval_def)
  moreover have "Hash nb \<noteq> []" using len by auto
  then obtain d' where "SaveBlockAndTip list_storage (Hash nb) (Serialize sample_prims nb) (db bc) = (Ok (), d')"
    using list_SaveBlockAndTip [of "db bc" _ "Hash nb"] inv(1) by (auto simp: bolt_storage_def bolt_inv_def)
  ultimately have "MineBlock sample_prims list_storage Background now txs bc = (Ok nb, bc\<lparr>db := d', tip := Hash nb\<rparr>)"
    using nb lb v(1) by (simp add: MineBlock_def)
  then show ?thesis using len by blast
qed

lemma sample_mine:
  "\<exists>nb bc'. MineBlock sample_prims list_storage Background 5 [sample_coinbase] (sample_bc [sample_tx]) = (Ok nb, bc') \<and>
     bolt_blk list_bbolt (db (sample_bc [sample_tx])) (Hash nb) = None"
proof -
  have "verify_all sample_prims list_storage (sample_bc [sample_tx]) [sample_coinbase] = Ok ()"
    by (simp add: VerifyTransaction_def IsCoinbase_def sample_coinbase_def)
  moreover have "BC_GetBlock sample_prims list_storage (db (sample_bc [sample_tx])) (tip (sample_bc [sample_tx])) =
      Ok (sample_block [sample_tx])"
    using good_chain_hd [OF sample_bc_facts(3)] by auto
  ultimately obtain nb bc' where "MineBlock sample_prims list_storage Background 5 [sample_coinbase] (sample_bc [sample_tx]) = (Ok nb, bc')"
    "length (Hash nb) = 32"
    using list_mine [OF sample_bc_facts(1)] by blast
  then show ?thesis by (auto simp: sample_bc_facts(2))
qed

text \<open>Adding a mined block on top of the sample chain.\<close>

lemma sample_add:
  "\<exists>nb bc'. AddBlock sample_prims list_storage [] nb (sample_bc [sample_tx]) = (Ok (), bc') \<and>
     bolt_blk list_bbolt (db (sample_bc [sample_tx])) (Hash nb) = None \<and> block_key (Hash nb) \<and> Height nb = 1"
proof -
  let ?bc = "sample_bc [sample_tx]"
  obtain nb where nb: "NewBlock sample_prims Background 5 [sample_coinbase] [7] 1 16 = Ok nb" "sint (Nonce nb) < maxNonce"
    using sample_NewBlock [of "[sample_coinbase]" Background 16 5 "[7]" 1] by (auto simp: Background_def)
  note d = NewBlock_OkD [OF nb(1)]
  have len: "length (Hash nb) = 32" using d(8) by simp
  then have ne: "Hash nb \<noteq> []" "Hash nb \<noteq> [7]" and key: "block_key (Hash nb)"
    using length_32_block_key by auto
  have inv: "bolt_inv list_bbolt (db ?bc)" "bolt_tip list_bbolt (db ?bc) = Some (tip ?bc)"
    using sample_bc_facts(1) by (auto simp: bc_synced_def)
  have fresh: "bolt_blk list_bbolt (db ?bc) (Hash nb) = None" using ne by (simp add: sample_bc_facts(2))
  then have "GetBlock list_storage (Hash nb) (db ?bc) = Error ErrNotFound"
    using bolt.get_block [OF inv(1) key] by simp
  moreover have "last_block sample_prims list_storage (db ?bc) = Ok (tip ?bc, sample_block [sample_tx])"
    using bolt.last_block_eq [OF inv] good_chain_hd [OF sample_bc_facts(3)] by auto
  moreover have "block_sealed sample_prims [] nb = Ok ()"
    using d(11) [OF nb(2)] d(5,6) by (auto simp: block_sealed_Ok pow_valid_def eff_bits_def)
  moreover have "Serialize sample_prims nb \<noteq> []" using DeserializeBlock_Serialize(1) [OF sample_gob_ok] .
  moreover obtain d' where "SaveBlockAndTip list_storage (Hash nb) (Serialize sample_prims nb) (db ?bc) = (Ok (), d')"
    using list_SaveBlockAndTip [of "db ?bc" _ "Hash nb"] inv(1) ne by (auto simp: bolt_storage_def bolt_inv_def)
  ultimately have "AddBlock sample_prims list_storage [] nb ?bc = (Ok (), ?bc\<lparr>db := d', tip := Hash nb\<rparr>)"
    using d(4) by (simp add: AddBlock_def)
  with fresh key d(4) show ?thesis by blast
qed

text \<open>A chain whose only block names itself as its predecessor.\<close>

definition cyclic_bc :: "Transaction list \<Rightarrow> (bytes \<times> bytes) list buckets Blockchain" where
  "cyclic_bc txs = \<lparr>tip = [7],
     db = snd (SaveBlockAndTip list_storage [7]
       (Serialize sample_prims ((sample_block txs)\<lparr>PrevBlockHash := [7]\<rparr>)) empty_db)\<rparr>"

lemma cyclic_bc_get:
  "BC_GetBlock sample_prims list_storage (db (cyclic_bc txs)) (tip (cyclic_bc txs)) =
     Ok ((sample_block txs)\<lparr>PrevBlockHash := [7]\<rparr>)" "tip (cyclic_bc txs) = [7]"
proof -
  let ?b = "(sample_block txs)\<lparr>PrevBlockHash := [7]\<rparr>"
  have ne: "block_key [7]" by (simp add: tipKey_def string_bytes_def)
  have "SaveBlockAndTip list_storage [7] (Serialize sample_prims ?b) empty_db = (Ok (), db (cyclic_bc txs))"
    using list_SaveBlockAndTip [of empty_db "[]" "[7]" "Serialize sample_prims ?b"]
    by (simp add: cyclic_bc_def bolt_storage_def empty_db_def)
  from bolt.save_block_and_tip [OF empty_db_inv ne this]
    bolt.BC_GetBlock_after_save [OF _ empty_db_inv _ sample_gob_ok ne, of "db (cyclic_bc txs)" "[7]" ?b]
  show "BC_GetBlock sample_prims list_storage (db (cyclic_bc txs)) (tip (cyclic_bc txs)) = Ok ?b"
    by (simp add: cyclic_bc_def)
qed (simp add: cyclic_bc_def)

section \<open>Properties\<close>

text \<open>
  Creating a blockchain over an open bbolt database: if a tip is stored the call fails and
  the database is unchanged; otherwise it either fails and leaves the database unchanged, or
  returns a blockchain whose cached tip is the stored tip and whose chain is one genesis block
  of height 0 that holds one transaction.
\<close>

theorem CreateBlockchain_genesis:
  assumes "bolt_inv B d" and "sha256_ok P" and "gob_ok P"
    and "CreateBlockchain P (bolt_storage B) now address d = (r, d')"
  shows "case bolt_tip B d of
      Some h \<Rightarrow> h \<noteq> [] \<longrightarrow> r = Error (ErrMsg ''blockchain already exists'') \<and> d' = d
    | None \<Rightarrow> (\<exists>bc g. r = Ok bc \<and> db bc = d' \<and> bc_synced (bolt_inv B) (bolt_tip B) bc \<and> block_key (Hash g) \<and>
          good_chain (BC_GetBlock P (bolt_storage B) d') (tip bc) [g] \<and> length (Transactions g) = 1)
        \<or> (\<not> is_Ok r \<and> d' = d)"
  by (rule bolt.CreateBlockchain_cases [OF assms(1-3) length_32_block_key assms(4)])

theorem CreateBlockchain_genesis_witness:
  "let (r, d') = CreateBlockchain sample_prims list_storage 0 [] (db (sample_bc [sample_tx]))
   in r = Error (ErrMsg ''blockchain already exists'') \<and> d' = db (sample_bc [sample_tx])"
proof -
  obtain r d' where c: "CreateBlockchain sample_prims list_storage 0 [] (db (sample_bc [sample_tx])) = (r, d')"
    by force
  have "bolt_inv list_bbolt (db (sample_bc [sample_tx]))" "bolt_tip list_bbolt (db (sample_bc [sample_tx])) = Some [7]"
    using sample_bc_facts(1) [of "[sample_tx]"] by (auto simp: bc_synced_def)
  then show ?thesis
    using CreateBlockchain_genesis [OF _ sample_sha256_ok sample_gob_ok c] c by simp
qed



text \<open>
  The best height never drops: after \<open>AddBlock\<close> succeeds on a block that was not stored, the
  reported height is the larger of the old height and the height of the block.
\<close>

theorem AddBlock_best_height:
  assumes "bc_synced (bolt_inv B) (bolt_tip B) bc" and "block_key (Hash b)" and "block_key (tip bc)"
    and "gob_ok P" and "AddBlock P (bolt_storage B) keys b bc = (Ok (), bc')"
    and "BC_GetBlock P (bolt_storage B) (db bc) (tip bc) = Ok lastB"
    and "bolt_blk B (db bc) (Hash b) = None"
  shows "GetBestHeight P (bolt_storage B) bc =  Ok (Height lastB) \<and>
    (\<exists>h. GetBestHeight P (bolt_storage B) bc' = Ok h \<and> sint h = max (sint (Height lastB)) (sint (Height b)))"
proof -
  have a: "bc_synced (bolt_inv B) (bolt_tip B) bc'"
      "bolt_blk B (db bc') = (bolt_blk B (db bc))(Hash b \<mapsto> Serialize P b)"
      "tip bc' = (if sint (Height b) > sint (Height lastB) then Hash b else tip bc)"
    using bolt.AddBlock_cases [OF assms(1,2,5,6)] assms(7) by auto
  have inv: "bolt_inv B (db bc')" "bolt_inv B (db bc)" using a(1) assms(1) by (auto simp: bc_synced_def)
  note lk = bolt.BC_GetBlock_after_save [OF inv a(2) assms(4)]
  have "tip bc \<noteq> Hash b" using assms(3,6,7) inv(2) by (auto simp: bolt.BC_GetBlock_eq)
  then have "BC_GetBlock P (bolt_storage B) (db bc') (tip bc') =
      Ok (if sint (Height b) > sint (Height lastB) then b else lastB)"
    using lk [OF assms(2)] lk [OF assms(3)] assms(6) by (simp add: a(3))
  then show ?thesis
    using bolt.GetBestHeight_eq [OF a(1)] bolt.GetBestHeight_eq [OF assms(1,6)] by (simp add: max_def)
qed

theorem AddBlock_best_height_witness:
  "\<exists>nb bc' h. AddBlock sample_prims list_storage [] nb (sample_bc [sample_tx]) = (Ok (), bc') \<and>
     GetBestHeight sample_prims list_storage bc' = Ok h \<and> sint h = 1"
proof -
  obtain nb bc' where a: "AddBlock sample_prims list_storage [] nb (sample_bc [sample_tx]) = (Ok (), bc')"
    and nb: "bolt_blk list_bbolt (db (sample_bc [sample_tx])) (Hash nb) = None" "block_key (Hash nb)" "Height nb = 1"
    using sample_add by blast
  have k: "block_key (tip (sample_bc [sample_tx]))" by (simp add: tipKey_def string_bytes_def)
  have l: "BC_GetBlock sample_prims list_storage (db (sample_bc [sample_tx])) (tip (sample_bc [sample_tx])) =
      Ok (sample_block [sample_tx])"
    using good_chain_hd [OF sample_bc_facts(3) [of "[sample_tx]"]] by auto
  show ?thesis
    using AddBlock_best_height [OF sample_bc_facts(1) nb(2) k sample_gob_ok a l nb(1)] a nb(3) by auto
qed

text \<open>
  C6. Mining on a well-formed chain extends it: when \<open>MineBlock\<close> returns a block whose hash was
  not stored, the chain is the new block followed by the old chain, well formed again, with
  cached and stored tip on the new block, which holds the given transactions, and each of them
  passed \<open>VerifyTransaction\<close>. When it fails, nothing has changed.
\<close>

theorem MineBlock_extends_chain:
  assumes "bc_synced (bolt_inv B) (bolt_tip B) bc" and "sha256_ok P" and "gob_ok P"
    and "good_chain (BC_GetBlock P (bolt_storage B) (db bc)) (tip bc) (b # bs)"
    and "\<forall>c \<in> set (b # bs). block_key (Hash c)" and "sint (Height b) < 2 ^ 63 - 1"
    and "MineBlock P (bolt_storage B) ctx now txs bc = (r, bc')"
  shows "case r of
      Ok nb \<Rightarrow> bolt_blk B (db bc) (Hash nb) = None \<longrightarrow>
        bc_synced (bolt_inv B) (bolt_tip B) bc' \<and>
        good_chain (BC_GetBlock P (bolt_storage B) (db bc')) (tip bc') (nb # b # bs) \<and>
        Transactions nb = txs \<and> list_all (\<lambda>tx. VerifyTransaction P (bolt_storage B) bc tx = Ok True) txs
    | _ \<Rightarrow> bc' = bc"
proof (cases r)
  case (Ok nb)
  have "verify_all P (bolt_storage B) bc txs = Ok ()"
    using bolt.MineBlock_cases [OF assms(1,2) length_32_block_key assms(4,6,7)] Ok by auto
  then show ?thesis
    using bolt.MineBlock_good_chain [OF assms(1-3) length_32_block_key assms(4-6), of ctx now txs nb bc'] assms(7) Ok
    by (simp add: verify_all_Ok) metis
qed (use bolt.MineBlock_cases [OF assms(1,2) length_32_block_key assms(4,6,7)] in auto)

theorem MineBlock_extends_chain_witness:
  "\<exists>nb bc'. MineBlock sample_prims list_storage Background 5 [sample_coinbase] (sample_bc [sample_tx]) = (Ok nb, bc') \<and>
     good_chain (BC_GetBlock sample_prims list_storage (db bc')) (tip bc') [nb, sample_block [sample_tx]]"
proof -
  obtain nb bc' where m: "MineBlock sample_prims list_storage Background 5 [sample_coinbase] (sample_bc [sample_tx]) = (Ok nb, bc')"
    and fresh: "bolt_blk list_bbolt (db (sample_bc [sample_tx])) (Hash nb) = None"
    using sample_mine by blast
  have "block_key [7]" by (simp add: tipKey_def string_bytes_def)
  with MineBlock_extends_chain [OF sample_bc_facts(1) sample_sha256_ok sample_gob_ok sample_bc_facts(3) _ _ m] fresh m
  show ?thesis by simp
qed

text \<open>
  The difficulty never changes by mining: on a well-formed chain the new block has the bits
  of the last block, whatever the times of the blocks, also at the heights where the interval
  of ten blocks ends. \<open>MineBlock\<close> asks for an adjustment when the new height is a multiple of
  ten, and \<open>CalculateNewDifficulty\<close> tests the height of the last block.
\<close>

theorem MineBlock_never_adjusts:
  assumes "bc_synced (bolt_inv B) (bolt_tip B) bc" and "sha256_ok P"
    and "good_chain (BC_GetBlock P (bolt_storage B) (db bc)) (tip bc) (b # bs)"
    and "sint (Height b) < 2 ^ 63 - 1"
    and "MineBlock P (bolt_storage B) ctx now txs bc = (Ok nb, bc')"
  shows "Bits nb = (if Bits b = 0 then 16 else Bits b)"
proof -
  have "NewBlock P ctx now txs (tip bc) (Height b + 1) (eff_bits b) = Ok nb"
    using bolt.MineBlock_cases [OF assms(1,2) length_32_block_key assms(3-5)] by auto
  from NewBlock_OkD(5) [OF this] show ?thesis by (simp add: eff_bits_def targetBits_def)
qed

theorem MineBlock_never_adjusts_witness:
  "\<exists>nb bc'. MineBlock sample_prims list_storage Background 5 [sample_coinbase] (sample_bc [sample_tx]) = (Ok nb, bc') \<and>
     Bits nb = 16"
proof -
  obtain nb bc' where m: "MineBlock sample_prims list_storage Background 5 [sample_coinbase] (sample_bc [sample_tx]) = (Ok nb, bc')"
    using sample_mine by blast
  with MineBlock_never_adjusts [OF sample_bc_facts(1) sample_sha256_ok sample_bc_facts(3) _ m]
  show ?thesis by simp
qed

text \<open>
  Reading a finite chain: the hashes are those of its blocks from the tip on, and a
  transaction is found exactly when one of the blocks holds one with that id; what is returned
  then is the first one on the walk from the tip.
\<close>

theorem chain_reads:
  assumes "chain (BC_GetBlock P S (db bc)) (tip bc) bs"
  shows "GetBlockHashes P S bc = Ok (map Hash bs) \<and>
    (\<forall>tx. FindTransaction P S bc txID = Ok tx \<longrightarrow> tx \<in> set (chain_txs bs) \<and> ID tx = txID) \<and>
    (is_Ok (FindTransaction P S bc txID) \<longleftrightarrow> txID \<in> ID ` set (chain_txs bs))"
  unfolding GetBlockHashes_chain [OF assms] FindTransaction_chain [OF assms]
  by (auto split: option.splits simp: find_Some_iff find_None_iff)

theorem chain_reads_witness:
  "GetBlockHashes sample_prims list_storage (sample_bc [sample_tx]) = Ok [[7]]"
  using chain_reads [OF good_chain_chain [OF sample_bc_facts(3) [of "[sample_tx]"]]] by simp



text \<open>
  A cycle of hashes makes every full walk run forever: if the block stored under the tip
  names the tip as its predecessor, which \<open>AddBlock\<close> does not exclude, then \<open>GetBlockHashes\<close> and
  \<open>FindUTXO\<close> do not return, and neither does \<open>FindTransaction\<close> for an id the block does not hold.
\<close>

theorem Blocks_cycle_diverges:
  assumes "BC_GetBlock P S (db bc) (tip bc) = Ok b" and "PrevBlockHash b = tip bc" and "tip bc \<noteq> []"
  shows "GetBlockHashes P S bc = Diverge \<and> FindUTXO P S bc = Diverge \<and>
    (txID \<notin> ID ` set (Transactions b) \<longrightarrow> FindTransaction P S bc txID = Diverge)"
proof (intro conjI impI)
  note cyc = blocks_iter_cycle [OF assms]
  show "GetBlockHashes P S bc = Diverge" "FindUTXO P S bc = Diverge"
    by (simp_all add: GetBlockHashes_def FindUTXO_def Blocks_def cyc)
  assume "txID \<notin> ID ` set (Transactions b)"
  then have "find (\<lambda>tx. ID tx = txID) (Transactions b) = None"
    by (auto simp: find_None_iff)
  then show "FindTransaction P S bc txID = Diverge"
    by (simp add: FindTransaction_def Blocks_def cyc)
qed

theorem Blocks_cycle_diverges_witness:
  "GetBlockHashes sample_prims list_storage (cyclic_bc [sample_tx]) = Diverge"
  using Blocks_cycle_diverges [of sample_prims list_storage "cyclic_bc [sample_tx]"] cyclic_bc_get by simp

end
