(* ===== verification/Utxo.thy ===== *)
theory Utxo
  imports Chain
begin

text \<open>
  The set of unspent outputs, \<^verbatim>\<open>internal/core/utxo_set.go\<close>: a bucket that files the serialised
  unspent outputs of a transaction under its id. A \<^verbatim>\<open>UTXOSet\<close> is a pointer to a blockchain, so
  its methods take the blockchain and return it where they write to its database. The results:
  \<open>Update\<close> and \<open>Reindex\<close> refine operations on the abstract map from ids to lists of outputs,
  and \<open>FindSpendableOutputs\<close> picks outputs in iteration order until the amount is covered.
\<close>

section \<open>Reading\<close>

type_synonym spendable = "(string \<times> int64 list) list"

text \<open>The loop over the outputs of one entry.\<close>

fun spend_outs ::
    "string \<Rightarrow> bytes \<Rightarrow> int64 \<Rightarrow> (nat \<times> TXOutput) list \<Rightarrow> int64 \<times> spendable \<Rightarrow> int64 \<times> spendable" where
  "spend_outs txID pubkeyHash amount [] st = st"
| "spend_outs txID pubkeyHash amount ((outIdx, out) # outs) (accumulated, unspentOutputs) =
     spend_outs txID pubkeyHash amount outs
       (if ScriptType out \<noteq> ScriptTypeEscrow \<and> IsLockedWithKey out pubkeyHash \<and> sint accumulated < sint amount
        then (accumulated + Value out, alist_append txID (of_nat outIdx) unspentOutputs)
        else (accumulated, unspentOutputs))"

definition FindSpendableOutputs ::
    "Prims \<Rightarrow> 's Storage \<Rightarrow> 's Blockchain \<Rightarrow> bytes \<Rightarrow> int64 \<Rightarrow> (int64 \<times> spendable) result" where
  "FindSpendableOutputs P S bc pubkeyHash amount =
     wrap_err ''failed to iterate utxos''
       (iterate_utxo S (db bc) (\<lambda>k v st.
          bind_result (DeserializeOutputs P v) (\<lambda>outs.
            let st' = spend_outs (hex_encode k) pubkeyHash amount (indexed (Outputs outs)) st
            in Ok (st', \<not> sint (fst st') \<ge> sint amount))) (0, []))"

definition UTXOSet_FindUTXO :: "Prims \<Rightarrow> 's Storage \<Rightarrow> 's Blockchain \<Rightarrow> bytes \<Rightarrow> TXOutput list result" where
  "UTXOSet_FindUTXO P S bc pubKeyHash =
     wrap_err ''failed to iterate utxos''
       (iterate_utxo S (db bc) (\<lambda>k v UTXOs.
          bind_result (DeserializeOutputs P v) (\<lambda>outs.
            Ok (UTXOs @ filter (\<lambda>out. IsLockedWithKey out pubKeyHash) (Outputs outs), True))) [])"

record UTXOItem =
  item_TxID :: bytes
  item_Vout :: int64
  item_Output :: TXOutput

definition FindUTXOItems :: "Prims \<Rightarrow> 's Storage \<Rightarrow> 's Blockchain \<Rightarrow> bytes \<Rightarrow> UTXOItem list result" where
  "FindUTXOItems P S bc pubKeyHash =
     wrap_err ''failed to iterate utxos''
       (iterate_utxo S (db bc) (\<lambda>k v items.
          bind_result (DeserializeOutputs P v) (\<lambda>outs.
            Ok (items @ map (\<lambda>(outIdx, out). \<lparr>item_TxID = k, item_Vout = of_nat outIdx, item_Output = out\<rparr>)
                  (filter (\<lambda>(outIdx, out). IsLockedWithKey out pubKeyHash \<or>
                      (ScriptType out = ScriptTypeEscrow \<and> IsBuyer out pubKeyHash))
                    (indexed (Outputs outs))), True))) [])"

definition CountTransactions :: "'s Storage \<Rightarrow> 's Blockchain \<Rightarrow> int64 result" where
  "CountTransactions S bc =
     wrap_err ''failed to count utxos'' (iterate_utxo S (db bc) (\<lambda>k v counter. Ok (counter + 1, True)) 0)"

section \<open>Writing\<close>

text \<open>A write of the set: the blockchain with the database the write leaves, and its outcome.\<close>

definition on_db :: "string \<Rightarrow> unit result \<times> 's \<Rightarrow> 's Blockchain \<Rightarrow> unit result \<times> 's Blockchain" where
  "on_db msg w bc =
     (case w of (Ok _, d) \<Rightarrow> (Ok (), bc\<lparr>db := d\<rparr>) | (r, d) \<Rightarrow> (wrap_err msg (as_failure r), bc\<lparr>db := d\<rparr>))"

text \<open>Running a loop body over the elements of a slice until one of them fails.\<close>

fun for_each :: "('x \<Rightarrow> 'b \<Rightarrow> unit result \<times> 'b) \<Rightarrow> 'x list \<Rightarrow> 'b \<Rightarrow> unit result \<times> 'b" where
  "for_each f [] s = (Ok (), s)"
| "for_each f (x # xs) s =
     (case f x s of (Ok _, s') \<Rightarrow> for_each f xs s' | (r, s') \<Rightarrow> (r, s'))"

definition save_outs :: "Prims \<Rightarrow> 's Storage \<Rightarrow> string \<Rightarrow> bytes \<Rightarrow> TXOutput list \<Rightarrow> 's Blockchain \<Rightarrow> unit result \<times> 's Blockchain" where
  "save_outs P S msg key outs bc =
     (case Serialize_outs P \<lparr>Outputs = outs\<rparr> of
        Ok d \<Rightarrow> on_db msg (SaveUTXO S key d (db bc)) bc
      | r \<Rightarrow> (as_failure r, bc))"

definition reindex_entry :: "Prims \<Rightarrow> 's Storage \<Rightarrow> string \<times> TXOutput list \<Rightarrow> 's Blockchain \<Rightarrow> unit result \<times> 's Blockchain" where
  "reindex_entry P S e bc =
     (case wrap_err ''failed to decode tx id'' (hex_decode (fst e)) of
        Ok key \<Rightarrow> save_outs P S ''failed to save utxo'' key (snd e) bc
      | r \<Rightarrow> (as_failure r, bc))"

definition Reindex ::
    "Prims \<Rightarrow> 's Storage \<Rightarrow> (utxo_map \<Rightarrow> utxo_map) \<Rightarrow> 's Blockchain \<Rightarrow> unit result \<times> 's Blockchain" where
  "Reindex P S ord bc =
     (case on_db ''failed to clear utxo set'' (ClearUTXOSet S (db bc)) bc of
        (Ok _, bc) \<Rightarrow>
          (case FindUTXO P S bc of
             Ok UTXO \<Rightarrow> for_each (reindex_entry P S) (ord UTXO) bc
           | r \<Rightarrow> (as_failure r, bc))
      | (r, bc) \<Rightarrow> (r, bc))"

text \<open>Spending one input: its output is dropped from the list, which closes up.\<close>

definition without :: "int64 \<Rightarrow> 'a list \<Rightarrow> 'a list" where
  "without i xs = map snd (filter (\<lambda>(j, x). of_nat j \<noteq> i) (indexed xs))"

definition update_input :: "Prims \<Rightarrow> 's Storage \<Rightarrow> TXInput \<Rightarrow> 's Blockchain \<Rightarrow> unit result \<times> 's Blockchain" where
  "update_input P S vin bc =
     (case GetUTXO S (Txid vin) (db bc) of
        Error e \<Rightarrow> (if e = ErrNotFound then (Ok (), bc) else (Error (Wrap ''failed to get utxo'' e), bc))
      | Ok outsBytes \<Rightarrow>
          (case DeserializeOutputs P outsBytes of
             Ok outs \<Rightarrow>
               (let updatedOuts = without (Vout_in vin) (Outputs outs) in
                if updatedOuts = []
                then on_db ''failed to delete utxo'' (DeleteUTXO S (Txid vin) (db bc)) bc
                else save_outs P S ''failed to update utxo'' (Txid vin) updatedOuts bc)
           | r \<Rightarrow> (as_failure r, bc))
      | r \<Rightarrow> (as_failure r, bc))"

definition update_tx :: "Prims \<Rightarrow> 's Storage \<Rightarrow> Transaction \<Rightarrow> 's Blockchain \<Rightarrow> unit result \<times> 's Blockchain" where
  "update_tx P S tx bc =
     (case (if \<not> IsCoinbase tx then for_each (update_input P S) (Vin tx) bc else (Ok (), bc)) of
        (Ok _, bc) \<Rightarrow> save_outs P S ''failed to save new utxos'' (ID tx) (Vout tx) bc
      | (r, bc) \<Rightarrow> (r, bc))"

definition Update :: "Prims \<Rightarrow> 's Storage \<Rightarrow> Block \<Rightarrow> 's Blockchain \<Rightarrow> unit result \<times> 's Blockchain" where
  "Update P S block bc = for_each (update_tx P S) (Transactions block) bc"

section \<open>The abstract set\<close>

type_synonym utxo_abs = "bytes \<rightharpoonup> TXOutput list"

definition abs_utxo :: "Prims \<Rightarrow> (bytes \<rightharpoonup> bytes) \<Rightarrow> utxo_abs" where
  "abs_utxo P u k =
     (case u k of None \<Rightarrow> None
      | Some d \<Rightarrow> (case DeserializeOutputs P d of Ok outs \<Rightarrow> Some (Outputs outs) | _ \<Rightarrow> None))"

text \<open>Every entry of the bucket decodes.\<close>

definition utxo_wf :: "Prims \<Rightarrow> (bytes \<rightharpoonup> bytes) \<Rightarrow> bool" where
  "utxo_wf P u \<longleftrightarrow> (\<forall>k d. u k = Some d \<longrightarrow> is_Ok (DeserializeOutputs P d))"

definition spend_abs :: "TXInput \<Rightarrow> utxo_abs \<Rightarrow> utxo_abs" where
  "spend_abs vin M =
     (case M (Txid vin) of
        None \<Rightarrow> M
      | Some outs \<Rightarrow>
          (let rest = without (Vout_in vin) outs in
           M(Txid vin := (if rest = [] then None else Some rest))))"

definition tx_abs :: "Transaction \<Rightarrow> utxo_abs \<Rightarrow> utxo_abs" where
  "tx_abs tx M = (if IsCoinbase tx then M else fold spend_abs (Vin tx) M)(ID tx \<mapsto> Vout tx)"

lemma abs_utxo_upd:
  assumes "gob_ok P" and "Serialize_outs P \<lparr>Outputs = outs\<rparr> = Ok d"
  shows "abs_utxo P (u(k \<mapsto> d)) = (abs_utxo P u)(k \<mapsto> outs)" and "utxo_wf P u \<Longrightarrow> utxo_wf P (u(k \<mapsto> d))"
  using Deserialize_Serialize_outs [OF assms(1), of "\<lparr>Outputs = outs\<rparr>"] assms(2)
  by (auto simp: abs_utxo_def utxo_wf_def fun_eq_iff)

lemma abs_utxo_del: "abs_utxo P (u(k := None)) = (abs_utxo P u)(k := None)"
  "utxo_wf P u \<Longrightarrow> utxo_wf P (u(k := None))"
  by (auto simp: abs_utxo_def utxo_wf_def fun_eq_iff)

lemma for_each_induct:
  assumes "for_each f xs s = (Ok (), s')" and "Q s"
    and "\<And>x s s'. x \<in> set xs \<Longrightarrow> f x s = (Ok (), s') \<Longrightarrow> Q s \<Longrightarrow> Q s' \<and> h s' = g x (h s)"
  shows "Q s' \<and> h s' = fold g xs (h s)"
  using assms
proof (induction xs arbitrary: s)
  case (Cons x xs)
  then obtain s1 where "f x s = (Ok (), s1)" "for_each f xs s1 = (Ok (), s')"
    by (auto split: result.splits prod.splits)
  moreover from this have "Q s1 \<and> h s1 = g x (h s)"
    using Cons.prems(2) by (intro Cons.prems(3)) auto
  moreover have "\<And>y s s'. y \<in> set xs \<Longrightarrow> f y s = (Ok (), s') \<Longrightarrow> Q s \<Longrightarrow> Q s' \<and> h s' = g y (h s)"
    by (rule Cons.prems(3)) auto
  ultimately have "Q s' \<and> h s' = fold g xs (h s1)" by (intro Cons.IH) blast+
  with \<open>Q s1 \<and> h s1 = g x (h s)\<close> show ?case by simp
qed simp

text \<open>Filing the entries that \<open>FindUTXO\<close> returns.\<close>

definition reindex_abs :: "string \<times> TXOutput list \<Rightarrow> utxo_abs \<Rightarrow> utxo_abs" where
  "reindex_abs e M = (case hex_decode (fst e) of Ok k \<Rightarrow> M(k \<mapsto> snd e) | _ \<Rightarrow> M)"

lemma reindex_abs_fold:
  assumes "distinct (map fst es)" and "fst ` set es \<subseteq> range hex_encode"
  shows "fold reindex_abs es M k = (case map_of es (hex_encode k) of None \<Rightarrow> M k | Some outs \<Rightarrow> Some outs)"
  using assms
proof (induction es arbitrary: M)
  case (Cons e es)
  obtain j outs where e: "e = (hex_encode j, outs)" using Cons.prems(2) by (cases e) auto
  have "map_of es (hex_encode j) = None" using Cons.prems(1) by (simp add: e map_of_eq_None_iff)
  moreover have "reindex_abs e M = M(j \<mapsto> outs)" by (simp add: e reindex_abs_def)
  moreover have "distinct (map fst es)" "fst ` set es \<subseteq> range hex_encode" using Cons.prems by auto
  note Cons.IH [OF this, of "M(j \<mapsto> outs)"]
  ultimately show ?case by (simp add: e fun_upd_def [symmetric] del: fun_upd_apply split: option.split) (simp add: fun_upd_def)
qed simp

lemma reindex_abs_order:
  assumes "is_order ord" and "distinct (map fst es)" and "fst ` set es \<subseteq> range hex_encode"
  shows "fold reindex_abs (ord es) Map.empty k = map_of es (hex_encode k)"
proof -
  have "distinct (map fst (ord es))"
    using assms(1,2) unfolding is_order_def by (metis mset_eq_imp_distinct_iff mset_map)
  then have "fold reindex_abs (ord es) Map.empty k = map_of (ord es) (hex_encode k)"
    using assms(3) is_order_set [OF assms(1)] by (subst reindex_abs_fold) (auto split: option.split)
  then show ?thesis using is_order_map_of [OF assms(1,2)] by simp
qed

lemma utxo_outputs_keys: "fst ` set (utxo_outputs t sp ios U) \<subseteq> insert t (fst ` set U)"
proof (induction t sp ios U rule: utxo_outputs.induct)
  case (2 t sp j out ios U)
  then show ?case using dom_alist_append [of t out U] by (auto split: if_splits)
qed auto

lemma utxo_fold_keys: "fst ` set (fst st) \<subseteq> range hex_encode \<Longrightarrow>
    fst ` set (fst (fold utxo_step ts st)) \<subseteq> range hex_encode"
proof (induction ts arbitrary: st)
  case (Cons tx ts)
  have "fst ` set (fst (utxo_step tx st)) \<subseteq> range hex_encode"
  proof -
    have "fst (utxo_step tx st) =
        utxo_outputs (hex_encode (ID tx)) (snd st (hex_encode (ID tx))) (indexed (Vout tx)) (fst st)"
      by (simp add: utxo_step_def Let_def case_prod_beta)
    then show ?thesis
      using Cons.prems utxo_outputs_keys [of "hex_encode (ID tx)" "snd st (hex_encode (ID tx))" "indexed (Vout tx)" "fst st"]
      by (metis (no_types, lifting) insert_subset order_trans rangeI)
  qed
  then show ?case using Cons.IH by simp
qed simp

text \<open>No entry is empty.\<close>

lemma utxo_outputs_nonempty:
  "[] \<notin> snd ` set U \<Longrightarrow> [] \<notin> snd ` set (utxo_outputs t sp ios U)"
proof (induction t sp ios U rule: utxo_outputs.induct)
  case (2 t sp j out ios U)
  have "[] \<notin> snd ` set (alist_append t out U)"
    using 2(3) set_AList_update [of t "(case map_of U t of None \<Rightarrow> [] | Some xs \<Rightarrow> xs) @ [out]" U]
    unfolding alist_append_def by force
  with 2 show ?case by simp
qed simp

lemma utxo_fold_nonempty: "[] \<notin> snd ` set (fst st) \<Longrightarrow> [] \<notin> snd ` set (fst (fold utxo_step ts st))"
proof (induction ts arbitrary: st)
  case (Cons tx ts)
  have "[] \<notin> snd ` set (fst (utxo_step tx st))"
    using utxo_outputs_nonempty [OF Cons.prems] by (simp add: utxo_step_def Let_def case_prod_beta)
  then show ?case using Cons.IH by simp
qed simp

lemma map_of_alist_get:
  "[] \<notin> snd ` set U \<Longrightarrow> map_of U k = (if alist_get U k = [] then None else Some (alist_get U k))"
  by (auto simp: alist_get_def split: option.splits dest!: map_of_SomeD intro: rev_image_eqI)

context storage
begin

text \<open>What the writes of the set keep of the rest of the blockchain.\<close>

definition utxo_frame :: "'s Blockchain \<Rightarrow> 's Blockchain \<Rightarrow> bool" where
  "utxo_frame bc bc' \<longleftrightarrow> inv (db bc') \<and> blk (db bc') = blk (db bc) \<and> tipv (db bc') = tipv (db bc) \<and> tip bc' = tip bc"

lemma save_outs_Ok:
  assumes "gob_ok P" and "inv (db bc)" and "utxo_wf P (utxo (db bc))" and "save_outs P S msg k outs bc = (Ok (), bc')"
  shows "utxo_frame bc bc' \<and> utxo_wf P (utxo (db bc')) \<and>
    abs_utxo P (utxo (db bc')) = (abs_utxo P (utxo (db bc)))(k \<mapsto> outs)"
proof -
  obtain d where d: "Serialize_outs P \<lparr>Outputs = outs\<rparr> = Ok d"
    using Deserialize_Serialize_outs [OF assms(1)] by blast
  obtain r d' where s: "SaveUTXO S k d (db bc) = (r, d')" by force
  have "r = Ok ()" "bc' = bc\<lparr>db := d'\<rparr>"
    using assms(4) d s by (auto simp: save_outs_def on_db_def split: result.splits)
  then show ?thesis
    using save_utxo [OF assms(2) s] abs_utxo_upd [OF assms(1) d] assms(3) by (auto simp: utxo_frame_def)
qed

lemma update_input_Ok:
  assumes "gob_ok P" and "inv (db bc)" and "utxo_wf P (utxo (db bc))" and "update_input P S vin bc = (Ok (), bc')"
  shows "utxo_frame bc bc' \<and> utxo_wf P (utxo (db bc')) \<and>
    abs_utxo P (utxo (db bc')) = spend_abs vin (abs_utxo P (utxo (db bc)))"
proof (cases "utxo (db bc) (Txid vin)")
  case None
  then have "bc' = bc" using assms(2,4) by (simp add: update_input_def get_utxo)
  then show ?thesis using None assms(2,3) by (simp add: utxo_frame_def spend_abs_def abs_utxo_def)
next
  case (Some d)
  then obtain outs where o: "DeserializeOutputs P d = Ok outs"
    using assms(3) by (auto simp: utxo_wf_def is_Ok_iff)
  let ?rest = "without (Vout_in vin) (Outputs outs)"
  have M: "abs_utxo P (utxo (db bc)) (Txid vin) = Some (Outputs outs)"
    using Some o by (simp add: abs_utxo_def)
  have g: "GetUTXO S (Txid vin) (db bc) = Ok d" using Some assms(2) by (simp add: get_utxo)
  show ?thesis
  proof (cases "?rest = []")
    case True
    obtain r d' where s: "DeleteUTXO S (Txid vin) (db bc) = (r, d')" by force
    have "r = Ok ()" "bc' = bc\<lparr>db := d'\<rparr>"
      using assms(4) g o True s by (auto simp: update_input_def on_db_def split: result.splits)
    then show ?thesis
      using delete_utxo [OF assms(2) s] assms(3) M True
      by (auto simp: utxo_frame_def abs_utxo_del spend_abs_def)
  next
    case False
    then have "save_outs P S ''failed to update utxo'' (Txid vin) ?rest bc = (Ok (), bc')"
      using assms(4) g o by (simp add: update_input_def Let_def)
    from save_outs_Ok [OF assms(1-3) this] show ?thesis using M False by (simp add: spend_abs_def Let_def)
  qed
qed

lemma utxo_frame_trans: "utxo_frame a b \<Longrightarrow> utxo_frame b c \<Longrightarrow> utxo_frame a c"
  by (simp add: utxo_frame_def)

lemma update_tx_Ok:
  assumes "gob_ok P" and "inv (db bc)" and "utxo_wf P (utxo (db bc))" and "update_tx P S tx bc = (Ok (), bc')"
  shows "utxo_frame bc bc' \<and> utxo_wf P (utxo (db bc')) \<and>
    abs_utxo P (utxo (db bc')) = tx_abs tx (abs_utxo P (utxo (db bc)))"
proof -
  let ?Q = "\<lambda>c. utxo_frame bc c \<and> utxo_wf P (utxo (db c))"
  obtain bc1 where b: "(if \<not> IsCoinbase tx then for_each (update_input P S) (Vin tx) bc else (Ok (), bc)) = (Ok (), bc1)"
    and s: "save_outs P S ''failed to save new utxos'' (ID tx) (Vout tx) bc1 = (Ok (), bc')"
    using assms(4) by (auto simp: update_tx_def split: prod.splits result.splits if_splits)
  have Q0: "?Q bc" using assms(2,3) by (simp add: utxo_frame_def)
  have step: "?Q c' \<and> abs_utxo P (utxo (db c')) = spend_abs x (abs_utxo P (utxo (db c)))"
    if "update_input P S x c = (Ok (), c')" "?Q c" for x c c'
    using update_input_Ok [OF assms(1) _ _ that(1)] that(2) utxo_frame_trans by (auto simp: utxo_frame_def)
  have "?Q bc1 \<and> abs_utxo P (utxo (db bc1)) =
      (if IsCoinbase tx then abs_utxo P (utxo (db bc)) else fold spend_abs (Vin tx) (abs_utxo P (utxo (db bc))))"
  proof (cases "IsCoinbase tx")
    case True
    then show ?thesis using b Q0 by auto
  next
    case False
    then have "for_each (update_input P S) (Vin tx) bc = (Ok (), bc1)" using b by simp
    from for_each_induct [where Q = ?Q and h = "\<lambda>c. abs_utxo P (utxo (db c))" and g = spend_abs, OF this Q0] step False
    show ?thesis by auto
  qed
  then show ?thesis
    using save_outs_Ok [OF assms(1) _ _ s] utxo_frame_trans by (auto simp: utxo_frame_def tx_abs_def)
qed

lemma Update_Ok:
  assumes "gob_ok P" and "inv (db bc)" and "utxo_wf P (utxo (db bc))" and "Update P S block bc = (Ok (), bc')"
  shows "utxo_frame bc bc' \<and> utxo_wf P (utxo (db bc')) \<and>
    abs_utxo P (utxo (db bc')) = fold tx_abs (Transactions block) (abs_utxo P (utxo (db bc)))"
proof -
  let ?Q = "\<lambda>c. utxo_frame bc c \<and> utxo_wf P (utxo (db c))"
  have Q0: "?Q bc" using assms(2,3) by (simp add: utxo_frame_def)
  have "?Q c' \<and> abs_utxo P (utxo (db c')) = tx_abs x (abs_utxo P (utxo (db c)))"
    if "update_tx P S x c = (Ok (), c')" "?Q c" for x c c'
    using update_tx_Ok [OF assms(1) _ _ that(1)] that(2) utxo_frame_trans by (auto simp: utxo_frame_def)
  with for_each_induct [where Q = ?Q and h = "\<lambda>c. abs_utxo P (utxo (db c))" and g = tx_abs,
      OF assms(4) [unfolded Update_def] Q0]
  show ?thesis by blast
qed

text \<open>Clearing the set does not touch the chain.\<close>

lemma good_chain_frame:
  assumes "inv (db bc)" and "utxo_frame bc bc'" and "good_chain (BC_GetBlock P S (db bc)) h bs"
    and "\<forall>b \<in> set bs. okh (Hash b)"
  shows "good_chain (BC_GetBlock P S (db bc')) h bs"
  using assms by (intro good_chain_cong [OF assms(3)]) (simp add: BC_GetBlock_eq utxo_frame_def)

lemma Reindex_Ok:
  assumes gob: "gob_ok P" and inv: "inv (db bc)" and ord: "is_order ord"
    and good: "good_chain (BC_GetBlock P S (db bc)) (tip bc) bs" and okh: "\<forall>b \<in> set bs. okh (Hash b)"
    and res: "Reindex P S ord bc = (Ok (), bc')"
  shows "utxo_frame bc bc' \<and> utxo_wf P (utxo (db bc')) \<and>
    (\<forall>k. abs_utxo P (utxo (db bc')) k = map_of (fst (fold utxo_step (chain_txs bs) ([], \<lambda>_. []))) (hex_encode k))"
proof -
  let ?U = "fst (fold utxo_step (chain_txs bs) ([], \<lambda>_. []))"
  obtain r d where c: "ClearUTXOSet S (db bc) = (r, d)" by force
  define bc1 where "bc1 = bc\<lparr>db := d\<rparr>"
  have "r = Ok ()" using res c by (auto simp: Reindex_def on_db_def split: result.splits)
  with clear_utxo [OF inv c] have fr: "utxo_frame bc bc1" and e: "utxo (db bc1) = Map.empty"
    by (auto simp: utxo_frame_def bc1_def)
  have "chain (BC_GetBlock P S (db bc1)) (tip bc1) bs"
    using good_chain_chain [OF good_chain_frame [OF inv fr good okh]] by (simp add: bc1_def)
  from FindUTXO_chain [OF this]
  have loop: "for_each (reindex_entry P S) (ord ?U) bc1 = (Ok (), bc')"
    using res c \<open>r = Ok ()\<close> by (simp add: Reindex_def on_db_def bc1_def)
  let ?Q = "\<lambda>c. utxo_frame bc c \<and> utxo_wf P (utxo (db c))"
  have step: "?Q c' \<and> abs_utxo P (utxo (db c')) = reindex_abs x (abs_utxo P (utxo (db c)))"
    if "x \<in> set (ord ?U)" "reindex_entry P S x c = (Ok (), c')" "?Q c" for x c c'
  proof -
    have "fst x \<in> fst ` set ?U" using that(1) is_order_set [OF ord] by (intro imageI) simp
    moreover have "fst ` set ?U \<subseteq> range hex_encode" by (rule utxo_fold_keys) simp
    ultimately obtain k where k: "fst x = hex_encode k" by blast
    then have "save_outs P S ''failed to save utxo'' k (snd x) c = (Ok (), c')"
      using that(2) by (simp add: reindex_entry_def)
    with save_outs_Ok [OF gob _ _ this] that(3) k show ?thesis
      by (auto simp: utxo_frame_def reindex_abs_def)
  qed
  have "?Q bc1" using fr e by (simp add: utxo_wf_def)
  from for_each_induct [where Q = ?Q and h = "\<lambda>c. abs_utxo P (utxo (db c))" and g = reindex_abs, OF loop this step]
  have "?Q bc'" "abs_utxo P (utxo (db bc')) = fold reindex_abs (ord ?U) (abs_utxo P Map.empty)"
    unfolding e by blast+
  moreover have "abs_utxo P Map.empty = Map.empty" by (simp add: abs_utxo_def fun_eq_iff)
  moreover have "fold reindex_abs (ord ?U) Map.empty k = map_of ?U (hex_encode k)" for k
    by (rule reindex_abs_order [OF ord utxo_fold_distinct utxo_fold_keys]) simp_all
  ultimately show ?thesis by auto
qed

text \<open>A walk over the set meets the decoded entries of the abstract map, each once.\<close>

lemma decoded_entries:
  assumes "inv (db bc)" and "utxo_wf P (utxo (db bc))"
  shows "\<exists>kvs es. IterateUTXO S (db bc) = Ok kvs \<and> distinct (map fst es) \<and> map_of es = abs_utxo P (utxo (db bc)) \<and>
    list_all2 (\<lambda>(k, v) (k', outs). k' = k \<and> DeserializeOutputs P v = Ok \<lparr>Outputs = outs\<rparr>) kvs es"
proof -
  obtain kvs where kvs: "IterateUTXO S (db bc) = Ok kvs" "distinct (map fst kvs)" "map_of kvs = utxo (db bc)"
    using iterate [OF assms(1)] by blast
  define es where "es = map (\<lambda>(k, v). (k, case DeserializeOutputs P v of Ok outs \<Rightarrow> Outputs outs | _ \<Rightarrow> [])) kvs"
  have dec: "\<exists>outs. DeserializeOutputs P v = Ok outs" if "(k, v) \<in> set kvs" for k v
    using that kvs(2,3) assms(2) unfolding utxo_wf_def by (metis is_Ok_iff map_of_is_SomeI)
  have la: "list_all2 (\<lambda>(k, v) (k', outs). k' = k \<and> DeserializeOutputs P v = Ok \<lparr>Outputs = outs\<rparr>) kvs es"
    using dec by (force simp: es_def list_all2_map2 list_all2_same)
  have es: "map fst es = map fst kvs" by (simp add: es_def case_prod_beta)
  have "map_of es k = abs_utxo P (utxo (db bc)) k" for k
  proof (cases "map_of kvs k")
    case (Some v)
    then obtain outs where "DeserializeOutputs P v = Ok outs" using dec map_of_SomeD by metis
    then show ?thesis using Some kvs(3) by (simp add: es_def map_of_map abs_utxo_def)
  qed (use kvs(3) in \<open>simp add: es_def map_of_map abs_utxo_def\<close>)
  then have "map_of es = abs_utxo P (utxo (db bc))" by blast
  with kvs(1,2) la es show ?thesis by (metis (no_types, lifting))
qed

end

section \<open>Picking outputs\<close>

text \<open>The outputs of the set that a key may spend, in iteration order, with id and position.\<close>

definition spendable_outs :: "bytes \<Rightarrow> (bytes \<times> TXOutput list) list \<Rightarrow> (string \<times> int64 \<times> TXOutput) list" where
  "spendable_outs pkh es =
     concat (map (\<lambda>(k, outs). map (\<lambda>(j, out). (hex_encode k, of_nat j, out))
       (filter (\<lambda>(j, out). ScriptType out \<noteq> ScriptTypeEscrow \<and> IsLockedWithKey out pkh) (indexed outs))) es)"

fun picks :: "int64 \<Rightarrow> int64 \<Rightarrow> (string \<times> int64 \<times> TXOutput) list \<Rightarrow> (string \<times> int64 \<times> TXOutput) list" where
  "picks amount acc [] = []"
| "picks amount acc (x # xs) =
     (if sint acc < sint amount then x # picks amount (acc + Value (snd (snd x))) xs else [])"

definition picked_sum :: "(string \<times> int64 \<times> TXOutput) list \<Rightarrow> int64" where
  "picked_sum ps = sum_list (map (\<lambda>x. Value (snd (snd x))) ps)"

definition picked_map :: "(string \<times> int64 \<times> TXOutput) list \<Rightarrow> spendable \<Rightarrow> spendable" where
  "picked_map ps m = fold (\<lambda>x. alist_append (fst x) (fst (snd x))) ps m"

lemma picks_append:
  "picks amount acc (xs @ ys) = picks amount acc xs @ picks amount (acc + picked_sum (picks amount acc xs)) ys"
proof (induction xs arbitrary: acc)
  case (Cons x xs)
  show ?case
  proof (cases "sint acc < sint amount")
    case False
    then show ?thesis by (cases ys) (auto simp: picked_sum_def)
  qed (use Cons in \<open>simp add: picked_sum_def add.assoc\<close>)
qed (simp add: picked_sum_def)

lemma picks_prefix: "\<exists>rest. xs = picks amount acc xs @ rest"
  by (induction xs arbitrary: acc) auto

lemma picks_enough:
  "picks amount acc xs = xs \<or> sint amount \<le> sint (acc + picked_sum (picks amount acc xs))"
proof (induction xs arbitrary: acc)
  case (Cons x xs)
  then show ?case using Cons.IH [of "acc + Value (snd (snd x))"] by (simp add: picked_sum_def add.assoc)
qed simp

lemma spend_outs_eq:
  "spend_outs t pkh amount ios (acc, m) =
     (let ps = picks amount acc (map (\<lambda>(j, out). (t, of_nat j, out))
        (filter (\<lambda>(j, out). ScriptType out \<noteq> ScriptTypeEscrow \<and> IsLockedWithKey out pkh) ios))
      in (acc + picked_sum ps, picked_map ps m))"
proof (induction ios arbitrary: acc m)
  case (Cons x ios)
  obtain j out where x: "x = (j, out)" by force
  show ?case
  proof (cases "sint acc < sint amount")
    case True
    then show ?thesis using Cons.IH by (simp add: x Let_def picked_sum_def picked_map_def add.assoc)
  next
    case False
    have "picks amount acc ys = []" for ys using False by (cases ys) auto
    then show ?thesis using Cons.IH False by (simp add: x Let_def picked_sum_def picked_map_def)
  qed
qed (simp add: picked_sum_def picked_map_def)

lemma spend_run:
  assumes "list_all2 (\<lambda>(k, v) (k', outs). k' = k \<and> DeserializeOutputs P v = Ok \<lparr>Outputs = outs\<rparr>) kvs es"
  shows "run_yield (\<lambda>k v st. bind_result (DeserializeOutputs P v) (\<lambda>outs.
            let st' = spend_outs (hex_encode k) pkh amount (indexed (Outputs outs)) st
            in Ok (st', \<not> sint (fst st') \<ge> sint amount))) kvs (acc, m) =
     (let ps = picks amount acc (spendable_outs pkh es) in Ok (acc + picked_sum ps, picked_map ps m))"
  using assms
proof (induction kvs es arbitrary: acc m rule: list_all2_induct)
  case Nil
  then show ?case by (simp add: spendable_outs_def picked_sum_def picked_map_def)
next
  case (Cons kv kvs ke es)
  obtain k v outs where kv: "kv = (k, v)" "ke = (k, outs)" "DeserializeOutputs P v = Ok \<lparr>Outputs = outs\<rparr>"
    using Cons.hyps(1) by (cases kv; cases ke) auto
  let ?xs = "map (\<lambda>(j, out). (hex_encode k, of_nat j, out))
        (filter (\<lambda>(j, out). ScriptType out \<noteq> ScriptTypeEscrow \<and> IsLockedWithKey out pkh) (indexed outs))"
  have so: "spendable_outs pkh (ke # es) = ?xs @ spendable_outs pkh es"
    by (simp add: spendable_outs_def kv)
  let ?ps = "picks amount acc ?xs"
  show ?case
  proof (cases "sint (acc + picked_sum ?ps) \<ge> sint amount")
    case True
    then have "picks amount (acc + picked_sum ?ps) ys = []" for ys by (cases ys) auto
    then show ?thesis using True unfolding so picks_append by (simp add: kv spend_outs_eq Let_def)
  next
    case False
    then show ?thesis using Cons.IH unfolding so picks_append
      by (simp add: kv spend_outs_eq Let_def picked_sum_def picked_map_def add.assoc)
  qed
qed

section \<open>Concrete writes\<close>

lemma list_SaveUTXO:
  "s utxoBucket = Some b \<Longrightarrow> k \<noteq> [] \<Longrightarrow>
     SaveUTXO list_storage k d s = (Ok (), s(utxoBucket \<mapsto> AList.update k d b))"
  by (simp add: bolt_storage_def DB_SaveUTXO_def list_bbolt_def)

lemma sample_bc_utxo:
  "bolt_inv list_bbolt (db (sample_bc txs))" "bolt_utxo list_bbolt (db (sample_bc txs)) = Map.empty"
  "db (sample_bc txs) utxoBucket = Some []"
proof -
  show "bolt_inv list_bbolt (db (sample_bc txs))" using sample_bc_facts(1) by (simp add: bc_synced_def)
  show "db (sample_bc txs) utxoBucket = Some []"
    using list_SaveBlockAndTip [of empty_db "[]" "[7]"]
    by (simp add: sample_bc_def bolt_storage_def empty_db_def)
  then show "bolt_utxo list_bbolt (db (sample_bc txs)) = Map.empty"
    by (simp add: bolt_utxo_def list_bbolt_def)
qed

lemma sample_save_outs:
  assumes "db bc utxoBucket = Some b" and "k \<noteq> []"
  shows "\<exists>d. save_outs sample_prims list_storage msg k outs bc = (Ok (), bc\<lparr>db := (db bc)(utxoBucket \<mapsto> AList.update k d b)\<rparr>)"
  using Deserialize_Serialize_outs [OF sample_gob_ok, of "\<lparr>Outputs = outs\<rparr>"] list_SaveUTXO [where s = "db bc" and b = b, OF assms]
  by (auto simp: save_outs_def on_db_def)

lemma for_each_total:
  assumes "\<And>x s. x \<in> set xs \<Longrightarrow> Q s \<Longrightarrow> \<exists>s'. f x s = (Ok (), s') \<and> Q s'" and "Q s"
  shows "\<exists>s'. for_each f xs s = (Ok (), s') \<and> Q s'"
  using assms
proof (induction xs arbitrary: s)
  case (Cons x xs)
  obtain s1 where s1: "f x s = (Ok (), s1)" "Q s1" using Cons.prems(1) [of x s] Cons.prems(2) by auto
  have "\<exists>s'. for_each f xs s1 = (Ok (), s') \<and> Q s'"
    using Cons.prems(1) s1(2) by (intro Cons.IH) auto
  then show ?case using s1(1) by simp
qed simp

text \<open>On the concrete database no write of the set fails.\<close>

abbreviation list_ok :: "(bytes \<times> bytes) list buckets Blockchain \<Rightarrow> bool" where
  "list_ok bc \<equiv> bolt_inv list_bbolt (db bc) \<and> utxo_wf sample_prims (bolt_utxo list_bbolt (db bc))"

lemma list_save_outs_total:
  assumes "list_ok bc" and "k \<noteq> []"
  shows "\<exists>bc'. save_outs sample_prims list_storage msg k outs bc = (Ok (), bc') \<and> list_ok bc'"
proof -
  obtain b where "db bc utxoBucket = Some b" using assms(1) by (auto simp: bolt_inv_def)
  from sample_save_outs [where bc = bc and b = b, OF this assms(2)] obtain bc' where
    s: "save_outs sample_prims list_storage msg k outs bc = (Ok (), bc')" by blast
  then show ?thesis
    using bolt.save_outs_Ok [OF sample_gob_ok _ _ s] assms(1) by (auto simp: bolt.utxo_frame_def)
qed

lemma list_update_input_total:
  assumes "list_ok bc" and "Txid vin \<noteq> []"
  shows "\<exists>bc'. update_input sample_prims list_storage vin bc = (Ok (), bc') \<and> list_ok bc'"
proof (cases "bolt_utxo list_bbolt (db bc) (Txid vin)")
  case None
  then show ?thesis using assms(1) by (simp add: update_input_def bolt.get_utxo)
next
  case (Some d)
  then obtain outs where o: "DeserializeOutputs sample_prims d = Ok outs"
    using assms(1) by (auto simp: utxo_wf_def is_Ok_iff)
  have g: "GetUTXO list_storage (Txid vin) (db bc) = Ok d" using Some assms(1) by (simp add: bolt.get_utxo)
  let ?rest = "without (Vout_in vin) (Outputs outs)"
  have "\<exists>bc'. update_input sample_prims list_storage vin bc = (Ok (), bc')"
  proof (cases "?rest = []")
    case True
    obtain b where "db bc utxoBucket = Some b" using assms(1) by (auto simp: bolt_inv_def)
    then show ?thesis using g o True
      by (simp add: update_input_def on_db_def Let_def)
        (simp add: bolt_storage_def DB_DeleteUTXO_def list_bbolt_def)
  next
    case False
    then show ?thesis using g o list_save_outs_total [OF assms, of "''failed to update utxo''" ?rest]
      by (auto simp: update_input_def Let_def)
  qed
  then obtain bc' where u: "update_input sample_prims list_storage vin bc = (Ok (), bc')" by blast
  then show ?thesis
    using bolt.update_input_Ok [OF sample_gob_ok _ _ u] assms(1) by (auto simp: bolt.utxo_frame_def)
qed

lemma list_Update_total:
  assumes "list_ok bc"
    and "\<forall>tx \<in> set (Transactions b). ID tx \<noteq> [] \<and> (IsCoinbase tx \<or> (\<forall>vin \<in> set (Vin tx). Txid vin \<noteq> []))"
  shows "\<exists>bc'. Update sample_prims list_storage b bc = (Ok (), bc') \<and> list_ok bc'"
  unfolding Update_def
proof (rule for_each_total [where Q = list_ok])
  fix tx bc assume "tx \<in> set (Transactions b)" and ok: "list_ok bc"
  then have ne: "ID tx \<noteq> []" "IsCoinbase tx \<or> (\<forall>vin \<in> set (Vin tx). Txid vin \<noteq> [])" using assms(2) by auto
  have "\<exists>bc1. for_each (update_input sample_prims list_storage) (Vin tx) bc = (Ok (), bc1) \<and> list_ok bc1"
    if "\<not> IsCoinbase tx"
    using ne(2) that by (intro for_each_total [where Q = list_ok, OF _ ok] list_update_input_total) auto
  then obtain bc1 where "\<not> IsCoinbase tx \<Longrightarrow> for_each (update_input sample_prims list_storage) (Vin tx) bc = (Ok (), bc1) \<and> list_ok bc1"
    by blast
  with list_save_outs_total [OF _ ne(1)] ok
  show "\<exists>bc'. update_tx sample_prims list_storage tx bc = (Ok (), bc') \<and> list_ok bc'"
    by (simp add: update_tx_def)
qed (rule assms(1))

lemma sample_update:
  "\<exists>bc'. Update sample_prims list_storage (sample_block [sample_coinbase]) (sample_bc txs) = (Ok (), bc')"
proof -
  obtain bc' where "save_outs sample_prims list_storage ''failed to save new utxos'' [9] [sample_out 10 0] (sample_bc txs) = (Ok (), bc')"
    using sample_save_outs [OF sample_bc_utxo(3) [of txs], of "[9]"] by blast
  then show ?thesis by (simp add: Update_def update_tx_def sample_coinbase_def IsCoinbase_def)
qed

text \<open>A bucket with the two outputs of transaction \<open>[1]\<close>, and the blocks that spend them.\<close>

definition sample_two :: "(bytes \<times> bytes) list buckets Blockchain" where
  "sample_two = snd (save_outs sample_prims list_storage [] [1] [sample_out 6 0, sample_out 4 0] (sample_bc []))"

definition spending_block :: "bytes \<Rightarrow> bytes \<Rightarrow> int64 \<Rightarrow> Block" where
  "spending_block txid t i = sample_block [\<lparr>ID = txid, Vin = [sample_in\<lparr>Txid := t, Vout_in := i\<rparr>], Vout = []\<rparr>]"

lemma sample_two_facts:
  "list_ok sample_two" "abs_utxo sample_prims (bolt_utxo list_bbolt (db sample_two)) [1] = Some [sample_out 6 0, sample_out 4 0]"
proof -
  have ok: "list_ok (sample_bc [])" by (simp add: sample_bc_utxo utxo_wf_def)
  obtain bc' where s: "save_outs sample_prims list_storage [] [1] [sample_out 6 0, sample_out 4 0] (sample_bc []) = (Ok (), bc')" "list_ok bc'"
    using list_save_outs_total [OF ok, of "[1]" "[]" "[sample_out 6 0, sample_out 4 0]"] by auto
  then show "list_ok sample_two" by (simp add: sample_two_def)
  show "abs_utxo sample_prims (bolt_utxo list_bbolt (db sample_two)) [1] = Some [sample_out 6 0, sample_out 4 0]"
    using bolt.save_outs_Ok [OF sample_gob_ok _ _ s(1)] ok s(1) by (simp add: sample_two_def)
qed

lemma sample_reindex:
  "\<exists>bc'. Reindex sample_prims list_storage (\<lambda>x. x) (sample_bc [sample_tx]) = (Ok (), bc')"
proof -
  let ?bc = "sample_bc [sample_tx]"
  obtain d where c: "ClearUTXOSet list_storage (db ?bc) = (Ok (), d)"
    using sample_bc_utxo(3) [of "[sample_tx]"] by (simp add: bolt_storage_def DB_ClearUTXOSet_def list_bbolt_def)
  from bolt.clear_utxo [OF sample_bc_utxo(1) c] have d: "bolt_inv list_bbolt d" "bolt_utxo list_bbolt d = Map.empty"
    "bolt_blk list_bbolt d = bolt_blk list_bbolt (db ?bc)" by auto
  have "good_chain (BC_GetBlock sample_prims list_storage d) [7] [sample_block [sample_tx]]"
    using good_chain_cong [OF sample_bc_facts(3), of "[sample_tx]" "BC_GetBlock sample_prims list_storage d"]
      sample_bc_utxo(1) [of "[sample_tx]"] d
    by (simp add: bolt.BC_GetBlock_eq tipKey_def string_bytes_def)
  from FindUTXO_chain [of _ _ "?bc\<lparr>db := d\<rparr>", simplified, OF good_chain_chain [OF this]]
  have "FindUTXO sample_prims list_storage (?bc\<lparr>db := d\<rparr>) = Ok [(''02'', [sample_out 6 0, sample_out 4 0])]"
    by (simp add: chain_txs_def utxo_step_def alist_append_def hex_digit_def)
  moreover have "list_ok (?bc\<lparr>db := d\<rparr>)" using d by (simp add: utxo_wf_def)
  from list_save_outs_total [OF this, of "[2]" "''failed to save utxo''" "[sample_out 6 0, sample_out 4 0]"]
  obtain bc' where "save_outs sample_prims list_storage ''failed to save utxo'' [2] [sample_out 6 0, sample_out 4 0] (?bc\<lparr>db := d\<rparr>) = (Ok (), bc')"
    by auto
  ultimately show ?thesis using c by (simp add: Reindex_def on_db_def reindex_entry_def hex_value_def)
qed

section \<open>Properties\<close>



text \<open>
  The set loses track of positions: the list of an entry closes up when one of its outputs
  is spent, while inputs keep naming outputs by their position in the transaction. After two
  blocks that spend output 0 and then output 1 of a transaction with two outputs, the set still
  holds the second one, at position 0.
\<close>

theorem Update_stale_index:
  assumes "gob_ok P" and "bolt_inv B (db bc)" and "utxo_wf P (bolt_utxo B (db bc))"
    and "abs_utxo P (bolt_utxo B (db bc)) t = Some [a, b]" and "t \<noteq> []"
    and "Transactions b0 = [\<lparr>ID = i0, Vin = [v0], Vout = o0\<rparr>]" and "Txid v0 = t" and "Vout_in v0 = 0" and "i0 \<noteq> t"
    and "Transactions b1 = [\<lparr>ID = i1, Vin = [v1], Vout = o1\<rparr>]" and "Txid v1 = t" and "Vout_in v1 = 1" and "i1 \<noteq> t"
    and "Update P (bolt_storage B) b0 bc = (Ok (), bc')" and "Update P (bolt_storage B) b1 bc' = (Ok (), bc'')"
  shows "abs_utxo P (bolt_utxo B (db bc'')) t = Some [b]"
proof -
  note u0 = bolt.Update_Ok [OF assms(1-3,14), unfolded bolt.utxo_frame_def]
  then have "bolt_inv B (db bc')" "utxo_wf P (bolt_utxo B (db bc'))" by auto
  note u1 = bolt.Update_Ok [OF assms(1) this assms(15)]
  have "abs_utxo P (bolt_utxo B (db bc')) t = Some [b]"
    using u0 assms(4-9) by (auto simp: tx_abs_def IsCoinbase_def spend_abs_def without_def)
  then show ?thesis
    using u1 assms(5,10-13) by (auto simp: tx_abs_def IsCoinbase_def spend_abs_def without_def)
qed

theorem Update_stale_index_witness:
  "\<exists>bc' bc''. Update sample_prims list_storage (spending_block [8] [1] 0) sample_two = (Ok (), bc') \<and>
     Update sample_prims list_storage (spending_block [10] [1] 1) bc' = (Ok (), bc'') \<and>
     abs_utxo sample_prims (bolt_utxo list_bbolt (db bc'')) [1] = Some [sample_out 4 0]"
proof -
  note two = sample_two_facts
  obtain bc' where b0: "Update sample_prims list_storage (spending_block [8] [1] 0) sample_two = (Ok (), bc')" "list_ok bc'"
    using list_Update_total [OF two(1), of "spending_block [8] [1] 0"] by (auto simp: spending_block_def)
  obtain bc'' where b1: "Update sample_prims list_storage (spending_block [10] [1] 1) bc' = (Ok (), bc'')"
    using list_Update_total [OF b0(2), of "spending_block [10] [1] 1"] by (auto simp: spending_block_def)
  have "abs_utxo sample_prims (bolt_utxo list_bbolt (db bc'')) [1] = Some [sample_out 4 0]"
    using two(1)
    by (intro Update_stale_index [OF sample_gob_ok _ _ two(2) _ _ _ _ _ _ _ _ _ b0(1) b1])
      (auto simp: spending_block_def)
  with b0(1) b1 show ?thesis by blast
qed

text \<open>
  C33. Reindexing: after \<open>Reindex\<close> succeeds over a well-formed chain, a transaction with an id of
  its own has an entry exactly when \<open>FindUTXO\<close> leaves it unspent outputs, and the entry holds
  those outputs; ids that the chain does not contain have no entry; blocks and tip are not
  touched. The order in which the map is ranged over does not matter.
\<close>

theorem Reindex_spec:
  assumes "gob_ok P" and "bolt_inv B (db bc)" and "is_order ord"
    and "good_chain (BC_GetBlock P (bolt_storage B) (db bc)) (tip bc) bs" and "\<forall>b \<in> set bs. block_key (Hash b)"
    and "Reindex P (bolt_storage B) ord bc = (Ok (), bc')"
  shows "bolt_inv B (db bc') \<and> bolt_blk B (db bc') = bolt_blk B (db bc) \<and> bolt_tip B (db bc') = bolt_tip B (db bc) \<and>
    (\<forall>k. k \<notin> ID ` set (chain_txs bs) \<longrightarrow> abs_utxo P (bolt_utxo B (db bc')) k = None) \<and>
    (\<forall>pre tx post. chain_txs bs = pre @ tx # post \<and> ID tx \<notin> ID ` set (pre @ post) \<longrightarrow>
       abs_utxo P (bolt_utxo B (db bc')) (ID tx) =
         (let outs = unspent_outs (spent_by pre (hex_encode (ID tx))) (Vout tx)
          in if outs = [] then None else Some outs))"
proof -
  let ?U = "fst (fold utxo_step (chain_txs bs) ([], \<lambda>_. []))"
  note r = bolt.Reindex_Ok [OF assms, unfolded bolt.utxo_frame_def]
  have k: "abs_utxo P (bolt_utxo B (db bc')) k = (if alist_get ?U (hex_encode k) = [] then None else Some (alist_get ?U (hex_encode k)))" for k
    using r map_of_alist_get [OF utxo_fold_nonempty, of "([], \<lambda>_. [])" "chain_txs bs" "hex_encode k"] by simp
  have "alist_get ?U (hex_encode k) = []" if "k \<notin> ID ` set (chain_txs bs)" for k
    using that by (subst utxo_fold_other) auto
  moreover have "alist_get ?U (hex_encode (ID tx)) = unspent_outs (spent_by pre (hex_encode (ID tx))) (Vout tx)"
    if "chain_txs bs = pre @ tx # post" "ID tx \<notin> ID ` set (pre @ post)" for pre tx post
    using utxo_fold_get [OF that(2)] unfolding that(1) .
  ultimately show ?thesis using r by (simp only: k Let_def) (metis (no_types, lifting))
qed

theorem Reindex_spec_witness:
  "\<exists>bc'. Reindex sample_prims list_storage (\<lambda>x. x) (sample_bc [sample_tx]) = (Ok (), bc') \<and>
     abs_utxo sample_prims (bolt_utxo list_bbolt (db bc')) [2] = Some [sample_out 6 0, sample_out 4 0]"
proof -
  obtain bc' where r: "Reindex sample_prims list_storage (\<lambda>x. x) (sample_bc [sample_tx]) = (Ok (), bc')"
    using sample_reindex by blast
  have key: "\<forall>b \<in> set [sample_block [sample_tx]]. block_key (Hash b)" by (simp add: tipKey_def string_bytes_def)
  have "chain_txs [sample_block [sample_tx]] = [] @ sample_tx # []" by (simp add: chain_txs_def)
  with Reindex_spec [OF sample_gob_ok sample_bc_utxo(1) is_order_id sample_bc_facts(3) key r]
  have "abs_utxo sample_prims (bolt_utxo list_bbolt (db bc')) (ID sample_tx) =
      (let outs = unspent_outs (spent_by [] (hex_encode (ID sample_tx))) (Vout sample_tx)
       in if outs = [] then None else Some outs)"
    by (metis append_Nil empty_iff image_empty list.set(1))
  with r show ?thesis by (simp add: spent_by_def unspent_outs_def Let_def)
qed

text \<open>
  \<open>FindSpendableOutputs\<close> goes through the plain and ZKCP outputs locked to the key in the
  iteration order of the set and takes the shortest run of them from the start whose 64-bit sum
  reaches the amount, or all of them when it is never reached. It returns that sum and, for
  every transaction, the positions it took.
\<close>

theorem FindSpendableOutputs_spec:
  assumes "bolt_inv B (db bc)" and "utxo_wf P (bolt_utxo B (db bc))"
  shows "\<exists>es rest. map_of es = abs_utxo P (bolt_utxo B (db bc)) \<and> distinct (map fst es) \<and>
     (let ps = picks amount 0 (spendable_outs pkh es) in
      spendable_outs pkh es = ps @ rest \<and> (rest = [] \<or> sint amount \<le> sint (picked_sum ps)) \<and>
      FindSpendableOutputs P (bolt_storage B) bc pkh amount = Ok (picked_sum ps, picked_map ps []))"
proof -
  obtain kvs es where kvs: "IterateUTXO (bolt_storage B) (db bc) = Ok kvs" and es: "distinct (map fst es)"
      "map_of es = abs_utxo P (bolt_utxo B (db bc))"
    and la: "list_all2 (\<lambda>(k, v) (k', outs). k' = k \<and> DeserializeOutputs P v = Ok \<lparr>Outputs = outs\<rparr>) kvs es"
    using bolt.decoded_entries [OF assms] by blast
  let ?ps = "picks amount 0 (spendable_outs pkh es)"
  have "FindSpendableOutputs P (bolt_storage B) bc pkh amount = Ok (picked_sum ?ps, picked_map ?ps [])"
    using spend_run [OF la, of pkh amount 0 "[]"]
    by (simp add: FindSpendableOutputs_def iterate_utxo_def kvs(1) Let_def)
  moreover obtain rest where "spendable_outs pkh es = ?ps @ rest" using picks_prefix by blast
  moreover have "rest = [] \<or> sint amount \<le> sint (picked_sum ?ps)"
    using picks_enough [of amount 0 "spendable_outs pkh es"] calculation(2) by auto
  ultimately show ?thesis using es by (auto simp: Let_def)
qed

theorem FindSpendableOutputs_spec_witness:
  "\<exists>acc m. FindSpendableOutputs sample_prims list_storage sample_two [1, 2, 3] 5 = Ok (acc, m)"
  using FindSpendableOutputs_spec [of list_bbolt sample_two sample_prims 5 "[1, 2, 3]"] sample_two_facts(1)
  by (auto simp: Let_def)

end
