(* ===== verification/TxBuild.thy ===== *)
theory TxBuild
  imports Utxo
begin

text \<open>
  The functions of \<^verbatim>\<open>internal/core/transaction.go\<close> that build signed transactions out of a
  wallet and the chain: payments, escrow deposits, escrow claims and escrow refunds. \<open>ord\<close> is
  the order in which the map of chosen outputs is ranged over, \<open>rnd\<close> the randomness of the
  signatures.
\<close>

section \<open>Builders\<close>

text \<open>The inputs for the chosen outputs.\<close>

fun build_inputs :: "bytes \<Rightarrow> spendable \<Rightarrow> TXInput list result" where
  "build_inputs pubKey [] = Ok []"
| "build_inputs pubKey ((txid, outs) # rest) =
     bind_result (wrap_err ''failed to decode tx string'' (hex_decode txid)) (\<lambda>txID.
     bind_result (build_inputs pubKey rest) (\<lambda>inputs.
       Ok (map (\<lambda>out. \<lparr>Txid = txID, Vout_in = out, Signature = [], PubKey = pubKey,
                       EscrowWitness = [], IsRefund = False\<rparr>) outs @ inputs)))"

text \<open>The list of outputs: the payment, and the change when more than the amount was selected.\<close>

definition with_change :: "string \<Rightarrow> int64 \<Rightarrow> int64 \<Rightarrow> TXOutput \<Rightarrow> TXOutput list result" where
  "with_change self acc amount out =
     (if sint acc > sint amount
      then bind_result (NewTXOutput (acc - amount) self) (\<lambda>change. Ok [out, change])
      else Ok [out])"

text \<open>The end of every builder: the id is the hash, then the chain signs.\<close>

definition finish_tx ::
    "Prims \<Rightarrow> 's Storage \<Rightarrow> (nat \<Rightarrow> nat) \<Rightarrow> string \<Rightarrow> 's Blockchain \<Rightarrow> PrivateKey \<Rightarrow> Transaction \<Rightarrow> Transaction result" where
  "finish_tx P S rnd msg bc k tx =
     (case SignTransaction P S bc rnd (tx\<lparr>ID := Hash_tx P tx\<rparr>) k of
        (Ok _, tx) \<Rightarrow> Ok tx
      | (r, _) \<Rightarrow> wrap_err msg (as_failure r))"

definition NewUTXOTransaction ::
    "Prims \<Rightarrow> 's Storage \<Rightarrow> (spendable \<Rightarrow> spendable) \<Rightarrow> (nat \<Rightarrow> nat) \<Rightarrow> Wallet \<Rightarrow> string \<Rightarrow> int64 \<Rightarrow>
     's Blockchain \<Rightarrow> Transaction result" where
  "NewUTXOTransaction P S ord rnd wallet to amount bc =
     bind_result (wrap_err ''failed to find spendable outputs''
         (FindSpendableOutputs P S bc (HashPubKey P (PublicKey wallet)) amount)) (\<lambda>(acc, validOutputs).
     if sint acc < sint amount then Error (ErrMsg ''not enough funds'')
     else
       bind_result (build_inputs (PublicKey wallet) (ord validOutputs)) (\<lambda>inputs.
       bind_result (NewTXOutput amount to) (\<lambda>out.
       bind_result (with_change (address_of P wallet) acc amount out) (\<lambda>outputs.
         finish_tx P S rnd ''failed to sign transaction'' bc (PrivKey wallet)
           \<lparr>ID = [], Vin = inputs, Vout = outputs\<rparr>))))"

definition NewEscrowTransaction ::
    "Prims \<Rightarrow> 's Storage \<Rightarrow> (spendable \<Rightarrow> spendable) \<Rightarrow> (nat \<Rightarrow> nat) \<Rightarrow> Wallet \<Rightarrow> string \<Rightarrow> int64 \<Rightarrow> bytes \<Rightarrow>
     int64 \<Rightarrow> 's Blockchain \<Rightarrow> Transaction result" where
  "NewEscrowTransaction P S ord rnd buyerWallet sellerAddr amount dataHash timeoutBlock bc =
     bind_result (wrap_err ''failed to find spendable outputs''
         (FindSpendableOutputs P S bc (HashPubKey P (PublicKey buyerWallet)) amount)) (\<lambda>(acc, validOutputs).
     if sint acc < sint amount then Error (ErrMsg ''not enough funds'')
     else
       bind_result (build_inputs (PublicKey buyerWallet) (ord validOutputs)) (\<lambda>inputs.
       let buyerAddr = address_of P buyerWallet in
       bind_result (NewEscrowOutput amount sellerAddr buyerAddr dataHash timeoutBlock) (\<lambda>escrowOut.
       bind_result (with_change buyerAddr acc amount escrowOut) (\<lambda>outputs.
         finish_tx P S rnd ''failed to sign transaction'' bc (PrivKey buyerWallet)
           \<lparr>ID = [], Vin = inputs, Vout = outputs\<rparr>))))"

definition NewEscrowClaimTransaction ::
    "Prims \<Rightarrow> 's Storage \<Rightarrow> (nat \<Rightarrow> nat) \<Rightarrow> Wallet \<Rightarrow> bytes \<Rightarrow> int64 \<Rightarrow> bytes \<Rightarrow> 's Blockchain \<Rightarrow> Transaction result" where
  "NewEscrowClaimTransaction P S rnd sellerWallet escrowTxID escrowOutIdx deliveredData bc =
     bind_result (wrap_err ''failed to find escrow transaction'' (FindTransaction P S bc escrowTxID)) (\<lambda>escrowTx.
     if sint escrowOutIdx < 0 \<or> sint escrowOutIdx \<ge> int (length (Vout escrowTx))
     then Error (ErrMsg ''invalid escrow output index'')
     else
       bind_result (go_index (Vout escrowTx) escrowOutIdx) (\<lambda>escrowOut.
       let input = \<lparr>Txid = escrowTxID, Vout_in = escrowOutIdx, Signature = [], PubKey = PublicKey sellerWallet,
                    EscrowWitness = deliveredData, IsRefund = False\<rparr> in
       bind_result (NewTXOutput (Value escrowOut) (address_of P sellerWallet)) (\<lambda>output.
         finish_tx P S rnd ''failed to sign claim transaction'' bc (PrivKey sellerWallet)
           \<lparr>ID = [], Vin = [input], Vout = [output]\<rparr>)))"

definition NewEscrowRefundTransaction ::
    "Prims \<Rightarrow> 's Storage \<Rightarrow> (nat \<Rightarrow> nat) \<Rightarrow> Wallet \<Rightarrow> bytes \<Rightarrow> int64 \<Rightarrow> 's Blockchain \<Rightarrow> Transaction result" where
  "NewEscrowRefundTransaction P S rnd buyerWallet escrowTxID escrowOutIdx bc =
     bind_result (wrap_err ''failed to find escrow transaction'' (FindTransaction P S bc escrowTxID)) (\<lambda>escrowTx.
     if sint escrowOutIdx < 0 \<or> sint escrowOutIdx \<ge> int (length (Vout escrowTx))
     then Error (ErrMsg ''invalid escrow output index'')
     else
       bind_result (go_index (Vout escrowTx) escrowOutIdx) (\<lambda>escrowOut.
       let input = \<lparr>Txid = escrowTxID, Vout_in = escrowOutIdx, Signature = [], PubKey = PublicKey buyerWallet,
                    EscrowWitness = [], IsRefund = True\<rparr> in
       bind_result (NewTXOutput (Value escrowOut) (address_of P buyerWallet)) (\<lambda>output.
         finish_tx P S rnd ''failed to sign refund transaction'' bc (PrivKey buyerWallet)
           \<lparr>ID = [], Vin = [input], Vout = [output]\<rparr>)))"

section \<open>Lemmas\<close>

lemma SignTransaction_strip: "strip_sigs (snd (SignTransaction P S bc rnd tx k)) = strip_sigs tx"
  by (simp add: SignTransaction_def Sign_def Let_def sign_loop_strip split: result.split)

lemma finish_tx_Ok:
  assumes "finish_tx P S rnd msg bc k tx = Ok tx'"
  shows "strip_sigs tx' = strip_sigs (tx\<lparr>ID := Hash_tx P tx\<rparr>)"
  using assms SignTransaction_strip [of P S bc rnd "tx\<lparr>ID := Hash_tx P tx\<rparr>" k]
  by (auto simp: finish_tx_def wrap_err_eq_Ok split: prod.splits result.splits)

text \<open>The references of the inputs, as the builder and as the signed transaction have them.\<close>

definition refs_of :: "TXInput list \<Rightarrow> (bytes \<times> int64) list" where
  "refs_of vins = map (\<lambda>vin. (Txid vin, Vout_in vin)) vins"

lemma refs_of_strip: "strip_sigs t = strip_sigs tx \<Longrightarrow> refs_of (Vin t) = refs_of (Vin tx)"
  using strip_sigs_fields [of t tx] strip_sigs_eqD(2) [of t tx]
  by (auto simp: refs_of_def intro!: nth_equalityI)

definition chosen_refs :: "spendable \<Rightarrow> (bytes \<times> int64) list" where
  "chosen_refs m = concat (map (\<lambda>(t, is). map (\<lambda>i. (case hex_decode t of Ok b \<Rightarrow> b | _ \<Rightarrow> [], i)) is) m)"

lemma build_inputs_Ok:
  "build_inputs pk m = Ok ins \<Longrightarrow> refs_of ins = chosen_refs m \<and>
     (\<forall>vin \<in> set ins. PubKey vin = pk \<and> \<not> IsRefund vin \<and> EscrowWitness vin = [])"
  by (induction pk m arbitrary: ins rule: build_inputs.induct)
    (auto simp: result_simps refs_of_def chosen_refs_def comp_def)

text \<open>The payment and its change.\<close>

lemma pay_outputs:
  assumes "Value out = amount" and "0 < sint amount" and "sint amount \<le> sint acc"
    and "with_change self acc amount out = Ok outs"
  shows "(\<Sum>x\<leftarrow>outs. sint (Value x)) = sint acc"
    and "list_all (\<lambda>x. 0 < sint (Value x)) outs" and "hd outs = out" and "outs \<noteq> []"
proof -
  have change: "0 < sint v" "Value x = v" if "NewTXOutput v to = Ok x" for v x to
    using that by (auto simp: NewTXOutput_eq split: if_splits option.splits)
  have sub: "sint (acc - amount) = sint acc - sint amount"
    using assms(2,3) sint_range64 [of acc] by (subst sint_sub64) auto
  show "(\<Sum>x\<leftarrow>outs. sint (Value x)) = sint acc" "list_all (\<lambda>x. 0 < sint (Value x)) outs" "hd outs = out" "outs \<noteq> []"
    using assms sub change [of "acc - amount"] by (auto simp: with_change_def bind_result_eq_Ok split: if_splits)
qed

text \<open>What every builder that pays out of the unspent outputs of a wallet has in common.\<close>

lemma selected_tx:
  assumes ins: "build_inputs pk m = Ok ins" and out: "Value out = amount" "0 < sint amount" "sint amount \<le> sint acc"
    and outs: "with_change self acc amount out = Ok outs"
    and fin: "finish_tx P S rnd msg bc k \<lparr>ID = [], Vin = ins, Vout = outs\<rparr> = Ok tx"
  shows "refs_of (Vin tx) = chosen_refs m \<and> list_all (\<lambda>vin. PubKey vin = pk \<and> \<not> IsRefund vin) (Vin tx) \<and>
    Vout tx = outs \<and> outs \<noteq> [] \<and> hd (Vout tx) = out \<and> list_all (\<lambda>out. 0 < sint (Value out)) (Vout tx) \<and>
    (\<Sum>out\<leftarrow>Vout tx. sint (Value out)) = sint acc"
proof -
  note st = finish_tx_Ok [OF fin]
  have "\<forall>vin \<in> set (Vin tx). PubKey vin = pk \<and> \<not> IsRefund vin"
    using strip_sigs_fields [OF st] strip_sigs_eqD(2) [OF st] build_inputs_Ok [OF ins]
    by (auto simp: all_set_conv_all_nth)
  moreover have "refs_of (Vin tx) = chosen_refs m"
    using refs_of_strip [OF st] build_inputs_Ok [OF ins] by simp
  moreover have "Vout tx = outs" using strip_sigs_eqD(3) [OF st] by simp
  ultimately show ?thesis using pay_outputs [OF out outs] by (auto simp: list_all_iff)
qed

text \<open>A transaction with one input that spends an output of a transaction of the chain.\<close>

lemma collect_prev_single:
  assumes "FindTransaction P S bc (Txid vin) = Ok etx" and "ID etx = Txid vin"
  shows "collect_prev P S bc [vin] Map.empty = Ok [hex_encode (Txid vin) \<mapsto> etx]"
  using assms by simp

lemma single_spend:
  assumes find: "FindTransaction P S bc (Txid vin) = Ok etx" "ID etx = Txid vin" and t: "Txid vin \<noteq> []"
    and out: "go_index (Vout etx) (Vout_in vin) = Ok out" and h: "GetBestHeight P S bc = Ok height"
    and k: "ecdsa_ok P k" and pk: "is_pubkey k (PubKey vin)" and sc: "script_ok P height vin out"
    and new: "Value new = Value out" "0 < sint (Value new)"
  shows "\<exists>tx. finish_tx P S rnd msg bc k \<lparr>ID = [], Vin = [vin], Vout = [new]\<rparr> = Ok tx \<and>
     VerifyTransaction P S bc tx = Ok True \<and> Vout tx = [new] \<and> refs_of (Vin tx) = [(Txid vin, Vout_in vin)] \<and>
     ID tx = Hash_tx P \<lparr>ID = [], Vin = [vin], Vout = [new]\<rparr> \<and> (\<exists>sig. length sig = 64 \<and> Vin tx = [vin\<lparr>Signature := sig\<rparr>])"
proof -
  let ?tx = "\<lparr>ID = [], Vin = [vin], Vout = [new]\<rparr>"
  define tx1 where "tx1 = ?tx\<lparr>ID := Hash_tx P ?tx\<rparr>"
  have tx1: "Vin tx1 = [vin]" "Vout tx1 = [new]" by (simp_all add: tx1_def)
  let ?prev = "[hex_encode (Txid vin) \<mapsto> etx]"
  have sp: "spends ?prev tx1 [out]" using find(2) t out by (simp add: spends_def tx1 lookup_tx_def)
  have nc: "\<not> IsCoinbase tx1" using t by (simp add: IsCoinbase_def tx1)
  obtain tx' where tx': "Sign P k rnd ?prev tx1 = (Ok (), tx')" "strip_sigs tx' = strip_sigs tx1"
    "Verify P ?prev height tx' = Ok True"
    using Sign_Verify_aux [OF k nc sp, of height rnd] pk sc new by (auto simp: tx1)
  have "map (\<lambda>v. v\<lparr>Signature := []\<rparr>) (Vin tx') = [vin\<lparr>Signature := []\<rparr>]"
    using arg_cong [OF tx'(2), of Vin] tx1 by (simp add: strip_sigs_def)
  then obtain vin' where vin': "Vin tx' = [vin']" "vin'\<lparr>Signature := []\<rparr> = vin\<lparr>Signature := []\<rparr>" by (cases "Vin tx'") auto
  from vin'(2) have v: "vin' = vin\<lparr>Signature := Signature vin'\<rparr>" "Txid vin' = Txid vin" "Vout_in vin' = Vout_in vin"
    by (cases vin'; cases vin; simp)+
  have len: "length (Signature vin') = 64"
    using tx'(3) vin'(1) nc IsCoinbase_strip [OF tx'(2)] by (auto simp: Verify_True_iff input_ok_def)
  have "finish_tx P S rnd msg bc k ?tx = Ok tx'"
    using tx'(1) collect_prev_single [OF find] unfolding finish_tx_def tx1_def [symmetric] SignTransaction_def tx1
    by simp
  moreover have "VerifyTransaction P S bc tx' = Ok True"
    using tx'(3) h collect_prev_single [of P S bc vin' etx] find vin'(1) v(2,3)
    by (auto simp: VerifyTransaction_def IsCoinbase_strip [OF tx'(2)] nc)
  moreover have "Vout tx' = [new]" "ID tx' = Hash_tx P ?tx"
    using strip_sigs_eqD(3,4) [OF tx'(2)] tx1 by (simp_all add: tx1_def)
  moreover have "\<exists>sig. length sig = 64 \<and> Vin tx' = [vin\<lparr>Signature := sig\<rparr>]" using v(1) vin'(1) len by auto
  ultimately show ?thesis using vin'(1) v(2,3) by (auto simp: refs_of_def)
qed

lemma NewTXOutput_self:
  assumes "sha256_ok P" and "0 < sint v"
  shows "\<exists>out. NewTXOutput v (address_of P w) = Ok out \<and> Value out = v \<and> PubKeyHash out = HashPubKey P (PublicKey w)"
  using assms by (auto simp: NewTXOutput_eq address_hash_of_wallet)

lemma escrow_claim_builds:
  assumes "FindTransaction P S bc t = Ok etx" and "ID etx = t" and "t \<noteq> []"
    and "go_index (Vout etx) i = Ok out" and "GetBestHeight P S bc = Ok height" and "sha256_ok P"
    and "ecdsa_ok P (PrivKey w)" and "is_pubkey (PrivKey w) (PublicKey w)"
    and "ScriptType out = ScriptTypeEscrow \<or> ScriptType out = ScriptTypeZKCP" and "0 < sint (Value out)"
    and "PubKeyHash out = HashPubKey P (PublicKey w)" and "DataHashLock out = sha256 P delivered"
  shows "\<exists>tx. NewEscrowClaimTransaction P S rnd w t i delivered bc = Ok tx \<and>
    VerifyTransaction P S bc tx = Ok True \<and> refs_of (Vin tx) = [(t, i)] \<and>
    map (\<lambda>x. (Value x, PubKeyHash x)) (Vout tx) = [(Value out, HashPubKey P (PublicKey w))]"
proof -
  define vin where "vin = \<lparr>Txid = t, Vout_in = i, Signature = [], PubKey = PublicKey w,
      EscrowWitness = delivered, IsRefund = False\<rparr>"
  obtain new where new: "NewTXOutput (Value out) (address_of P w) = Ok new" "Value new = Value out"
    "PubKeyHash new = HashPubKey P (PublicKey w)"
    using NewTXOutput_self [OF assms(6,10)] by blast
  have "script_ok P height vin out"
    using assms(9,11,12) by (auto simp: script_ok_def vin_def CanClaimEscrow_iff CanClaimZKCP_iff Let_def)
  then obtain tx where "finish_tx P S rnd ''failed to sign claim transaction'' bc (PrivKey w) \<lparr>ID = [], Vin = [vin], Vout = [new]\<rparr> = Ok tx"
    "VerifyTransaction P S bc tx = Ok True" "Vout tx = [new]" "refs_of (Vin tx) = [(t, i)]"
    using single_spend [of P S bc vin etx out height "PrivKey w" new rnd "''failed to sign claim transaction''"]
      assms(1-5,7,8,10) new(2) by (auto simp: vin_def)
  moreover have "\<not> (sint i < 0 \<or> sint i \<ge> int (length (Vout etx)))" using assms(4) by (auto simp: go_index_eq_Ok)
  ultimately show ?thesis
    using assms(1,4) new by (simp add: NewEscrowClaimTransaction_def vin_def Let_def)
qed

lemma escrow_refund_builds:
  assumes "FindTransaction P S bc t = Ok etx" and "ID etx = t" and "t \<noteq> []"
    and "go_index (Vout etx) i = Ok out" and "GetBestHeight P S bc = Ok height" and "sha256_ok P"
    and "ecdsa_ok P (PrivKey w)" and "is_pubkey (PrivKey w) (PublicKey w)"
    and "ScriptType out = ScriptTypeEscrow \<or> ScriptType out = ScriptTypeZKCP" and "0 < sint (Value out)"
    and "BuyerPubKeyHash out = HashPubKey P (PublicKey w)" and "sint (TimeoutBlock out) < sint height"
  shows "\<exists>tx. NewEscrowRefundTransaction P S rnd w t i bc = Ok tx \<and>
    VerifyTransaction P S bc tx = Ok True \<and> refs_of (Vin tx) = [(t, i)] \<and>
    map (\<lambda>x. (Value x, PubKeyHash x)) (Vout tx) = [(Value out, HashPubKey P (PublicKey w))]"
proof -
  define vin where "vin = \<lparr>Txid = t, Vout_in = i, Signature = [], PubKey = PublicKey w,
      EscrowWitness = [], IsRefund = True\<rparr>"
  obtain new where new: "NewTXOutput (Value out) (address_of P w) = Ok new" "Value new = Value out"
    "PubKeyHash new = HashPubKey P (PublicKey w)"
    using NewTXOutput_self [OF assms(6,10)] by blast
  have "script_ok P height vin out"
    using assms(9,11,12) by (auto simp: script_ok_def vin_def CanRefundEscrow_iff Let_def)
  then obtain tx where "finish_tx P S rnd ''failed to sign refund transaction'' bc (PrivKey w) \<lparr>ID = [], Vin = [vin], Vout = [new]\<rparr> = Ok tx"
    "VerifyTransaction P S bc tx = Ok True" "Vout tx = [new]" "refs_of (Vin tx) = [(t, i)]"
    using single_spend [of P S bc vin etx out height "PrivKey w" new rnd "''failed to sign refund transaction''"]
      assms(1-5,7,8,10) new(2) by (auto simp: vin_def)
  moreover have "\<not> (sint i < 0 \<or> sint i \<ge> int (length (Vout etx)))" using assms(4) by (auto simp: go_index_eq_Ok)
  ultimately show ?thesis
    using assms(1,4) new by (simp add: NewEscrowRefundTransaction_def vin_def Let_def)
qed

lemma NewUTXOTransaction_OkD:
  assumes "NewUTXOTransaction P S ord rnd w to amount bc = Ok tx"
  shows "\<exists>acc m. FindSpendableOutputs P S bc (HashPubKey P (PublicKey w)) amount = Ok (acc, m) \<and>
    0 < sint amount \<and> sint amount \<le> sint acc \<and> refs_of (Vin tx) = chosen_refs (ord m) \<and>
    list_all (\<lambda>vin. PubKey vin = PublicKey w \<and> \<not> IsRefund vin) (Vin tx) \<and>
    Value (hd (Vout tx)) = amount \<and> address_hash to = Some (PubKeyHash (hd (Vout tx))) \<and>
    list_all (\<lambda>out. 0 < sint (Value out)) (Vout tx) \<and> (\<Sum>out\<leftarrow>Vout tx. sint (Value out)) = sint acc"
proof -
  obtain acc m ins out outs where
    f: "FindSpendableOutputs P S bc (HashPubKey P (PublicKey w)) amount = Ok (acc, m)" "\<not> sint acc < sint amount"
    and ins: "build_inputs (PublicKey w) (ord m) = Ok ins" and out: "NewTXOutput amount to = Ok out"
    and outs: "with_change (address_of P w) acc amount out = Ok outs"
    and fin: "finish_tx P S rnd ''failed to sign transaction'' bc (PrivKey w) \<lparr>ID = [], Vin = ins, Vout = outs\<rparr> = Ok tx"
    using assms unfolding NewUTXOTransaction_def
    by (auto simp: bind_result_eq_Ok wrap_err_eq_Ok split: if_split_asm)
  have o: "address_hash to = Some (PubKeyHash out)" "Value out = amount" "0 < sint amount"
    using out by (auto simp: NewTXOutput_eq split: if_splits option.splits)
  then show ?thesis using f selected_tx [OF ins o(2,3) _ outs fin] by auto
qed

section \<open>Concrete transactions\<close>

definition sample_wallet :: Wallet where
  "sample_wallet = \<lparr>PrivKey = sample_key 5, PublicKey = sample_pk\<rparr>"

definition paid_tx :: "TXOutput \<Rightarrow> Transaction" where
  "paid_tx out = \<lparr>ID = [1], Vin = [], Vout = [out]\<rparr>"

text \<open>A chain whose only block pays \<open>out\<close>, without and with that output in the set.\<close>

definition paid_bc :: "TXOutput \<Rightarrow> (bytes \<times> bytes) list buckets Blockchain" where
  "paid_bc out = sample_bc [paid_tx out]"

definition funded_bc :: "TXOutput \<Rightarrow> (bytes \<times> bytes) list buckets Blockchain" where
  "funded_bc out = snd (save_outs sample_prims list_storage [] [1] [out] (paid_bc out))"

lemma paid_bc_reads:
  "FindTransaction sample_prims list_storage (paid_bc out) [1] = Ok (paid_tx out)"
  "GetBestHeight sample_prims list_storage (paid_bc out) = Ok 0"
proof -
  note g = sample_bc_facts(3) [of "[paid_tx out]"]
  show "FindTransaction sample_prims list_storage (paid_bc out) [1] = Ok (paid_tx out)"
    using FindTransaction_chain [OF good_chain_chain [OF g]] by (simp add: paid_bc_def chain_txs_def paid_tx_def)
  show "GetBestHeight sample_prims list_storage (paid_bc out) = Ok 0"
    using bolt.GetBestHeight_eq [OF sample_bc_facts(1) [of "[paid_tx out]"]] good_chain_hd [OF g]
    by (auto simp: paid_bc_def)
qed

lemma funded_bc_facts:
  "FindTransaction sample_prims list_storage (funded_bc out) [1] = Ok (paid_tx out)"
  "GetBestHeight sample_prims list_storage (funded_bc out) = Ok 0"
  "\<exists>d. IterateUTXO list_storage (db (funded_bc out)) = Ok [([1], d)] \<and> DeserializeOutputs sample_prims d = Ok \<lparr>Outputs = [out]\<rparr>"
proof -
  let ?bc = "paid_bc out"
  have b: "db ?bc utxoBucket = Some []" "bolt_inv list_bbolt (db ?bc)"
    using sample_bc_utxo by (simp_all add: paid_bc_def)
  obtain d where d: "Serialize_outs sample_prims \<lparr>Outputs = [out]\<rparr> = Ok d" "DeserializeOutputs sample_prims d = Ok \<lparr>Outputs = [out]\<rparr>"
    using Deserialize_Serialize_outs [OF sample_gob_ok] by blast
  then have s: "save_outs sample_prims list_storage [] [1] [out] ?bc = (Ok (), ?bc\<lparr>db := (db ?bc)(utxoBucket \<mapsto> [([1], d)])\<rparr>)"
    using list_SaveUTXO [where s = "db ?bc" and b = "[]", OF b(1), of "[1]"]
    by (simp add: save_outs_def on_db_def)
  then have f: "funded_bc out = ?bc\<lparr>db := (db ?bc)(utxoBucket \<mapsto> [([1], d)])\<rparr>" by (simp add: funded_bc_def)
  show "\<exists>d. IterateUTXO list_storage (db (funded_bc out)) = Ok [([1], d)] \<and> DeserializeOutputs sample_prims d = Ok \<lparr>Outputs = [out]\<rparr>"
    using d(2) unfolding f by (simp add: bolt_storage_def DB_IterateUTXO_def in_View_def list_bbolt_def)
  have rd: "GetBlock list_storage h (db (funded_bc out)) = GetBlock list_storage h (db ?bc)"
    "GetTip list_storage (db (funded_bc out)) = GetTip list_storage (db ?bc)" "tip (funded_bc out) = tip ?bc" for h
    unfolding f by (simp_all add: bolt_storage_def DB_GetBlock_def DB_GetTip_def in_View_def list_bbolt_def)
  then have lk: "BC_GetBlock sample_prims list_storage (db (funded_bc out)) = BC_GetBlock sample_prims list_storage (db ?bc)"
    by (simp add: BC_GetBlock_def fun_eq_iff)
  have "chain (BC_GetBlock sample_prims list_storage (db (funded_bc out))) (tip (funded_bc out)) [sample_block [paid_tx out]]"
    using good_chain_chain [OF sample_bc_facts(3) [of "[paid_tx out]"]] unfolding lk rd(3) paid_bc_def .
  from FindTransaction_chain [OF this]
  show "FindTransaction sample_prims list_storage (funded_bc out) [1] = Ok (paid_tx out)"
    by (simp add: chain_txs_def paid_tx_def)
  show "GetBestHeight sample_prims list_storage (funded_bc out) = Ok 0"
    using paid_bc_reads(2) [of out] by (simp add: GetBestHeight_def rd)
qed

lemma funded_bc_ok:
  "list_ok (funded_bc out)" "bc_synced (bolt_inv list_bbolt) (bolt_tip list_bbolt) (funded_bc out)"
  "good_chain (BC_GetBlock sample_prims list_storage (db (funded_bc out))) (tip (funded_bc out)) [sample_block [paid_tx out]]"
  "tip (funded_bc out) = [7]" "dom (bolt_blk list_bbolt (db (funded_bc out))) = {[7]}"
proof -
  have ok: "list_ok (paid_bc out)" by (simp add: paid_bc_def sample_bc_utxo utxo_wf_def)
  obtain bc' where s: "save_outs sample_prims list_storage [] [1] [out] (paid_bc out) = (Ok (), bc')" "list_ok bc'"
    using list_save_outs_total [OF ok, of "[1]" "[]" "[out]"] by auto
  then show "list_ok (funded_bc out)" by (simp add: funded_bc_def)
  have fr: "bolt.utxo_frame list_bbolt (paid_bc out) (funded_bc out)"
    using bolt.save_outs_Ok [OF sample_gob_ok _ _ s(1)] ok s(1) by (simp add: funded_bc_def)
  then show "bc_synced (bolt_inv list_bbolt) (bolt_tip list_bbolt) (funded_bc out)" "tip (funded_bc out) = [7]"
    "dom (bolt_blk list_bbolt (db (funded_bc out))) = {[7]}"
    using sample_bc_facts(1,2) [of "[paid_tx out]"] by (simp_all add: bc_synced_def bolt.utxo_frame_def paid_bc_def)
  have "good_chain (BC_GetBlock sample_prims list_storage (db (paid_bc out))) (tip (funded_bc out)) [sample_block [paid_tx out]]"
    using sample_bc_facts(3) [of "[paid_tx out]"] fr by (simp add: paid_bc_def bolt.utxo_frame_def)
  from bolt.good_chain_frame [OF conjunct1 [OF ok] fr this]
  show "good_chain (BC_GetBlock sample_prims list_storage (db (funded_bc out))) (tip (funded_bc out)) [sample_block [paid_tx out]]"
    by (simp add: tipKey_def string_bytes_def)
qed

lemma sample_wallet_sel [simp]: "PrivKey sample_wallet = sample_key 5" "PublicKey sample_wallet = sample_pk"
  by (simp_all add: sample_wallet_def)

lemma sample_selection:
  "FindSpendableOutputs sample_prims list_storage (funded_bc (sample_out 10 0)) (HashPubKey sample_prims sample_pk) 10 =
     Ok (10, [(''01'', [0])])"
  using funded_bc_facts(3) [of "sample_out 10 0"]
  by (auto simp: FindSpendableOutputs_def iterate_utxo_def IsLockedWithKey_def alist_append_def hex_digit_def Let_def)
    (auto simp: sample_out_def)

lemma sample_finish:
  assumes "Value new = 10"
  shows "\<exists>tx. finish_tx sample_prims list_storage (\<lambda>_. 0) msg (funded_bc (sample_out 10 0)) (sample_key 5)
      \<lparr>ID = [], Vin = [\<lparr>Txid = [1], Vout_in = 0, Signature = [], PubKey = sample_pk, EscrowWitness = [], IsRefund = False\<rparr>],
       Vout = [new]\<rparr> = Ok tx \<and>
      VerifyTransaction sample_prims list_storage (funded_bc (sample_out 10 0)) tx = Ok True \<and> refs_of (Vin tx) = [([1], 0)] \<and> length (ID tx) = 32 \<and>
      Vout tx = [new] \<and> (\<exists>sig. length sig = 64 \<and> Vin tx = [\<lparr>Txid = [1], Vout_in = 0, Signature = sig, PubKey = sample_pk, EscrowWitness = [], IsRefund = False\<rparr>])"
proof -
  let ?vin = "\<lparr>Txid = [1], Vout_in = 0, Signature = [], PubKey = sample_pk, EscrowWitness = [], IsRefund = False\<rparr>"
  show ?thesis
    using single_spend [of sample_prims list_storage "funded_bc (sample_out 10 0)" ?vin "paid_tx (sample_out 10 0)"
        "sample_out 10 0" 0 "sample_key 5" new "\<lambda>_. 0" msg] funded_bc_facts(1,2) [of "sample_out 10 0"] assms
    by (auto simp: paid_tx_def go_index_def script_ok_def Hash_tx_def sample_sha256_ok [unfolded sha256_ok_def])
qed

lemma sample_payment:
  "\<exists>tx. NewUTXOTransaction sample_prims list_storage (\<lambda>x. x) (\<lambda>_. 0) sample_wallet (address_of sample_prims sample_wallet) 10
     (funded_bc (sample_out 10 0)) = Ok tx \<and>
     VerifyTransaction sample_prims list_storage (funded_bc (sample_out 10 0)) tx = Ok True \<and> refs_of (Vin tx) = [([1], 0)] \<and> length (ID tx) = 32 \<and>
     (\<exists>out. Vout tx = [out] \<and> NewTXOutput 10 (address_of sample_prims sample_wallet) = Ok out) \<and>
     (\<exists>sig. length sig = 64 \<and> Vin tx = [\<lparr>Txid = [1], Vout_in = 0, Signature = sig, PubKey = sample_pk, EscrowWitness = [], IsRefund = False\<rparr>])"
proof -
  obtain new where "NewTXOutput 10 (address_of sample_prims sample_wallet) = Ok new" "Value new = 10"
    using NewTXOutput_self [OF sample_sha256_ok, of 10 sample_wallet] by auto
  then show ?thesis using sample_finish [of new "''failed to sign transaction''"] sample_selection
    by (simp add: NewUTXOTransaction_def with_change_def hex_value_def)
qed

section \<open>Properties\<close>



text \<open>
  The seller can claim: for an escrow output of the chain that is locked to the seller's key
  and to the hash of the delivered data, \<open>NewEscrowClaimTransaction\<close> returns a transaction that
  spends this output, pays its full value to the seller, and is accepted by
  \<open>VerifyTransaction\<close> on the same chain.
\<close>

theorem NewEscrowClaimTransaction_verifies:
  assumes "FindTransaction P S bc t = Ok etx" and "ID etx = t" and "t \<noteq> []"
    and "go_index (Vout etx) i = Ok out" and "GetBestHeight P S bc = Ok height" and "sha256_ok P"
    and "ecdsa_ok P (PrivKey w)" and "is_pubkey (PrivKey w) (PublicKey w)"
    and "ScriptType out = ScriptTypeEscrow \<or> ScriptType out = ScriptTypeZKCP" and "0 < sint (Value out)"
    and "PubKeyHash out = HashPubKey P (PublicKey w)" and "DataHashLock out = sha256 P delivered"
  shows "\<exists>tx. NewEscrowClaimTransaction P S rnd w t i delivered bc = Ok tx \<and>
    VerifyTransaction P S bc tx = Ok True \<and> refs_of (Vin tx) = [(t, i)] \<and>
    map (\<lambda>x. (Value x, PubKeyHash x)) (Vout tx) = [(Value out, HashPubKey P (PublicKey w))]"
  by (rule escrow_claim_builds [OF assms])

theorem NewEscrowClaimTransaction_verifies_witness:
  "\<exists>tx. NewEscrowClaimTransaction sample_prims list_storage (\<lambda>_. 0) sample_wallet [1] 0 [42] (paid_bc (sample_out 10 1)) = Ok tx \<and>
     VerifyTransaction sample_prims list_storage (paid_bc (sample_out 10 1)) tx = Ok True"
  using NewEscrowClaimTransaction_verifies [of sample_prims list_storage "paid_bc (sample_out 10 1)" "[1]"
      "paid_tx (sample_out 10 1)" 0 "sample_out 10 1" 0 sample_wallet "[42]" "\<lambda>_. 0"] paid_bc_reads [of "sample_out 10 1"]
  by (auto simp: paid_tx_def go_index_def sample_out_def sample_sha256_eq)

text \<open>
  The buyer can take a refund: once the height exceeds the timeout of an escrow or ZKCP
  output of the chain that names the buyer, \<open>NewEscrowRefundTransaction\<close> returns a transaction
  that spends it back to the buyer in full and is accepted by \<open>VerifyTransaction\<close>.
\<close>

theorem NewEscrowRefundTransaction_verifies:
  assumes "FindTransaction P S bc t = Ok etx" and "ID etx = t" and "t \<noteq> []"
    and "go_index (Vout etx) i = Ok out" and "GetBestHeight P S bc = Ok height" and "sha256_ok P"
    and "ecdsa_ok P (PrivKey w)" and "is_pubkey (PrivKey w) (PublicKey w)"
    and "ScriptType out = ScriptTypeEscrow \<or> ScriptType out = ScriptTypeZKCP" and "0 < sint (Value out)"
    and "BuyerPubKeyHash out = HashPubKey P (PublicKey w)" and "sint (TimeoutBlock out) < sint height"
  shows "\<exists>tx. NewEscrowRefundTransaction P S rnd w t i bc = Ok tx \<and>
    VerifyTransaction P S bc tx = Ok True \<and> refs_of (Vin tx) = [(t, i)] \<and>
    map (\<lambda>x. (Value x, PubKeyHash x)) (Vout tx) = [(Value out, HashPubKey P (PublicKey w))]"
  by (rule escrow_refund_builds [OF assms])

theorem NewEscrowRefundTransaction_verifies_witness:
  "\<exists>out tx. NewEscrowRefundTransaction sample_prims list_storage (\<lambda>_. 0) sample_wallet [1] 0 (paid_bc out) = Ok tx \<and>
     VerifyTransaction sample_prims list_storage (paid_bc out) tx = Ok True"
proof -
  define out where "out = (sample_out 10 1)\<lparr>TimeoutBlock := -1\<rparr>"
  have "\<exists>tx. NewEscrowRefundTransaction sample_prims list_storage (\<lambda>_. 0) sample_wallet [1] 0 (paid_bc out) = Ok tx \<and>
     VerifyTransaction sample_prims list_storage (paid_bc out) tx = Ok True"
    using NewEscrowRefundTransaction_verifies [of sample_prims list_storage "paid_bc out" "[1]" "paid_tx out" 0 out 0
        sample_wallet "\<lambda>_. 0"] paid_bc_reads [of out]
    by (auto simp: paid_tx_def go_index_def out_def sample_out_def)
  then show ?thesis by blast
qed

end
