(* ===== verification/Indexer.thy ===== *)
theory Indexer
  imports Wallet Output
begin

text \<open>
  The escrow and service index of \<^verbatim>\<open>internal/indexer\<close>. The store is a record of maps; the map of
  escrows, which the indexer ranges over, is an association list, and the operations that range
  over it take the order of the iteration. The Go store holds pointers and the indexer writes
  through them: a pointer to a stored escrow is modelled by its key (\<open>poke\<close>).

  The main results: one block acts on the entry of every key through the events of that key
  only (a pointwise specification), the status of an escrow after any number of blocks is a
  function of the inputs that spend it and of the heights, and the counters of the store agree
  with its maps.
\<close>

section \<open>store.go\<close>

datatype EscrowStatus =
  EscrowStatusPending | EscrowStatusClaimed | EscrowStatusRefunded | EscrowStatusExpired

record IndexedEscrow =
  ie_TxID :: string
  ie_Vout :: int64
  ie_Amount :: int64
  ie_SellerPubKeyHash :: string
  ie_BuyerPubKeyHash :: string
  ie_DataHashLock :: string
  ie_TimeoutBlock :: int64
  ie_Status :: EscrowStatus
  ie_CreatedAtHeight :: int64
  ie_ClaimedTxID :: string
  ie_PreimageHex :: string
  ie_RefundedTxID :: string

record AgentService =
  as_ID :: string
  as_AgentAddress :: string
  as_Name :: string
  as_Description :: string
  as_EndpointURL :: string
  as_PricePerCall :: int64
  as_RegisteredAt :: int
  as_Active :: bool

record Metrics =
  TotalBlocksIndexed :: int64
  TotalTxCount :: int64
  TotalEscrowsCount :: int64
  TotalVolume :: int64

record RecentBlock =
  rb_Height :: int64
  rb_Hash :: string
  rb_TxCount :: int64
  rb_Timestamp :: int64

record IndexStore =
  escrows :: "(string \<times> IndexedEscrow) list"
  services :: "(string \<times> AgentService) list"
  agentServices :: "(string \<times> string list) list"
  recentBlocks :: "RecentBlock list"
  metrics :: Metrics
  latestHeight :: int64

definition NewIndexStore :: IndexStore where
  "NewIndexStore = \<lparr>escrows = [], services = [], agentServices = [], recentBlocks = [],
     metrics = \<lparr>TotalBlocksIndexed = 0, TotalTxCount = 0, TotalEscrowsCount = 0, TotalVolume = 0\<rparr>,
     latestHeight = 0\<rparr>"

definition escrowKey :: "string \<Rightarrow> int64 \<Rightarrow> string" where
  "escrowKey txID vout = txID @ '':'' @ hex_encode [ucast vout]"

definition SaveEscrow :: "IndexedEscrow \<Rightarrow> IndexStore \<Rightarrow> IndexStore" where
  "SaveEscrow escrow s =
     (let key = escrowKey (ie_TxID escrow) (ie_Vout escrow);
          m = (if map_of (escrows s) key = None
               then (metrics s)\<lparr>TotalEscrowsCount := TotalEscrowsCount (metrics s) + 1\<rparr>
               else metrics s)
      in s\<lparr>metrics := m, escrows := AList.update key escrow (escrows s)\<rparr>)"

definition GetEscrow :: "string \<Rightarrow> int64 \<Rightarrow> IndexStore \<Rightarrow> IndexedEscrow option" where
  "GetEscrow txID vout s = map_of (escrows s) (escrowKey txID vout)"

text \<open>A write through the pointer stored under a key.\<close>

definition poke :: "string \<Rightarrow> IndexedEscrow \<Rightarrow> IndexStore \<Rightarrow> IndexStore" where
  "poke key escrow s = s\<lparr>escrows := AList.update key escrow (escrows s)\<rparr>"

text \<open>The result pairs each pointer (its key) with the value it points to.\<close>

definition GetActiveEscrows ::
    "((string \<times> IndexedEscrow) list \<Rightarrow> (string \<times> IndexedEscrow) list) \<Rightarrow> IndexStore
      \<Rightarrow> (string \<times> IndexedEscrow) list" where
  "GetActiveEscrows ord s = filter (\<lambda>(_, e). ie_Status e = EscrowStatusPending) (ord (escrows s))"

definition SaveService :: "AgentService \<Rightarrow> IndexStore \<Rightarrow> IndexStore" where
  "SaveService srv s =
     s\<lparr>services := AList.update (as_ID srv) srv (services s),
       agentServices := alist_append (as_AgentAddress srv) (as_ID srv) (agentServices s)\<rparr>"

definition GetService :: "string \<Rightarrow> IndexStore \<Rightarrow> AgentService option" where
  "GetService i s = map_of (services s) i"

definition ListServices ::
    "((string \<times> AgentService) list \<Rightarrow> (string \<times> AgentService) list) \<Rightarrow> IndexStore \<Rightarrow> AgentService list" where
  "ListServices ord s = filter as_Active (map snd (ord (services s)))"

definition UpdateMetrics :: "int64 \<Rightarrow> int64 \<Rightarrow> int64 \<Rightarrow> IndexStore \<Rightarrow> IndexStore" where
  "UpdateMetrics blockHeight txCount volume s =
     s\<lparr>latestHeight := blockHeight,
       metrics := (metrics s)\<lparr>TotalBlocksIndexed := TotalBlocksIndexed (metrics s) + 1,
         TotalTxCount := TotalTxCount (metrics s) + txCount,
         TotalVolume := TotalVolume (metrics s) + volume\<rparr>\<rparr>"

definition GetMetrics :: "IndexStore \<Rightarrow> Metrics" where
  "GetMetrics s = metrics s"

definition SaveBlock_idx :: "RecentBlock \<Rightarrow> IndexStore \<Rightarrow> IndexStore" where
  "SaveBlock_idx blk s =
     (let bs = blk # recentBlocks s
      in s\<lparr>recentBlocks := (if length bs > 20 then take 20 bs else bs)\<rparr>)"

definition GetRecentBlocks :: "IndexStore \<Rightarrow> RecentBlock list" where
  "GetRecentBlocks s = recentBlocks s"

section \<open>indexer.go\<close>

definition NewIndexer :: "IndexStore option \<Rightarrow> IndexStore" where
  "NewIndexer store = (case store of None \<Rightarrow> NewIndexStore | Some s \<Rightarrow> s)"

definition escrow_of :: "string \<Rightarrow> int64 \<Rightarrow> nat \<Rightarrow> TXOutput \<Rightarrow> IndexedEscrow" where
  "escrow_of txIDHex height outIdx out =
     \<lparr>ie_TxID = txIDHex, ie_Vout = of_nat outIdx, ie_Amount = Value out,
      ie_SellerPubKeyHash = hex_encode (PubKeyHash out),
      ie_BuyerPubKeyHash = hex_encode (BuyerPubKeyHash out),
      ie_DataHashLock = hex_encode (DataHashLock out), ie_TimeoutBlock = TimeoutBlock out,
      ie_Status = EscrowStatusPending, ie_CreatedAtHeight = height,
      ie_ClaimedTxID = [], ie_PreimageHex = [], ie_RefundedTxID = []\<rparr>"

definition index_output :: "string \<Rightarrow> int64 \<Rightarrow> nat \<times> TXOutput \<Rightarrow> int64 \<times> IndexStore \<Rightarrow> int64 \<times> IndexStore" where
  "index_output txIDHex height = (\<lambda>(outIdx, out) (blockVolume, s).
     (blockVolume + Value out,
      if ScriptType out = ScriptTypeEscrow \<or> ScriptType out = ScriptTypeZKCP
      then SaveEscrow (escrow_of txIDHex height outIdx out) s else s))"

text \<open>What an input does to the escrow it spends; \<open>None\<close> when it is neither a claim nor a refund.\<close>

definition spend_escrow :: "string \<Rightarrow> TXInput \<Rightarrow> IndexedEscrow \<Rightarrow> IndexedEscrow option" where
  "spend_escrow txIDHex inp escrow =
     (if length (EscrowWitness inp) > 0 then
        Some (escrow\<lparr>ie_Status := EscrowStatusClaimed, ie_ClaimedTxID := txIDHex,
          ie_PreimageHex := hex_encode (EscrowWitness inp)\<rparr>)
      else if IsRefund inp then
        Some (escrow\<lparr>ie_Status := EscrowStatusRefunded, ie_RefundedTxID := txIDHex\<rparr>)
      else None)"

definition index_input :: "string \<Rightarrow> TXInput \<Rightarrow> IndexStore \<Rightarrow> IndexStore" where
  "index_input txIDHex inp s =
     (let prevTxIDHex = hex_encode (Txid inp) in
      case GetEscrow prevTxIDHex (Vout_in inp) s of
        None \<Rightarrow> s
      | Some escrow \<Rightarrow>
          (case spend_escrow txIDHex inp escrow of
             None \<Rightarrow> s
           | Some escrow' \<Rightarrow> SaveEscrow escrow' (poke (escrowKey prevTxIDHex (Vout_in inp)) escrow' s)))"

definition index_tx :: "int64 \<Rightarrow> Transaction \<Rightarrow> int64 \<times> IndexStore \<Rightarrow> int64 \<times> IndexStore" where
  "index_tx height tx acc =
     (let txIDHex = hex_encode (ID tx);
          (vol, s) = fold (index_output txIDHex height) (indexed (Vout tx)) acc
      in (vol, fold (index_input txIDHex) (Vin tx) s))"

definition expire_escrow :: "int64 \<Rightarrow> string \<times> IndexedEscrow \<Rightarrow> IndexStore \<Rightarrow> IndexStore" where
  "expire_escrow height = (\<lambda>(key, escrow) s.
     if sint height \<ge> sint (ie_TimeoutBlock escrow) then
       let escrow' = escrow\<lparr>ie_Status := EscrowStatusExpired\<rparr>
       in SaveEscrow escrow' (poke key escrow' s)
     else s)"

definition ProcessBlock ::
    "((string \<times> IndexedEscrow) list \<Rightarrow> (string \<times> IndexedEscrow) list) \<Rightarrow> Block \<Rightarrow> IndexStore \<Rightarrow> IndexStore" where
  "ProcessBlock ord block s =
     (let (blockVolume, s) = fold (index_tx (Height block)) (Transactions block) (0, s);
          s = fold (expire_escrow (Height block)) (GetActiveEscrows ord s) s;
          s = SaveBlock_idx \<lparr>rb_Height = Height block, rb_Hash = hex_encode (Hash block),
                rb_TxCount = of_nat (length (Transactions block)), rb_Timestamp = Timestamp block\<rparr> s
      in UpdateMetrics (Height block) (of_nat (length (Transactions block))) blockVolume s)"

text \<open>
  \<open>lower\<close> is \<^verbatim>\<open>strings.ToLower\<close>, the case mapping of Unicode; \<open>nano\<close> and \<open>now\<close> are the two
  readings of the clock.
\<close>

definition RegisterServiceOffer ::
    "Prims \<Rightarrow> (string \<Rightarrow> string) \<Rightarrow> int64 \<Rightarrow> int \<Rightarrow> string \<Rightarrow> string \<Rightarrow> string \<Rightarrow> string \<Rightarrow> int64 \<Rightarrow>
      IndexStore \<Rightarrow> AgentService result \<times> IndexStore" where
  "RegisterServiceOffer P lower nano now agentAddr name description endpointURL pricePerCall s =
     (if \<not> ValidateAddress P agentAddr then (Error (ErrMsg ''invalid agent address''), s)
      else if name = [] \<or> endpointURL = [] \<or> sint pricePerCall \<le> 0
      then (Error (ErrMsg ''invalid service parameters''), s)
      else
        let serviceID = ''srv_'' @ lower name @ ''_'' @ fmt_d (sint nano);
            srv = \<lparr>as_ID = serviceID, as_AgentAddress = agentAddr, as_Name = name,
                   as_Description = description, as_EndpointURL = endpointURL,
                   as_PricePerCall = pricePerCall, as_RegisteredAt = now, as_Active = True\<rparr>
        in (Ok srv, SaveService srv s))"

section \<open>Store invariant\<close>

definition idx_inv :: "IndexStore \<Rightarrow> bool" where
  "idx_inv s \<longleftrightarrow>
     distinct (map fst (escrows s)) \<and>
     (\<forall>(k, e) \<in> set (escrows s). k = escrowKey (ie_TxID e) (ie_Vout e)) \<and>
     TotalEscrowsCount (metrics s) = of_nat (length (escrows s)) \<and>
     length (recentBlocks s) \<le> 20 \<and>
     distinct (map fst (services s)) \<and>
     (\<forall>(i, srv) \<in> set (services s). i = as_ID srv \<and> i \<in> set (alist_get (agentServices s) (as_AgentAddress srv)))"

lemma length_AList_update:
  "length (AList.update k v m) = (if map_of m k = None then Suc (length m) else length m)"
  by (induction m) auto

lemma map_of_AList_update [simp]: "map_of (AList.update k v m) = (map_of m)(k \<mapsto> v)"
  by (simp add: update_conv')

lemma idx_inv_key: "idx_inv s \<Longrightarrow> map_of (escrows s) k = Some e \<Longrightarrow> escrowKey (ie_TxID e) (ie_Vout e) = k"
  unfolding idx_inv_def by (auto dest!: map_of_SomeD)

lemma SaveEscrow_inv: "idx_inv s \<Longrightarrow> idx_inv (SaveEscrow e s)"
  unfolding idx_inv_def SaveEscrow_def
  by (auto simp: Let_def distinct_update length_AList_update dest!: subsetD [OF set_AList_update])

text \<open>Writing through a stored pointer, when the identity of the escrow stays.\<close>

lemma poke_inv:
  assumes "idx_inv s" and "map_of (escrows s) k \<noteq> None" and "escrowKey (ie_TxID e) (ie_Vout e) = k"
  shows "idx_inv (poke k e s)"
  using assms unfolding idx_inv_def poke_def
  by (auto simp: distinct_update length_AList_update dest!: subsetD [OF set_AList_update])

lemma SaveBlock_idx_inv: "idx_inv s \<Longrightarrow> idx_inv (SaveBlock_idx blk s)"
  unfolding idx_inv_def SaveBlock_idx_def by (auto simp: Let_def)

lemma UpdateMetrics_inv: "idx_inv s \<Longrightarrow> idx_inv (UpdateMetrics h n v s)"
  unfolding idx_inv_def UpdateMetrics_def by simp

lemma SaveService_inv: "idx_inv s \<Longrightarrow> idx_inv (SaveService srv s)"
  unfolding idx_inv_def SaveService_def
  by (fastforce simp: distinct_update dest!: subsetD [OF set_AList_update])

lemma NewIndexStore_inv: "idx_inv NewIndexStore"
  by (simp add: idx_inv_def NewIndexStore_def)

section \<open>What a block does to one entry\<close>

text \<open>
  The abstract index is the map of entries. An output creates or replaces the entry of its key,
  an input that claims or refunds updates it, and a height past the timeout expires a pending
  entry.
\<close>

definition out_event :: "string \<Rightarrow> string \<Rightarrow> int64 \<Rightarrow> nat \<times> TXOutput \<Rightarrow> IndexedEscrow option \<Rightarrow> IndexedEscrow option" where
  "out_event k txid h = (\<lambda>(i, out) e.
     if (ScriptType out = ScriptTypeEscrow \<or> ScriptType out = ScriptTypeZKCP) \<and> escrowKey txid (of_nat i) = k
     then Some (escrow_of txid h i out) else e)"

definition in_event :: "string \<Rightarrow> string \<Rightarrow> TXInput \<Rightarrow> IndexedEscrow option \<Rightarrow> IndexedEscrow option" where
  "in_event k txid inp e =
     (case e of
        Some x \<Rightarrow>
          if escrowKey (hex_encode (Txid inp)) (Vout_in inp) = k \<and> spend_escrow txid inp x \<noteq> None
          then spend_escrow txid inp x else Some x
      | None \<Rightarrow> None)"

definition tx_event :: "string \<Rightarrow> int64 \<Rightarrow> Transaction \<Rightarrow> IndexedEscrow option \<Rightarrow> IndexedEscrow option" where
  "tx_event k h tx e =
     fold (in_event k (hex_encode (ID tx))) (Vin tx)
       (fold (out_event k (hex_encode (ID tx)) h) (indexed (Vout tx)) e)"

definition expire_event :: "int64 \<Rightarrow> IndexedEscrow \<Rightarrow> IndexedEscrow" where
  "expire_event h e =
     (if ie_Status e = EscrowStatusPending \<and> sint h \<ge> sint (ie_TimeoutBlock e)
      then e\<lparr>ie_Status := EscrowStatusExpired\<rparr> else e)"

definition block_event :: "string \<Rightarrow> Block \<Rightarrow> IndexedEscrow option \<Rightarrow> IndexedEscrow option" where
  "block_event k b e = map_option (expire_event (Height b)) (fold (tx_event k (Height b)) (Transactions b) e)"

definition block_volume :: "Block \<Rightarrow> int64" where
  "block_volume b = (\<Sum>tx\<leftarrow>Transactions b. \<Sum>out\<leftarrow>Vout tx. Value out)"

lemma escrow_of_key [simp]: "ie_TxID (escrow_of t h i out) = t" "ie_Vout (escrow_of t h i out) = of_nat i"
  by (simp_all add: escrow_of_def)

lemma escrows_SaveEscrow [simp]:
  "escrows (SaveEscrow e s) = AList.update (escrowKey (ie_TxID e) (ie_Vout e)) e (escrows s)"
  by (simp add: SaveEscrow_def Let_def)

lemma escrows_poke [simp]: "escrows (poke k e s) = AList.update k e (escrows s)"
  by (simp add: poke_def)

text \<open>Writing the escrows leaves the other fields of the store, up to the count of escrows.\<close>

definition escrow_frame :: "IndexStore \<Rightarrow> IndexStore \<Rightarrow> bool" where
  "escrow_frame s s' \<longleftrightarrow>
     services s' = services s \<and> agentServices s' = agentServices s \<and> recentBlocks s' = recentBlocks s \<and>
     latestHeight s' = latestHeight s \<and>
     TotalBlocksIndexed (metrics s') = TotalBlocksIndexed (metrics s) \<and>
     TotalTxCount (metrics s') = TotalTxCount (metrics s) \<and> TotalVolume (metrics s') = TotalVolume (metrics s)"

lemma escrow_frame_refl [simp]: "escrow_frame s s"
  by (simp add: escrow_frame_def)

lemma escrow_frame_trans: "escrow_frame s s' \<Longrightarrow> escrow_frame s' s'' \<Longrightarrow> escrow_frame s s''"
  by (simp add: escrow_frame_def)

lemma SaveEscrow_frame [simp]: "escrow_frame s (SaveEscrow e s)"
  by (simp add: escrow_frame_def SaveEscrow_def Let_def)

lemma poke_frame [simp]: "escrow_frame s (poke k e s)"
  by (simp add: escrow_frame_def poke_def)

text \<open>A step on the store that keeps the invariant and acts on every entry as \<open>ev\<close> says.\<close>

definition idx_step :: "(string \<Rightarrow> IndexedEscrow option \<Rightarrow> IndexedEscrow option) \<Rightarrow> IndexStore \<Rightarrow> IndexStore \<Rightarrow> bool" where
  "idx_step ev s s' \<longleftrightarrow>
     idx_inv s' \<and> escrow_frame s s' \<and> (\<forall>k. map_of (escrows s') k = ev k (map_of (escrows s) k))"

lemma idx_step_refl: "idx_inv s \<Longrightarrow> idx_step (\<lambda>k e. e) s s"
  by (simp add: idx_step_def)

lemma idx_step_trans:
  "idx_step ev s s' \<Longrightarrow> idx_step ev' s' s'' \<Longrightarrow> idx_step (\<lambda>k e. ev' k (ev k e)) s s''"
  unfolding idx_step_def by (metis escrow_frame_trans)

lemma idx_step_fold:
  assumes "idx_inv s" and "\<And>x s. x \<in> set xs \<Longrightarrow> idx_inv s \<Longrightarrow> idx_step (\<lambda>k. ev k x) s (f x s)"
  shows "idx_step (\<lambda>k. fold (ev k) xs) s (fold f xs s)"
  using assms
proof (induction xs arbitrary: s)
  case Nil
  then show ?case by (simp add: idx_step_refl)
next
  case (Cons x xs)
  have "idx_step (\<lambda>k. ev k x) s (f x s)" using Cons.prems by simp
  moreover from this have "idx_step (\<lambda>k. fold (ev k) xs) (f x s) (fold f xs (f x s))"
    using Cons by (simp add: idx_step_def)
  ultimately show ?case using idx_step_trans by fastforce
qed

lemma SaveEscrow_step:
  "idx_inv s \<Longrightarrow> idx_step (\<lambda>k e. if escrowKey (ie_TxID x) (ie_Vout x) = k then Some x else e) s (SaveEscrow x s)"
  by (simp add: idx_step_def SaveEscrow_inv)

text \<open>Writing through a pointer and saving the same escrow again, as the indexer does.\<close>

lemma poke_SaveEscrow_step:
  assumes "idx_inv s" and "map_of (escrows s) k \<noteq> None" and "escrowKey (ie_TxID x) (ie_Vout x) = k"
  shows "idx_step (\<lambda>k' e. if k = k' then Some x else e) s (SaveEscrow x (poke k x s))"
  unfolding idx_step_def
  using assms escrow_frame_trans [OF poke_frame SaveEscrow_frame]
  by (simp add: SaveEscrow_inv poke_inv)

lemma fold_index_output:
  "fold (index_output t h) ios (vol, s) =
     (vol + (\<Sum>(i, out)\<leftarrow>ios. Value out),
      fold (\<lambda>io. snd \<circ> index_output t h io \<circ> Pair 0) ios s)"
  by (induction ios arbitrary: vol s) (auto simp: index_output_def)

lemma index_output_step:
  "idx_inv s \<Longrightarrow> idx_step (\<lambda>k. out_event k t h io) s (snd (index_output t h io (0, s)))"
  using SaveEscrow_step [of s "escrow_of t h (fst io) (snd io)"]
  by (cases io) (auto simp: index_output_def out_event_def idx_step_def)

lemma spend_escrow_key:
  "spend_escrow t inp e = Some e' \<Longrightarrow> ie_TxID e' = ie_TxID e \<and> ie_Vout e' = ie_Vout e"
  by (auto simp: spend_escrow_def split: if_splits)

lemma index_input_step:
  assumes "idx_inv s"
  shows "idx_step (\<lambda>k. in_event k t inp) s (index_input t inp s)"
proof -
  let ?k = "escrowKey (hex_encode (Txid inp)) (Vout_in inp)"
  show ?thesis
  proof (cases "\<exists>e e'. map_of (escrows s) ?k = Some e \<and> spend_escrow t inp e = Some e'")
    case True
    then obtain e e' where e: "map_of (escrows s) ?k = Some e" "spend_escrow t inp e = Some e'" by blast
    have "escrowKey (ie_TxID e') (ie_Vout e') = ?k"
      using idx_inv_key [OF assms e(1)] spend_escrow_key [OF e(2)] by simp
    then have "idx_step (\<lambda>k' x. if ?k = k' then Some e' else x) s (index_input t inp s)"
      using poke_SaveEscrow_step [OF assms, of ?k e'] e by (simp add: index_input_def GetEscrow_def)
    then show ?thesis using e by (auto simp: idx_step_def in_event_def split: option.splits)
  next
    case False
    then have "index_input t inp s = s"
      by (auto simp: index_input_def GetEscrow_def Let_def split: option.splits)
    then show ?thesis using False assms
      by (auto simp: idx_step_def in_event_def split: option.splits)
  qed
qed

lemma index_tx_step:
  assumes "idx_inv s"
  shows "fst (index_tx h tx (vol, s)) = vol + (\<Sum>out\<leftarrow>Vout tx. Value out)"
    and "idx_step (\<lambda>k. tx_event k h tx) s (snd (index_tx h tx (vol, s)))"
proof -
  let ?t = "hex_encode (ID tx)"
  define s1 where "s1 = fold (\<lambda>io. snd \<circ> index_output ?t h io \<circ> Pair 0) (indexed (Vout tx)) s"
  have s1: "idx_step (\<lambda>k. fold (out_event k ?t h) (indexed (Vout tx))) s s1"
    unfolding s1_def by (rule idx_step_fold [OF assms]) (simp add: index_output_step)
  have "idx_step (\<lambda>k. fold (in_event k ?t) (Vin tx)) s1 (fold (index_input ?t) (Vin tx) s1)"
    using s1 by (intro idx_step_fold index_input_step) (simp_all add: idx_step_def)
  from idx_step_trans [OF s1 this]
  show "idx_step (\<lambda>k. tx_event k h tx) s (snd (index_tx h tx (vol, s)))"
    unfolding index_tx_def Let_def fold_index_output prod.case snd_conv s1_def tx_event_def .
  have "map (\<lambda>(i, y). Value y) (indexed xs) = map Value xs" for xs :: "TXOutput list"
    by (induction xs rule: rev_induct) simp_all
  then show "fst (index_tx h tx (vol, s)) = vol + (\<Sum>out\<leftarrow>Vout tx. Value out)"
    by (simp add: index_tx_def fold_index_output Let_def)
qed

lemma index_txs_step:
  assumes "idx_inv s"
  shows "fst (fold (index_tx h) txs (vol, s)) = vol + (\<Sum>tx\<leftarrow>txs. \<Sum>out\<leftarrow>Vout tx. Value out) \<and>
    idx_step (\<lambda>k. fold (tx_event k h) txs) s (snd (fold (index_tx h) txs (vol, s)))"
  using assms
proof (induction txs arbitrary: vol s)
  case Nil
  then show ?case by (simp add: idx_step_refl)
next
  case (Cons tx txs)
  obtain vol' s' where tx: "index_tx h tx (vol, s) = (vol', s')" by fastforce
  have vol': "vol' = vol + (\<Sum>out\<leftarrow>Vout tx. Value out)" and st: "idx_step (\<lambda>k. tx_event k h tx) s s'"
    using index_tx_step [OF Cons.prems, of h tx vol] unfolding tx by simp_all
  have "idx_inv s'" using st by (simp add: idx_step_def)
  note IH = Cons.IH [OF this, of vol']
  from idx_step_trans [OF st conjunct2 [OF IH]] show ?case
    using IH tx vol' by (simp add: add.assoc comp_def)
qed

text \<open>Expiring the pending entries, in any order.\<close>

lemma expire_loop:
  assumes "idx_inv s" and "distinct (map fst kes)"
    and "\<And>k e. (k, e) \<in> set kes \<Longrightarrow> map_of (escrows s) k = Some e \<and> ie_Status e = EscrowStatusPending"
  shows "idx_step (\<lambda>k e. if k \<in> fst ` set kes then map_option (expire_event h) e else e) s
    (fold (expire_escrow h) kes s)"
  using assms
proof (induction kes arbitrary: s)
  case Nil
  then show ?case by (simp add: idx_step_refl)
next
  case (Cons ke kes)
  obtain k e where ke: "ke = (k, e)" by fastforce
  have e: "map_of (escrows s) k = Some e" "ie_Status e = EscrowStatusPending" using Cons.prems(3) ke by auto
  have "idx_step (\<lambda>k' x. if k = k' then map_option (expire_event h) x else x) s (expire_escrow h ke s)"
    using poke_SaveEscrow_step [OF Cons.prems(1), of k "e\<lparr>ie_Status := EscrowStatusExpired\<rparr>"]
      idx_inv_key [OF Cons.prems(1) e(1)] e Cons.prems(1)
    by (auto simp: expire_escrow_def Let_def ke idx_step_def expire_event_def)
  note st = this
  then have "idx_inv (expire_escrow h ke s)" by (simp add: idx_step_def)
  moreover have "map_of (escrows (expire_escrow h ke s)) k' = Some e' \<and> ie_Status e' = EscrowStatusPending"
    if "(k', e') \<in> set kes" for k' e'
  proof -
    have "k \<noteq> k'" using that Cons.prems(2) ke by force
    then show ?thesis using st Cons.prems(3) [of k' e'] that by (simp add: idx_step_def)
  qed
  ultimately have "idx_step (\<lambda>k e. if k \<in> fst ` set kes then map_option (expire_event h) e else e)
      (expire_escrow h ke s) (fold (expire_escrow h) kes (expire_escrow h ke s))"
    using Cons.IH Cons.prems(2) by simp
  from idx_step_trans [OF st this] show ?case
    using Cons.prems(2) ke by (auto simp: idx_step_def)
qed

lemma expire_all_step:
  assumes "idx_inv s" and "is_order ord"
  shows "idx_step (\<lambda>k. map_option (expire_event h)) s (fold (expire_escrow h) (GetActiveEscrows ord s) s)"
proof -
  have d: "distinct (map fst (escrows s))" using assms(1) by (simp add: idx_inv_def)
  have "mset (map fst (ord (escrows s))) = mset (map fst (escrows s))"
    using assms(2) by (simp add: is_order_def)
  then have "distinct (map fst (ord (escrows s)))" using d by (metis mset_eq_imp_distinct_iff)
  then have active: "distinct (map fst (GetActiveEscrows ord s))"
    by (simp add: GetActiveEscrows_def distinct_map_filter)
  have mem: "(k, e) \<in> set (GetActiveEscrows ord s) \<longleftrightarrow>
      map_of (escrows s) k = Some e \<and> ie_Status e = EscrowStatusPending" for k e
    using d is_order_set [OF assms(2)] by (auto simp: GetActiveEscrows_def map_of_eq_Some_iff)
  have "idx_step (\<lambda>k e. if k \<in> fst ` set (GetActiveEscrows ord s) then map_option (expire_event h) e else e) s
      (fold (expire_escrow h) (GetActiveEscrows ord s) s)"
    using mem by (intro expire_loop assms(1) active) blast
  moreover have "map_option (expire_event h) (map_of (escrows s) k) = map_of (escrows s) k"
    if "k \<notin> fst ` set (GetActiveEscrows ord s)" for k
  proof (cases "map_of (escrows s) k")
    case (Some e)
    then have "ie_Status e \<noteq> EscrowStatusPending" using that mem [of k e] by force
    then show ?thesis using Some by (simp add: expire_event_def)
  qed simp
  ultimately show ?thesis by (auto simp: idx_step_def)
qed

section \<open>Blocks\<close>

definition block_summary :: "Block \<Rightarrow> RecentBlock" where
  "block_summary b = \<lparr>rb_Height = Height b, rb_Hash = hex_encode (Hash b),
     rb_TxCount = of_nat (length (Transactions b)), rb_Timestamp = Timestamp b\<rparr>"

lemma ProcessBlock_step:
  assumes "idx_inv s" and "is_order ord"
  obtains s1 where "idx_step (\<lambda>k. block_event k b) s s1"
    and "ProcessBlock ord b s =
      UpdateMetrics (Height b) (of_nat (length (Transactions b))) (block_volume b) (SaveBlock_idx (block_summary b) s1)"
proof -
  obtain vol s0 where f: "fold (index_tx (Height b)) (Transactions b) (0, s) = (vol, s0)" by fastforce
  have vol: "vol = block_volume b"
    and st: "idx_step (\<lambda>k. fold (tx_event k (Height b)) (Transactions b)) s s0"
    using index_txs_step [OF assms(1), of "Height b" "Transactions b" 0] unfolding f
    by (simp_all add: block_volume_def)
  have "idx_inv s0" using st by (simp add: idx_step_def)
  from idx_step_trans [OF st expire_all_step [OF this assms(2), of "Height b"]] show ?thesis
    using that unfolding block_event_def ProcessBlock_def Let_def f vol prod.case block_summary_def
    by simp
qed

lemma ProcessBlock_event:
  assumes "idx_inv s" and "is_order ord"
  shows "idx_inv (ProcessBlock ord b s)"
    and "map_of (escrows (ProcessBlock ord b s)) k = block_event k b (map_of (escrows s) k)"
proof -
  obtain s1 where s1: "idx_step (\<lambda>k. block_event k b) s s1"
    and s': "ProcessBlock ord b s =
      UpdateMetrics (Height b) (of_nat (length (Transactions b))) (block_volume b) (SaveBlock_idx (block_summary b) s1)"
    using ProcessBlock_step [OF assms] .
  show "idx_inv (ProcessBlock ord b s)"
    using s1 unfolding s' by (intro UpdateMetrics_inv SaveBlock_idx_inv) (simp add: idx_step_def)
  show "map_of (escrows (ProcessBlock ord b s)) k = block_event k b (map_of (escrows s) k)"
    using s1 by (simp add: s' idx_step_def UpdateMetrics_def SaveBlock_idx_def Let_def)
qed

text \<open>
  C28. One block acts on the escrow index exactly as the specification of single entries says,
  whatever order Go ranges over the map in: the entry of every key after the block is a function
  of its entry before the block, of the outputs and inputs of the block with that key, and of the
  height. The block becomes the head of a list of at most twenty summaries, the counters grow by
  one block, by its transactions and by the sum of its outputs, the services are untouched, and
  the store invariant is kept: every entry lies under its own key and \<open>TotalEscrowsCount\<close> is the
  number of entries.
\<close>

theorem ProcessBlock_refines:
  assumes "idx_inv s" and "is_order ord"
  shows "let s' = ProcessBlock ord b s in
    idx_inv s' \<and> (\<forall>k. map_of (escrows s') k = block_event k b (map_of (escrows s) k)) \<and>
    recentBlocks s' = take 20 (block_summary b # recentBlocks s) \<and>
    latestHeight s' = Height b \<and> services s' = services s \<and> agentServices s' = agentServices s \<and>
    TotalBlocksIndexed (metrics s') = TotalBlocksIndexed (metrics s) + 1 \<and>
    TotalTxCount (metrics s') = TotalTxCount (metrics s) + of_nat (length (Transactions b)) \<and>
    TotalVolume (metrics s') = TotalVolume (metrics s) + block_volume b"
proof -
  obtain s1 where s1: "idx_step (\<lambda>k. block_event k b) s s1"
    and s': "ProcessBlock ord b s =
      UpdateMetrics (Height b) (of_nat (length (Transactions b))) (block_volume b) (SaveBlock_idx (block_summary b) s1)"
    using ProcessBlock_step [OF assms] .
  from ProcessBlock_event(1) [OF assms] show ?thesis unfolding Let_def
    by (rule conjI) (use s1 in \<open>simp add: s' idx_step_def escrow_frame_def UpdateMetrics_def SaveBlock_idx_def Let_def\<close>)
qed

text \<open>The inputs of a block that claim or refund the entry of a key, in order.\<close>

definition spend_status :: "TXInput \<Rightarrow> EscrowStatus option" where
  "spend_status inp =
     (if EscrowWitness inp \<noteq> [] then Some EscrowStatusClaimed
      else if IsRefund inp then Some EscrowStatusRefunded else None)"

definition tx_spends :: "string \<Rightarrow> Transaction \<Rightarrow> EscrowStatus list" where
  "tx_spends k tx = List.map_filter spend_status
     (filter (\<lambda>inp. escrowKey (hex_encode (Txid inp)) (Vout_in inp) = k) (Vin tx))"

definition key_spends :: "string \<Rightarrow> Block list \<Rightarrow> EscrowStatus list" where
  "key_spends k bs = concat (map (tx_spends k) (concat (map Transactions bs)))"

text \<open>No output of the transaction takes the key.\<close>

definition avoids_key :: "string \<Rightarrow> Transaction \<Rightarrow> bool" where
  "avoids_key k tx \<longleftrightarrow> (\<forall>i < length (Vout tx). escrowKey (hex_encode (ID tx)) (of_nat i) \<noteq> k)"

text \<open>The identity and the terms of an escrow.\<close>

definition same_terms :: "IndexedEscrow \<Rightarrow> IndexedEscrow \<Rightarrow> bool" where
  "same_terms e e' \<longleftrightarrow>
     ie_TxID e' = ie_TxID e \<and> ie_Vout e' = ie_Vout e \<and> ie_Amount e' = ie_Amount e \<and>
     ie_SellerPubKeyHash e' = ie_SellerPubKeyHash e \<and> ie_BuyerPubKeyHash e' = ie_BuyerPubKeyHash e \<and>
     ie_DataHashLock e' = ie_DataHashLock e \<and> ie_TimeoutBlock e' = ie_TimeoutBlock e \<and>
     ie_CreatedAtHeight e' = ie_CreatedAtHeight e"

lemma same_terms_trans: "same_terms a b \<Longrightarrow> same_terms b c \<Longrightarrow> same_terms a c"
  by (simp add: same_terms_def)

text \<open>The status a list of spending inputs leaves.\<close>

definition last_status :: "EscrowStatus \<Rightarrow> EscrowStatus list \<Rightarrow> EscrowStatus" where
  "last_status st sts = (if sts = [] then st else last sts)"

lemma last_status_append [simp]: "last_status (last_status st xs) ys = last_status st (xs @ ys)"
  by (simp add: last_status_def)

lemma last_status_Nil [simp]: "last_status st [] = st"
  by (simp add: last_status_def)

lemma in_events_status:
  "\<exists>e'. fold (in_event k t) inps (Some e) = Some e' \<and> same_terms e e' \<and>
     ie_Status e' = last_status (ie_Status e) (List.map_filter spend_status
       (filter (\<lambda>inp. escrowKey (hex_encode (Txid inp)) (Vout_in inp) = k) inps))"
proof (induction inps arbitrary: e)
  case Nil
  then show ?case by (simp add: same_terms_def map_filter_simps)
next
  case (Cons inp inps)
  let ?hit = "escrowKey (hex_encode (Txid inp)) (Vout_in inp) = k"
  have "\<exists>e1. in_event k t inp (Some e) = Some e1 \<and> same_terms e e1 \<and>
      ie_Status e1 = (case spend_status inp of Some st \<Rightarrow> if ?hit then st else ie_Status e | None \<Rightarrow> ie_Status e)"
    by (cases ?hit; cases "EscrowWitness inp = []"; cases "IsRefund inp")
      (simp_all add: in_event_def spend_escrow_def spend_status_def same_terms_def)
  then obtain e1 where e1: "in_event k t inp (Some e) = Some e1" "same_terms e e1"
    "ie_Status e1 = (case spend_status inp of Some st \<Rightarrow> if ?hit then st else ie_Status e | None \<Rightarrow> ie_Status e)"
    by blast
  obtain e2 where "fold (in_event k t) inps (Some e1) = Some e2" "same_terms e1 e2"
    "ie_Status e2 = last_status (ie_Status e1) (List.map_filter spend_status
       (filter (\<lambda>inp. escrowKey (hex_encode (Txid inp)) (Vout_in inp) = k) inps))"
    using Cons.IH [of e1] by blast
  then show ?case
    using e1 by (auto simp: map_filter_simps last_status_def split: option.splits intro: same_terms_trans)
qed

lemma tx_event_status:
  assumes "avoids_key k tx"
  shows "\<exists>e'. tx_event k h tx (Some e) = Some e' \<and> same_terms e e' \<and>
    ie_Status e' = last_status (ie_Status e) (tx_spends k tx)"
proof -
  have "fold (out_event k t h) ios (Some e) = Some e"
    if "\<And>i out. (i, out) \<in> set ios \<Longrightarrow> escrowKey t (of_nat i) \<noteq> k" for ios t
    using that by (induction ios) (force simp: out_event_def)+
  from this [of "indexed (Vout tx)" "hex_encode (ID tx)"]
  have "fold (out_event k (hex_encode (ID tx)) h) (indexed (Vout tx)) (Some e) = Some e"
    using assms by (simp add: avoids_key_def in_set_indexed)
  then show ?thesis unfolding tx_event_def tx_spends_def using in_events_status by simp
qed

lemma txs_event_status:
  assumes "\<forall>tx \<in> set txs. avoids_key k tx"
  shows "\<exists>e'. fold (tx_event k h) txs (Some e) = Some e' \<and> same_terms e e' \<and>
    ie_Status e' = last_status (ie_Status e) (concat (map (tx_spends k) txs))"
  using assms
proof (induction txs arbitrary: e)
  case Nil
  then show ?case by (simp add: same_terms_def)
next
  case (Cons tx txs)
  obtain e1 where "tx_event k h tx (Some e) = Some e1" "same_terms e e1"
    "ie_Status e1 = last_status (ie_Status e) (tx_spends k tx)"
    using tx_event_status Cons.prems by fastforce
  moreover obtain e2 where "fold (tx_event k h) txs (Some e1) = Some e2" "same_terms e1 e2"
    "ie_Status e2 = last_status (ie_Status e1) (concat (map (tx_spends k) txs))"
    using Cons by fastforce
  ultimately show ?case using same_terms_trans by auto
qed

lemma spends_settled:
  assumes "key_spends k bs \<noteq> []"
  shows "last (key_spends k bs) = EscrowStatusClaimed \<or> last (key_spends k bs) = EscrowStatusRefunded"
proof -
  have "last (key_spends k bs) \<in> set (key_spends k bs)" using assms by simp
  then show ?thesis
    by (auto simp: key_spends_def tx_spends_def map_filter_def spend_status_def split: if_splits)
qed

definition settled_status :: "string \<Rightarrow> Block list \<Rightarrow> IndexedEscrow \<Rightarrow> EscrowStatus" where
  "settled_status k bs e =
     (if key_spends k bs \<noteq> [] then last (key_spends k bs)
      else if ie_Status e = EscrowStatusPending \<and> (\<exists>b \<in> set bs. sint (Height b) \<ge> sint (ie_TimeoutBlock e))
      then EscrowStatusExpired else ie_Status e)"

lemma block_event_status:
  assumes "\<forall>tx \<in> set (Transactions b). avoids_key k tx"
  shows "\<exists>e'. block_event k b (Some e) = Some e' \<and> same_terms e e' \<and> ie_Status e' = settled_status k [b] e"
proof -
  obtain e1 where e1: "fold (tx_event k (Height b)) (Transactions b) (Some e) = Some e1" "same_terms e e1"
    "ie_Status e1 = last_status (ie_Status e) (key_spends k [b])"
    using txs_event_status [OF assms] by (fastforce simp: key_spends_def)
  have "same_terms e (expire_event (Height b) e1)"
    using e1(2) by (simp add: same_terms_def expire_event_def)
  moreover have "ie_Status (expire_event (Height b) e1) = settled_status k [b] e"
    using e1 spends_settled [of k "[b]"]
    by (cases "key_spends k [b] = []")
      (auto simp: expire_event_def settled_status_def last_status_def same_terms_def)
  ultimately show ?thesis using e1 by (simp add: block_event_def)
qed

lemma expire_twice:
  fixes st :: EscrowStatus
  defines "aged \<equiv> \<lambda>L st. if st = EscrowStatusPending \<and> L then EscrowStatusExpired else st"
  shows "aged M (aged L st) = aged (L \<or> M) st"
  unfolding aged_def by (cases L; cases M) auto

lemma blocks_event_status:
  assumes "\<forall>b \<in> set bs. \<forall>tx \<in> set (Transactions b). avoids_key k tx"
  shows "\<exists>e'. fold (block_event k) bs (Some e) = Some e' \<and> same_terms e e' \<and> ie_Status e' = settled_status k bs e"
  using assms
proof (induction bs arbitrary: e)
  case Nil
  then show ?case by (simp add: same_terms_def settled_status_def key_spends_def)
next
  case (Cons b bs)
  obtain e1 where e1: "block_event k b (Some e) = Some e1" "same_terms e e1" "ie_Status e1 = settled_status k [b] e"
    using block_event_status Cons.prems by fastforce
  obtain e2 where e2: "fold (block_event k) bs (Some e1) = Some e2" "same_terms e1 e2" "ie_Status e2 = settled_status k bs e1"
    using Cons by fastforce
  have sp: "key_spends k (b # bs) = key_spends k [b] @ key_spends k bs" by (simp add: key_spends_def)
  have "settled_status k bs e1 = settled_status k (b # bs) e"
  proof (cases "key_spends k bs = [] \<and> key_spends k [b] = []")
    case True
    let ?late = "\<lambda>b'. sint (Height b') \<ge> sint (ie_TimeoutBlock e)"
    have "ie_TimeoutBlock e1 = ie_TimeoutBlock e" using e1(2) by (simp add: same_terms_def)
    then have A: "settled_status k bs e1 =
        (if ie_Status e1 = EscrowStatusPending \<and> (\<exists>b' \<in> set bs. ?late b') then EscrowStatusExpired else ie_Status e1)"
      using True by (simp add: settled_status_def)
    have B: "ie_Status e1 = (if ie_Status e = EscrowStatusPending \<and> ?late b then EscrowStatusExpired else ie_Status e)"
      using e1(3) True by (simp add: settled_status_def)
    have C: "settled_status k (b # bs) e =
        (if ie_Status e = EscrowStatusPending \<and> (?late b \<or> (\<exists>b' \<in> set bs. ?late b')) then EscrowStatusExpired else ie_Status e)"
      using True by (simp add: settled_status_def sp)
    show ?thesis unfolding A B C by (rule expire_twice)
  next
    case False
    then show ?thesis
      using e1(3) spends_settled [of k "[b]"]
      by (cases "key_spends k bs = []") (auto simp: settled_status_def sp)
  qed
  with e1(1) e2 have "fold (block_event k) (b # bs) (Some e) = Some e2 \<and> ie_Status e2 = settled_status k (b # bs) e"
    by simp
  then show ?case using same_terms_trans [OF e1(2) e2(2)] by blast
qed

lemma ProcessBlocks_refines:
  assumes "idx_inv s" and "is_order ord"
  shows "idx_inv (fold (ProcessBlock ord) bs s) \<and>
    map_of (escrows (fold (ProcessBlock ord) bs s)) k = fold (block_event k) bs (map_of (escrows s) k)"
  using assms(1)
proof (induction bs arbitrary: s)
  case (Cons b bs)
  then show ?case using ProcessBlock_event [OF Cons.prems assms(2)] by simp
qed simp

lemma escrowKey_eq:
  "escrowKey t v = escrowKey t' v' \<longleftrightarrow> t = t' \<and> unat v mod 256 = unat v' mod 256"
proof -
  have "(ucast v :: byte) = ucast v' \<longleftrightarrow> unat v mod 256 = unat v' mod 256"
    unfolding word_unat_eq_iff by (simp add: unsigned_ucast_eq take_bit_eq_mod)
  moreover have "escrowKey t v = escrowKey t' v' \<longleftrightarrow>
      t = t' \<and> hex_encode [ucast v :: byte] = hex_encode [ucast v' :: byte]"
    unfolding escrowKey_def by (subst append_eq_append_conv) (simp_all only: length_append length_hex_encode list.size same_append_eq append_same_eq, auto)
  ultimately show ?thesis by (simp only: hex_encode_inject list.inject simp_thms)
qed

text \<open>
  C29. The life of an indexed escrow. Take a stored entry and any further blocks none of whose
  outputs has its key. Whatever the order of the map iterations, the entry stays with the same
  terms (amount, parties, lock, timeout), and its status is that of the last input that claims or
  refunds it; with no such input a pending escrow becomes expired as soon as one of the blocks has
  reached its timeout, and keeps its status otherwise.
\<close>

theorem escrow_lifecycle:
  assumes "idx_inv s" and "is_order ord" and "GetEscrow t v s = Some e"
    and "\<forall>b \<in> set bs. \<forall>tx \<in> set (Transactions b). avoids_key (escrowKey t v) tx"
  shows "\<exists>e'. GetEscrow t v (fold (ProcessBlock ord) bs s) = Some e' \<and> same_terms e e' \<and>
    ie_Status e' = settled_status (escrowKey t v) bs e"
  using ProcessBlocks_refines [OF assms(1,2), of bs "escrowKey t v"] assms(3)
    blocks_event_status [OF assms(4), of e]
  by (simp add: GetEscrow_def)

definition idx_sample :: "int64 \<Rightarrow> Transaction list \<Rightarrow> Block" where
  "idx_sample h txs = \<lparr>Timestamp = 0, Transactions = txs, PrevBlockHash = [], Hash = [7], Nonce = 0,
     Height = h, Bits = 16, AuthoritySignature = [], AuthorityPubKey = []\<rparr>"

definition sample_escrow :: IndexedEscrow where
  "sample_escrow = escrow_of ''ab'' 1 0 \<lparr>Value = 9, PubKeyHash = [1], ScriptType = 1, DataHashLock = [2],
     TimeoutBlock = 5, BuyerPubKeyHash = [3]\<rparr>"

theorem escrow_lifecycle_witness:
  "\<exists>e'. GetEscrow ''ab'' 0 (fold (ProcessBlock (\<lambda>m. m)) [idx_sample 4 [], idx_sample 5 []]
        (SaveEscrow sample_escrow NewIndexStore)) = Some e' \<and> ie_Status e' = EscrowStatusExpired"
proof -
  let ?s = "SaveEscrow sample_escrow NewIndexStore" and ?bs = "[idx_sample 4 [], idx_sample 5 []]"
  have inv: "idx_inv ?s" by (rule SaveEscrow_inv [OF NewIndexStore_inv])
  have get: "GetEscrow ''ab'' 0 ?s = Some sample_escrow"
    by (simp add: GetEscrow_def sample_escrow_def NewIndexStore_def)
  have "\<forall>b \<in> set ?bs. \<forall>tx \<in> set (Transactions b). avoids_key (escrowKey ''ab'' 0) tx"
    by (simp add: idx_sample_def)
  from escrow_lifecycle [OF inv is_order_id get this]
  obtain e' where "GetEscrow ''ab'' 0 (fold (ProcessBlock (\<lambda>m. m)) ?bs ?s) = Some e'"
    "ie_Status e' = settled_status (escrowKey ''ab'' 0) ?bs sample_escrow" by blast
  moreover have "settled_status (escrowKey ''ab'' 0) ?bs sample_escrow = EscrowStatusExpired"
    by (simp add: settled_status_def key_spends_def idx_sample_def sample_escrow_def escrow_of_def)
  ultimately show ?thesis by metis
qed

theorem ProcessBlock_refines_witness:
  "idx_inv (ProcessBlock (\<lambda>m. m) (idx_sample 4 []) NewIndexStore) \<and>
   recentBlocks (ProcessBlock (\<lambda>m. m) (idx_sample 4 []) NewIndexStore) = [block_summary (idx_sample 4 [])]"
  using ProcessBlock_refines [OF NewIndexStore_inv is_order_id, of "idx_sample 4 []"]
  unfolding Let_def by (metis NewIndexStore_def IndexStore.select_convs(4) take_Cons' take_Nil zero_neq_numeral)

lemma unat_plus_256: "unat (v + 256 :: int64) mod 256 = unat v mod 256"
proof -
  have "unat (v + 256) = (unat v + 256) mod 2 ^ 64" by (simp only: unat_word_ariths) simp
  then have "unat (v + 256) mod 256 = (unat v + 256) mod 256"
    using mod_mod_cancel [of 256 "2 ^ 64 :: nat"] by simp
  then show ?thesis by simp
qed

text \<open>
  Where the index is not what the chain says. The key of an escrow keeps one byte of the output
  index, so the output 256 places further of the same transaction replaces the entry and is counted
  as the same escrow. And an escrow whose timeout is the height of the block is shown as expired
  while, at that height, nobody can refund it and the seller can still claim it.
\<close>

theorem escrow_index_gaps:
  "(ie_TxID e2 = ie_TxID e1 \<and> ie_Vout e2 = ie_Vout e1 + 256 \<longrightarrow>
     GetEscrow (ie_TxID e1) (ie_Vout e1) (SaveEscrow e2 (SaveEscrow e1 s)) = Some e2 \<and>
     metrics (SaveEscrow e2 (SaveEscrow e1 s)) = metrics (SaveEscrow e1 s)) \<and>
   (is_order ord \<and> Transactions b = [tx] \<and> Vin tx = [] \<and> Vout tx = [out] \<and>
     ScriptType out = ScriptTypeEscrow \<and> TimeoutBlock out = Height b \<longrightarrow>
     (\<exists>e. GetEscrow (hex_encode (ID tx)) 0 (ProcessBlock ord b NewIndexStore) = Some e \<and>
        ie_Status e = EscrowStatusExpired) \<and>
     \<not> CanRefundEscrow out (Height b) pkh \<and>
     (sha256 P secret = DataHashLock out \<longrightarrow> CanClaimEscrow P out secret (PubKeyHash out)))"
proof (intro conjI impI)
  assume e: "ie_TxID e2 = ie_TxID e1 \<and> ie_Vout e2 = ie_Vout e1 + 256"
  have "escrowKey (ie_TxID e2) (ie_Vout e2) = escrowKey (ie_TxID e1) (ie_Vout e1)"
    using e by (simp add: escrowKey_eq unat_plus_256)
  then show "GetEscrow (ie_TxID e1) (ie_Vout e1) (SaveEscrow e2 (SaveEscrow e1 s)) = Some e2"
    and "metrics (SaveEscrow e2 (SaveEscrow e1 s)) = metrics (SaveEscrow e1 s)"
    by (simp_all add: GetEscrow_def SaveEscrow_def Let_def)
next
  assume b: "is_order ord \<and> Transactions b = [tx] \<and> Vin tx = [] \<and> Vout tx = [out] \<and>
     ScriptType out = ScriptTypeEscrow \<and> TimeoutBlock out = Height b"
  then have "block_event (escrowKey (hex_encode (ID tx)) 0) b None =
      Some (expire_event (Height b) (escrow_of (hex_encode (ID tx)) (Height b) 0 out))"
    by (simp add: block_event_def tx_event_def out_event_def)
  then show "\<exists>e. GetEscrow (hex_encode (ID tx)) 0 (ProcessBlock ord b NewIndexStore) = Some e \<and>
      ie_Status e = EscrowStatusExpired"
    using ProcessBlock_event(2) [OF NewIndexStore_inv, of ord b "escrowKey (hex_encode (ID tx)) 0"] b
    by (simp add: GetEscrow_def expire_event_def escrow_of_def NewIndexStore_def)
  show "\<not> CanRefundEscrow out (Height b) pkh" using b by (simp add: CanRefundEscrow_def)
  show "CanClaimEscrow P out secret (PubKeyHash out)" if "sha256 P secret = DataHashLock out"
    using b that by (simp add: CanClaimEscrow_def)
qed

theorem escrow_index_gaps_witness:
  "\<exists>e. GetEscrow ''ab'' 0 (SaveEscrow (sample_escrow\<lparr>ie_Vout := 256\<rparr>) (SaveEscrow sample_escrow NewIndexStore)) = Some e
     \<and> ie_Vout e = 256"
  using escrow_index_gaps [of "sample_escrow\<lparr>ie_Vout := 256\<rparr>" sample_escrow NewIndexStore]
  by (simp add: sample_escrow_def)

lemma SaveService_spec:
  assumes "is_order ord"
  shows "escrows (SaveService srv s) = escrows s"
    and "GetService (as_ID srv) (SaveService srv s) = Some srv"
    and "as_Active srv \<Longrightarrow> srv \<in> set (ListServices ord (SaveService srv s))"
    and "as_ID srv \<in> set (alist_get (agentServices (SaveService srv s)) (as_AgentAddress srv))"
proof -
  show get: "GetService (as_ID srv) (SaveService srv s) = Some srv"
    by (simp add: GetService_def SaveService_def)
  then have "(as_ID srv, srv) \<in> set (ord (services (SaveService srv s)))"
    using is_order_set [OF assms] by (auto simp: GetService_def dest: map_of_SomeD)
  then show "as_Active srv \<Longrightarrow> srv \<in> set (ListServices ord (SaveService srv s))"
    by (force simp: ListServices_def)
qed (simp_all add: SaveService_def)

text \<open>
  Offering a service. An offer is stored exactly when the address is valid, the name and the
  endpoint are not empty and the price is positive; then the service is found under its identifier,
  listed as active and filed under the agent's address, and the escrows are untouched. A refused
  offer changes nothing.
\<close>

theorem RegisterServiceOffer_spec:
  assumes "idx_inv s" and "is_order ord"
  shows "let ok = ValidateAddress P a \<and> name \<noteq> [] \<and> url \<noteq> [] \<and> 0 < sint price;
           (r, s') = RegisterServiceOffer P lower nano now a name desc url price s
         in idx_inv s' \<and> escrows s' = escrows s \<and>
            (if ok then \<exists>srv. r = Ok srv \<and> as_AgentAddress srv = a \<and> as_PricePerCall srv = price \<and>
               GetService (as_ID srv) s' = Some srv \<and> srv \<in> set (ListServices ord s') \<and>
               as_ID srv \<in> set (alist_get (agentServices s') a)
             else (\<exists>m. r = Error (ErrMsg m)) \<and> s' = s)"
proof -
  let ?id = "''srv_'' @ lower name @ ''_'' @ fmt_d (sint nano)"
  let ?srv = "\<lparr>as_ID = ?id, as_AgentAddress = a, as_Name = name, as_Description = desc,
    as_EndpointURL = url, as_PricePerCall = price, as_RegisteredAt = now, as_Active = True\<rparr>"
  show ?thesis
    using assms(1) SaveService_spec [OF assms(2), of ?srv s]
    by (simp add: RegisterServiceOffer_def Let_def SaveService_inv)
qed

theorem RegisterServiceOffer_spec_witness:
  "\<exists>srv s'. RegisterServiceOffer sample_prims (\<lambda>n. n) 0 0 (address_of sample_prims \<lparr>PrivKey = sample_key 5, PublicKey = []\<rparr>)
      ''n'' [] ''u'' 1 NewIndexStore = (Ok srv, s') \<and> GetService (as_ID srv) s' = Some srv"
  using RegisterServiceOffer_spec [OF NewIndexStore_inv is_order_id, of sample_prims
      "address_of sample_prims \<lparr>PrivKey = sample_key 5, PublicKey = []\<rparr>" "''n''" "''u''" 1 "\<lambda>n. n" 0 0 "[]"]
    ValidateAddress_of_wallet [OF sample_sha256_ok]
  by (auto split: prod.splits)

end
