(* ===== verification/Marketplace.thy ===== *)
theory Marketplace
  imports TxBuild Indexer "HOL-Library.Sublist"
begin

text \<open>
  The marketplace of \<^verbatim>\<open>internal/marketplace\<close>: the catalogue of services over the index store
  (\<^verbatim>\<open>service_catalog.go\<close>) and the escrow manager that runs a deal between a buyer and a seller
  (\<^verbatim>\<open>escrow_manager.go\<close>). The manager keeps no state of its own beyond the pointer to the store,
  so its methods are functions of the wallet and the chain. \<open>lower\<close> is \<^verbatim>\<open>strings.ToLower\<close>.
\<close>

section \<open>Service catalogue\<close>

record SearchFilter =
  sf_Query :: string
  sf_MaxPrice :: int64
  sf_AgentAddress :: string

text \<open>The tests of the loop body; \<^verbatim>\<open>strings.Contains\<close> is \<open>sublist\<close>.\<close>

definition skip_service :: "(string \<Rightarrow> string) \<Rightarrow> SearchFilter \<Rightarrow> AgentService \<Rightarrow> bool" where
  "skip_service lower flt srv =
     (let queryLower = lower (sf_Query flt) in
      if sint (sf_MaxPrice flt) > 0 \<and> sint (as_PricePerCall srv) > sint (sf_MaxPrice flt) then True
      else if sf_AgentAddress flt \<noteq> [] \<and> as_AgentAddress srv \<noteq> sf_AgentAddress flt then True
      else if queryLower \<noteq> [] then
        \<not> sublist queryLower (lower (as_Name srv)) \<and> \<not> sublist queryLower (lower (as_Description srv))
      else False)"

fun search_loop :: "(string \<Rightarrow> string) \<Rightarrow> SearchFilter \<Rightarrow> AgentService list \<Rightarrow> AgentService list \<Rightarrow> AgentService list" where
  "search_loop lower flt [] results = results"
| "search_loop lower flt (srv # srvs) results =
     (if skip_service lower flt srv then search_loop lower flt srvs results
      else search_loop lower flt srvs (results @ [srv]))"

definition Search ::
    "(string \<Rightarrow> string) \<Rightarrow> ((string \<times> AgentService) list \<Rightarrow> (string \<times> AgentService) list) \<Rightarrow> SearchFilter \<Rightarrow>
      IndexStore \<Rightarrow> AgentService list" where
  "Search lower ord flt s = search_loop lower flt (ListServices ord s) []"

definition GetServiceByID :: "string \<Rightarrow> IndexStore \<Rightarrow> AgentService result" where
  "GetServiceByID i s =
     (case GetService i s of
        None \<Rightarrow> Error (ErrMsg (''service with ID '' @ i @ '' not found''))
      | Some srv \<Rightarrow> Ok srv)"

section \<open>Escrow manager\<close>

text \<open>\<open>read\<close> is what \<^verbatim>\<open>rand.Read\<close> puts into the buffer of 32 bytes.\<close>

definition CreateHTLCSecret :: "Prims \<Rightarrow> bytes result \<Rightarrow> (bytes \<times> bytes) result" where
  "CreateHTLCSecret P read =
     bind_result (wrap_err ''failed to generate random secret'' read) (\<lambda>preimage. Ok (preimage, sha256 P preimage))"

definition BuildEscrowTransaction ::
    "Prims \<Rightarrow> 's Storage \<Rightarrow> (spendable \<Rightarrow> spendable) \<Rightarrow> (nat \<Rightarrow> nat) \<Rightarrow> Wallet \<Rightarrow> string \<Rightarrow> int64 \<Rightarrow> bytes \<Rightarrow>
     int64 \<Rightarrow> 's Blockchain \<Rightarrow> Transaction result" where
  "BuildEscrowTransaction P S ord rnd buyerWallet sellerAddress amount hashLock timeoutBlock bc =
     (if \<not> ValidateAddress P sellerAddress then Error (ErrMsg ''invalid seller address'')
      else NewEscrowTransaction P S ord rnd buyerWallet sellerAddress amount hashLock timeoutBlock bc)"

definition BuildClaimTransaction ::
    "Prims \<Rightarrow> 's Storage \<Rightarrow> (nat \<Rightarrow> nat) \<Rightarrow> Wallet \<Rightarrow> bytes \<Rightarrow> int64 \<Rightarrow> bytes \<Rightarrow> 's Blockchain \<Rightarrow> Transaction result" where
  "BuildClaimTransaction P S rnd sellerWallet escrowTxID escrowVout preimage blockchain =
     NewEscrowClaimTransaction P S rnd sellerWallet escrowTxID escrowVout preimage blockchain"

definition BuildRefundTransaction ::
    "Prims \<Rightarrow> 's Storage \<Rightarrow> (nat \<Rightarrow> nat) \<Rightarrow> Wallet \<Rightarrow> bytes \<Rightarrow> int64 \<Rightarrow> 's Blockchain \<Rightarrow> Transaction result" where
  "BuildRefundTransaction P S rnd buyerWallet escrowTxID escrowVout blockchain =
     NewEscrowRefundTransaction P S rnd buyerWallet escrowTxID escrowVout blockchain"

definition BuildZKCPTransaction ::
    "Prims \<Rightarrow> 's Storage \<Rightarrow> (spendable \<Rightarrow> spendable) \<Rightarrow> (nat \<Rightarrow> nat) \<Rightarrow> Wallet \<Rightarrow> string \<Rightarrow> int64 \<Rightarrow> bytes \<Rightarrow>
     int64 \<Rightarrow> 's Blockchain \<Rightarrow> Transaction result" where
  "BuildZKCPTransaction P S ord rnd buyerWallet sellerAddress amount hashLock timeoutBlock bc =
     (if \<not> ValidateAddress P sellerAddress then Error (ErrMsg ''invalid seller address'')
      else
        let buyerPubKeyHash = HashPubKey P (PublicKey buyerWallet);
            buyerAddress = address_of P buyerWallet in
        bind_result (wrap_err ''failed to find spendable outputs''
            (FindSpendableOutputs P S bc buyerPubKeyHash amount)) (\<lambda>(accumulated, validOutputs).
        if sint accumulated < sint amount
        then Error (ErrMsg (''insufficient buyer balance: have '' @ fmt_d (sint accumulated) @ '', need '' @ fmt_d (sint amount)))
        else
          bind_result (build_inputs (PublicKey buyerWallet) (ord validOutputs)) (\<lambda>inputs.
          bind_result (NewZKCPOutput amount sellerAddress buyerAddress hashLock timeoutBlock) (\<lambda>zkcpOutput.
          bind_result (with_change buyerAddress accumulated amount zkcpOutput) (\<lambda>outputs.
            finish_tx P S rnd ''failed to sign ZKCP transaction'' bc (PrivKey buyerWallet)
              \<lparr>ID = [], Vin = inputs, Vout = outputs\<rparr>)))))"

section \<open>Lemmas\<close>

lemma search_loop_filter: "search_loop lower flt srvs results = results @ filter (\<lambda>srv. \<not> skip_service lower flt srv) srvs"
  by (induction srvs arbitrary: results) simp_all

lemma skip_service_iff:
  "skip_service lower flt srv \<longleftrightarrow>
     0 < sint (sf_MaxPrice flt) \<and> sint (sf_MaxPrice flt) < sint (as_PricePerCall srv) \<or>
     sf_AgentAddress flt \<noteq> [] \<and> as_AgentAddress srv \<noteq> sf_AgentAddress flt \<or>
     lower (sf_Query flt) \<noteq> [] \<and> \<not> sublist (lower (sf_Query flt)) (lower (as_Name srv)) \<and>
       \<not> sublist (lower (sf_Query flt)) (lower (as_Description srv))"
  by (auto simp: skip_service_def Let_def)

text \<open>The output that locks a deal: the seller's key hash out of the address, the buyer's out of the wallet.\<close>

definition deal_output :: "Prims \<Rightarrow> byte \<Rightarrow> Wallet \<Rightarrow> string \<Rightarrow> int64 \<Rightarrow> bytes \<Rightarrow> int64 \<Rightarrow> TXOutput \<Rightarrow> bool" where
  "deal_output P script w seller amount lock timeout out \<longleftrightarrow>
     Value out = amount \<and> 0 < sint amount \<and> ScriptType out = script \<and> address_hash seller = Some (PubKeyHash out) \<and>
     BuyerPubKeyHash out = HashPubKey P (PublicKey w) \<and> DataHashLock out = lock \<and> TimeoutBlock out = timeout"

lemma NewEscrowOutput_deal:
  assumes "sha256_ok P" and "NewEscrowOutput amount seller (address_of P w) lock timeout = Ok out"
  shows "deal_output P ScriptTypeEscrow w seller amount lock timeout out"
proof -
  have "address_hash (address_of P w) = Some (HashPubKey P (PublicKey w))" using address_hash_of_wallet [OF assms(1)] .
  then show ?thesis using assms(2)
    by (auto simp: deal_output_def NewEscrowOutput_def address_hash_def Let_def split: if_splits)
qed

lemma NewZKCPOutput_deal:
  assumes "sha256_ok P" and "NewZKCPOutput amount seller (address_of P w) lock timeout = Ok out"
  shows "deal_output P ScriptTypeZKCP w seller amount lock timeout out"
  using assms(2) NewEscrowOutput_deal [OF assms(1)]
  by (fastforce simp: NewZKCPOutput_def deal_output_def bind_result_eq_Ok)

text \<open>What the deposit of a deal looks like when a builder returns it.\<close>

definition deposit ::
    "Prims \<Rightarrow> 's Storage \<Rightarrow> (spendable \<Rightarrow> spendable) \<Rightarrow> byte \<Rightarrow> Wallet \<Rightarrow> string \<Rightarrow> int64 \<Rightarrow> bytes \<Rightarrow> int64 \<Rightarrow>
      's Blockchain \<Rightarrow> Transaction \<Rightarrow> bool" where
  "deposit P S ord script w seller amount lock timeout bc tx \<longleftrightarrow> ID tx \<noteq> [] \<and>
     (\<exists>acc m out. FindSpendableOutputs P S bc (HashPubKey P (PublicKey w)) amount = Ok (acc, m) \<and> sint amount \<le> sint acc \<and>
        refs_of (Vin tx) = chosen_refs (ord m) \<and> list_all (\<lambda>vin. PubKey vin = PublicKey w \<and> \<not> IsRefund vin) (Vin tx) \<and>
        go_index (Vout tx) 0 = Ok out \<and> deal_output P script w seller amount lock timeout out \<and>
        list_all (\<lambda>out. 0 < sint (Value out)) (Vout tx) \<and> (\<Sum>out\<leftarrow>Vout tx. sint (Value out)) = sint acc)"

lemma depositI:
  assumes sha: "sha256_ok P" and sel: "FindSpendableOutputs P S bc (HashPubKey P (PublicKey w)) amount = Ok (acc, m)" "\<not> sint acc < sint amount"
    and ins: "build_inputs (PublicKey w) (ord m) = Ok ins" and out: "deal_output P script w seller amount lock timeout out"
    and outs: "with_change self acc amount out = Ok outs"
    and fin: "finish_tx P S rnd msg bc k \<lparr>ID = [], Vin = ins, Vout = outs\<rparr> = Ok tx"
  shows "deposit P S ord script w seller amount lock timeout bc tx"
proof -
  have o: "Value out = amount" "0 < sint amount" "sint amount \<le> sint acc"
    using out sel(2) by (simp_all add: deal_output_def)
  note t = selected_tx [OF ins o outs fin]
  then have "go_index (Vout tx) 0 = Ok out" by (cases "Vout tx") (auto simp: go_index_def)
  moreover have "length (ID tx) = 32"
    using strip_sigs_eqD(4) [OF finish_tx_Ok [OF fin]] sha by (simp add: Hash_tx_def sha256_ok_def)
  then have "ID tx \<noteq> []" by auto
  ultimately show ?thesis unfolding deposit_def using t sel(1) o(3) out by blast
qed

lemma BuildEscrowTransaction_deposit:
  assumes "sha256_ok P" and "BuildEscrowTransaction P S ord rnd w seller amount lock timeout bc = Ok tx"
  shows "ValidateAddress P seller \<and> deposit P S ord ScriptTypeEscrow w seller amount lock timeout bc tx"
proof -
  have v: "ValidateAddress P seller" and n: "NewEscrowTransaction P S ord rnd w seller amount lock timeout bc = Ok tx"
    using assms(2) by (auto simp: BuildEscrowTransaction_def split: if_splits)
  obtain acc m ins out outs where
    f: "FindSpendableOutputs P S bc (HashPubKey P (PublicKey w)) amount = Ok (acc, m)" "\<not> sint acc < sint amount"
    and ins: "build_inputs (PublicKey w) (ord m) = Ok ins"
    and out: "NewEscrowOutput amount seller (address_of P w) lock timeout = Ok out"
    and outs: "with_change (address_of P w) acc amount out = Ok outs"
    and fin: "finish_tx P S rnd ''failed to sign transaction'' bc (PrivKey w) \<lparr>ID = [], Vin = ins, Vout = outs\<rparr> = Ok tx"
    using n unfolding NewEscrowTransaction_def Let_def
    by (auto simp: bind_result_eq_Ok wrap_err_eq_Ok split: if_split_asm)
  show ?thesis using v depositI [where ord = ord, OF assms(1) f ins NewEscrowOutput_deal [OF assms(1) out] outs fin] by blast
qed

lemma BuildZKCPTransaction_deposit:
  assumes "sha256_ok P" and "BuildZKCPTransaction P S ord rnd w seller amount lock timeout bc = Ok tx"
  shows "ValidateAddress P seller \<and> deposit P S ord ScriptTypeZKCP w seller amount lock timeout bc tx"
proof -
  have v: "ValidateAddress P seller" using assms(2) by (auto simp: BuildZKCPTransaction_def split: if_splits)
  then obtain acc m ins out outs where
    f: "FindSpendableOutputs P S bc (HashPubKey P (PublicKey w)) amount = Ok (acc, m)" "\<not> sint acc < sint amount"
    and ins: "build_inputs (PublicKey w) (ord m) = Ok ins"
    and out: "NewZKCPOutput amount seller (address_of P w) lock timeout = Ok out"
    and outs: "with_change (address_of P w) acc amount out = Ok outs"
    and fin: "finish_tx P S rnd ''failed to sign ZKCP transaction'' bc (PrivKey w) \<lparr>ID = [], Vin = ins, Vout = outs\<rparr> = Ok tx"
    using assms(2) unfolding BuildZKCPTransaction_def Let_def
    by (auto simp: bind_result_eq_Ok wrap_err_eq_Ok split: if_split_asm)
  show ?thesis using v depositI [where ord = ord, OF assms(1) f ins NewZKCPOutput_deal [OF assms(1) out] outs fin] by blast
qed

section \<open>Properties\<close>

text \<open>
  C20. A deal settles either way. Take the secret and the lock of \<open>CreateHTLCSecret\<close>, and the deposit that
  the manager builds with this lock, as an escrow or as a ZKCP output. The deposit spends outputs of
  the buyer only, its first output locks the amount, and all its outputs sum up to what was
  selected. On every chain that holds the deposit, the seller can claim the full amount with the
  secret, and once the height has passed the timeout the buyer can take the full amount back:
  both transactions are built and accepted by \<open>VerifyTransaction\<close>.
\<close>

theorem deal_settles:
  assumes sha: "sha256_ok P" and secret: "CreateHTLCSecret P read = Ok (preimage, lock)"
    and build: "script = ScriptTypeEscrow \<and> BuildEscrowTransaction P S ord rnd buyer (address_of P seller) amount lock timeout bc = Ok tx \<or>
      script = ScriptTypeZKCP \<and> BuildZKCPTransaction P S ord rnd buyer (address_of P seller) amount lock timeout bc = Ok tx"
    and held: "FindTransaction P S bc' (ID tx) = Ok tx" and h: "GetBestHeight P S bc' = Ok height"
    and s: "ecdsa_ok P (PrivKey seller)" "is_pubkey (PrivKey seller) (PublicKey seller)"
    and b: "ecdsa_ok P (PrivKey buyer)" "is_pubkey (PrivKey buyer) (PublicKey buyer)"
  shows "deposit P S ord script buyer (address_of P seller) amount lock timeout bc tx \<and>
    (\<exists>c. BuildClaimTransaction P S rnd' seller (ID tx) 0 preimage bc' = Ok c \<and> VerifyTransaction P S bc' c = Ok True \<and>
       refs_of (Vin c) = [(ID tx, 0)] \<and> map (\<lambda>x. (Value x, PubKeyHash x)) (Vout c) = [(amount, HashPubKey P (PublicKey seller))]) \<and>
    (sint timeout < sint height \<longrightarrow>
      (\<exists>c. BuildRefundTransaction P S rnd' buyer (ID tx) 0 bc' = Ok c \<and> VerifyTransaction P S bc' c = Ok True \<and>
         refs_of (Vin c) = [(ID tx, 0)] \<and> map (\<lambda>x. (Value x, PubKeyHash x)) (Vout c) = [(amount, HashPubKey P (PublicKey buyer))]))"
proof -
  have d: "deposit P S ord script buyer (address_of P seller) amount lock timeout bc tx"
    using build BuildEscrowTransaction_deposit [OF sha] BuildZKCPTransaction_deposit [OF sha] by blast
  then obtain out where id: "ID tx \<noteq> []" and out: "go_index (Vout tx) 0 = Ok out"
    "deal_output P script buyer (address_of P seller) amount lock timeout out"
    unfolding deposit_def by blast
  have lk: "lock = sha256 P preimage" using secret by (auto simp: CreateHTLCSecret_def bind_result_eq_Ok)
  have o: "ScriptType out = ScriptTypeEscrow \<or> ScriptType out = ScriptTypeZKCP" "0 < sint (Value out)" "Value out = amount"
    "PubKeyHash out = HashPubKey P (PublicKey seller)" "DataHashLock out = sha256 P preimage"
    "BuyerPubKeyHash out = HashPubKey P (PublicKey buyer)" "TimeoutBlock out = timeout"
    using out(2) build lk by (auto simp: deal_output_def address_hash_of_wallet [OF sha])
  from escrow_claim_builds [OF held refl id out(1) h sha s o(1,2,4,5), of rnd']
    escrow_refund_builds [OF held refl id out(1) h sha b o(1,2,6), of rnd'] d
  show ?thesis unfolding BuildClaimTransaction_def BuildRefundTransaction_def o(3,7) by blast
qed

theorem deal_settles_witness:
  "\<exists>tx lock c. CreateHTLCSecret sample_prims (Ok [42]) = Ok ([42], lock) \<and>
     BuildZKCPTransaction sample_prims list_storage (\<lambda>x. x) (\<lambda>_. 0) sample_wallet (address_of sample_prims sample_wallet) 10 lock (-1)
       (funded_bc (sample_out 10 0)) = Ok tx \<and>
     BuildRefundTransaction sample_prims list_storage (\<lambda>_. 0) sample_wallet (ID tx) 0 (sample_bc [tx]) = Ok c \<and>
     VerifyTransaction sample_prims list_storage (sample_bc [tx]) c = Ok True"
proof -
  let ?a = "address_of sample_prims sample_wallet" and ?lock = "sha256 sample_prims [42]"
  have "\<exists>new. NewZKCPOutput 10 ?a ?a ?lock (-1) = Ok new \<and> Value new = 10"
    using address_hash_of_wallet [OF sample_sha256_ok, of sample_wallet]
    by (auto simp: NewZKCPOutput_def NewEscrowOutput_def address_hash_def Let_def split: if_splits)
  then obtain new where new: "NewZKCPOutput 10 ?a ?a ?lock (-1) = Ok new" "Value new = 10" by blast
  then obtain tx where tx: "BuildZKCPTransaction sample_prims list_storage (\<lambda>x. x) (\<lambda>_. 0) sample_wallet ?a 10 ?lock (-1)
       (funded_bc (sample_out 10 0)) = Ok tx"
    using sample_finish [of new "''failed to sign ZKCP transaction''"] sample_selection ValidateAddress_of_wallet [OF sample_sha256_ok]
    by (auto simp: BuildZKCPTransaction_def with_change_def hex_value_def)
  note g = sample_bc_facts(3) [of "[tx]"]
  have held: "FindTransaction sample_prims list_storage (sample_bc [tx]) (ID tx) = Ok tx"
    using FindTransaction_chain [OF good_chain_chain [OF g]] by (simp add: chain_txs_def)
  have h: "GetBestHeight sample_prims list_storage (sample_bc [tx]) = Ok 0"
    using bolt.GetBestHeight_eq [OF sample_bc_facts(1) [of "[tx]"]] good_chain_hd [OF g] by auto
  have c: "CreateHTLCSecret sample_prims (Ok [42]) = Ok ([42], ?lock)" by (simp add: CreateHTLCSecret_def)
  have "\<exists>c. BuildRefundTransaction sample_prims list_storage (\<lambda>_. 0) sample_wallet (ID tx) 0 (sample_bc [tx]) = Ok c \<and>
     VerifyTransaction sample_prims list_storage (sample_bc [tx]) c = Ok True"
    using deal_settles [OF sample_sha256_ok c _ held h, of ScriptTypeZKCP "\<lambda>x. x" "\<lambda>_. 0" sample_wallet sample_wallet 10 "-1"
        "funded_bc (sample_out 10 0)" "\<lambda>_. 0"] tx by auto
  with c tx show ?thesis by blast
qed

text \<open>
  Searching is complete and exact: the result lists, once each and whatever the order of the
  map, the active services that cost at most the maximum (when one is given), belong to the agent
  (when one is given) and hold the query, up to case, in their name or description (when one is
  given). In particular a service that was just registered is found under its own name, agent
  and price.
\<close>

theorem Search_spec:
  assumes "idx_inv s" and "is_order ord"
  shows "set (Search lower ord flt s) = {srv. (as_ID srv, srv) \<in> set (services s) \<and> as_Active srv \<and>
      (0 < sint (sf_MaxPrice flt) \<longrightarrow> sint (as_PricePerCall srv) \<le> sint (sf_MaxPrice flt)) \<and>
      (sf_AgentAddress flt \<noteq> [] \<longrightarrow> as_AgentAddress srv = sf_AgentAddress flt) \<and>
      (lower (sf_Query flt) \<noteq> [] \<longrightarrow> sublist (lower (sf_Query flt)) (lower (as_Name srv)) \<or>
         sublist (lower (sf_Query flt)) (lower (as_Description srv)))} \<and>
    distinct (map as_ID (Search lower ord flt s)) \<and>
    (\<forall>srv s'. RegisterServiceOffer P lower nano now a name desc url price s = (Ok srv, s') \<longrightarrow>
       srv \<in> set (Search lower ord \<lparr>sf_Query = name, sf_MaxPrice = price, sf_AgentAddress = a\<rparr> s') \<and>
       GetServiceByID (as_ID srv) s' = Ok srv)"
proof (intro conjI allI impI)
  have k: "(\<exists>i. (i, srv) \<in> set (services s)) \<longleftrightarrow> (as_ID srv, srv) \<in> set (services s)" for srv
    using assms(1) by (auto simp: idx_inv_def)
  have found: "srv \<in> set (Search lower ord flt s) \<longleftrightarrow>
      (\<exists>i. (i, srv) \<in> set (services s)) \<and> as_Active srv \<and> \<not> skip_service lower flt srv" for flt s srv
    by (force simp: Search_def search_loop_filter ListServices_def is_order_set [OF assms(2)])
  show "set (Search lower ord flt s) = {srv. (as_ID srv, srv) \<in> set (services s) \<and> as_Active srv \<and>
      (0 < sint (sf_MaxPrice flt) \<longrightarrow> sint (as_PricePerCall srv) \<le> sint (sf_MaxPrice flt)) \<and>
      (sf_AgentAddress flt \<noteq> [] \<longrightarrow> as_AgentAddress srv = sf_AgentAddress flt) \<and>
      (lower (sf_Query flt) \<noteq> [] \<longrightarrow> sublist (lower (sf_Query flt)) (lower (as_Name srv)) \<or>
         sublist (lower (sf_Query flt)) (lower (as_Description srv)))}"
    by (auto simp: found k skip_service_iff)
  have "map as_ID (map snd (services s)) = map fst (services s)"
    using assms(1) by (auto simp: idx_inv_def)
  then have "mset (map as_ID (map snd (ord (services s)))) = mset (map fst (services s))"
    using assms(2) unfolding is_order_def by (metis mset_map)
  then have "distinct (map as_ID (map snd (ord (services s))))"
    using assms(1) unfolding idx_inv_def by (metis mset_eq_imp_distinct_iff)
  then show "distinct (map as_ID (Search lower ord flt s))"
    by (simp add: Search_def search_loop_filter ListServices_def distinct_map_filter del: map_map)
  fix srv s'
  assume r: "RegisterServiceOffer P lower nano now a name desc url price s = (Ok srv, s')"
  then have s': "s' = SaveService srv s" and srv: "as_Active srv" "as_AgentAddress srv = a" "as_PricePerCall srv = price" "as_Name srv = name"
    by (auto simp: RegisterServiceOffer_def Let_def split: if_splits)
  have g: "GetService (as_ID srv) s' = Some srv" unfolding s' by (rule SaveService_spec(2) [OF assms(2)])
  then show "GetServiceByID (as_ID srv) s' = Ok srv" by (simp add: GetServiceByID_def)
  from g have "(as_ID srv, srv) \<in> set (services s')" by (simp add: GetService_def map_of_SomeD)
  then show "srv \<in> set (Search lower ord \<lparr>sf_Query = name, sf_MaxPrice = price, sf_AgentAddress = a\<rparr> s')"
    using srv by (auto simp: found skip_service_iff)
qed

theorem Search_spec_witness:
  "\<exists>srv s'. RegisterServiceOffer sample_prims (\<lambda>n. n) 0 0 (address_of sample_prims sample_wallet) ''n'' [] ''u'' 1 NewIndexStore = (Ok srv, s') \<and>
     srv \<in> set (Search (\<lambda>n. n) (\<lambda>x. x) \<lparr>sf_Query = ''n'', sf_MaxPrice = 1, sf_AgentAddress = address_of sample_prims sample_wallet\<rparr> s')"
proof -
  have "\<exists>srv s'. RegisterServiceOffer sample_prims (\<lambda>n. n) 0 0 (address_of sample_prims sample_wallet) ''n'' [] ''u'' 1 NewIndexStore = (Ok srv, s')"
    using ValidateAddress_of_wallet [OF sample_sha256_ok] by (simp add: RegisterServiceOffer_def Let_def)
  then show ?thesis using Search_spec [OF NewIndexStore_inv is_order_id, of "\<lambda>n. n"] by blast
qed

end
