(* ===== verification/Zkcp.thy ===== *)
theory Zkcp
  imports Output
begin

text \<open>
  The proofs of \<^verbatim>\<open>internal/zkcp/circuit.go\<close>. What the code calls a zero-knowledge proof is the
  hash of the lock followed by the secret; the verifier is handed the secret.
\<close>

record Proof =
  HashLock :: bytes
  ProofData :: bytes
  PublicInputs :: bytes

definition GeneratePreimageProof :: "Prims \<Rightarrow> bytes \<Rightarrow> Proof result" where
  "GeneratePreimageProof P preimage =
     (if length preimage = 0 then Error (ErrMsg ''preimage cannot be empty'')
      else
        let hashLock = sha256 P preimage;
            proofData = sha256 P (hashLock @ preimage)
        in Ok \<lparr>HashLock = hashLock, ProofData = proofData, PublicInputs = hashLock\<rparr>)"

text \<open>A nil proof is \<open>None\<close>.\<close>

definition VerifyProof :: "Prims \<Rightarrow> bytes \<Rightarrow> bytes \<Rightarrow> Proof option \<Rightarrow> bool" where
  "VerifyProof P hashLock preimage proof =
     (if length hashLock \<noteq> 32 \<or> length preimage = 0 \<or> proof = None then False
      else
        let expectedHash = sha256 P preimage in
        if hex_encode expectedHash \<noteq> hex_encode hashLock then False
        else
          let expectedProofData = sha256 P (hashLock @ preimage)
          in hex_encode (ProofData (the proof)) = hex_encode expectedProofData)"

text \<open>
  Proofs of preimages are complete and sound: every proof that is generated for a secret
  verifies against the hash of the secret, only the empty secret has none, and what verifies
  comes with a secret whose hash is the lock. So a seller who shows a verifying proof for the
  lock of a ZKCP output can claim the output with that secret.
\<close>

theorem zkcp_proofs:
  assumes "sha256_ok P"
  shows "(case GeneratePreimageProof P secret of
      Ok pf \<Rightarrow> VerifyProof P (HashLock pf) secret (Some pf) \<and> HashLock pf = sha256 P secret
    | _ \<Rightarrow> secret = []) \<and>
   (VerifyProof P lock secret pf \<longrightarrow> sha256 P secret = lock \<and> secret \<noteq> [] \<and>
      (ScriptType out = ScriptTypeZKCP \<and> DataHashLock out = lock \<longrightarrow>
         CanClaimZKCP P out secret (PubKeyHash out)))"
  using assms
  by (auto simp: GeneratePreimageProof_def VerifyProof_def sha256_ok_def Let_def CanClaimZKCP_iff split: if_splits)

theorem zkcp_proofs_witness:
  "\<exists>pf. GeneratePreimageProof sample_prims [42] = Ok pf \<and> VerifyProof sample_prims (sample_hash [42]) [42] (Some pf)"
proof -
  obtain pf where pf: "GeneratePreimageProof sample_prims [42] = Ok pf"
    by (simp add: GeneratePreimageProof_def Let_def)
  note ok = zkcp_proofs [OF sample_sha256_ok, of "[42]" "[]" None undefined]
  have "VerifyProof sample_prims (HashLock pf) [42] (Some pf) \<and> HashLock pf = sample_hash [42]"
    using conjunct1 [OF ok] unfolding pf result.case sample_sha256_eq .
  then show ?thesis using pf by metis
qed

end
