(* ===== verification/Chaos.thy ===== *)
theory Chaos
  imports Prelude Complex_Main
begin

text \<open>
  Fault injection, \<^verbatim>\<open>internal/network/chaos.go\<close>: which nodes are cut off and with what probability
  a connection is dropped. Rates and random draws are rationals, which the finite floating-point
  numbers are; the draw is an argument.
\<close>

record ChaosConfig =
  LatencyMillis :: int64
  PacketDropRate :: rat

record ChaosNetwork =
  partitionedNodes :: "(string \<times> bool) list"
  chaos_config :: ChaosConfig

definition NewChaosNetwork :: "ChaosConfig \<Rightarrow> ChaosNetwork" where
  "NewChaosNetwork cfg = \<lparr>partitionedNodes = [], chaos_config = cfg\<rparr>"

definition IsolateNode :: "string \<Rightarrow> ChaosNetwork \<Rightarrow> ChaosNetwork" where
  "IsolateNode nodeID cn = cn\<lparr>partitionedNodes := AList.update nodeID True (partitionedNodes cn)\<rparr>"

definition HealPartition :: "ChaosNetwork \<Rightarrow> ChaosNetwork" where
  "HealPartition cn = cn\<lparr>partitionedNodes := []\<rparr>"

definition HealNode :: "string \<Rightarrow> ChaosNetwork \<Rightarrow> ChaosNetwork" where
  "HealNode nodeID cn = cn\<lparr>partitionedNodes := AList.delete nodeID (partitionedNodes cn)\<rparr>"

text \<open>A missing key reads as \<^verbatim>\<open>false\<close>.\<close>

definition IsPartitioned :: "string \<Rightarrow> ChaosNetwork \<Rightarrow> bool" where
  "IsPartitioned nodeID cn = (case map_of (partitionedNodes cn) nodeID of None \<Rightarrow> False | Some b \<Rightarrow> b)"

definition ShouldDropConnection :: "rat \<Rightarrow> string \<Rightarrow> string \<Rightarrow> ChaosNetwork \<Rightarrow> bool" where
  "ShouldDropConnection draw fromNodeID toNodeID cn =
     (if IsPartitioned fromNodeID cn \<or> IsPartitioned toNodeID cn then True
      else if PacketDropRate (chaos_config cn) > 0 \<and> draw < PacketDropRate (chaos_config cn) then True
      else False)"

text \<open>
  The duration \<^verbatim>\<open>ApplyLatency\<close> hands to \<^verbatim>\<open>time.Sleep\<close>, in nanoseconds; the product of the 64-bit
  numbers wraps around. \<open>None\<close> when it does not sleep at all.
\<close>

definition ApplyLatency :: "ChaosNetwork \<Rightarrow> int64 option" where
  "ApplyLatency cn =
     (if sint (LatencyMillis (chaos_config cn)) > 0 then Some (LatencyMillis (chaos_config cn) * 1000000) else None)"

text \<open>\<open>fmt2\<close> is the verb \<^verbatim>\<open>%.2f\<close>.\<close>

definition Status :: "(rat \<Rightarrow> string) \<Rightarrow> ChaosNetwork \<Rightarrow> string" where
  "Status fmt2 cn = ''Partitioned Nodes: '' @ fmt_d (int (length (partitionedNodes cn))) @ '', Latency: '' @
     fmt_d (sint (LatencyMillis (chaos_config cn))) @ ''ms, Drop Rate: '' @ fmt2 (PacketDropRate (chaos_config cn))"

section \<open>The set of isolated nodes\<close>

datatype chaos_op = Isolate string | Heal string | HealAll

fun chaos_do :: "chaos_op \<Rightarrow> ChaosNetwork \<Rightarrow> ChaosNetwork" where
  "chaos_do (Isolate n) cn = IsolateNode n cn"
| "chaos_do (Heal n) cn = HealNode n cn"
| "chaos_do HealAll cn = HealPartition cn"

fun chaos_abs :: "chaos_op \<Rightarrow> string set \<Rightarrow> string set" where
  "chaos_abs (Isolate n) A = insert n A"
| "chaos_abs (Heal n) A = A - {n}"
| "chaos_abs HealAll A = {}"

lemma chaos_step:
  "chaos_config (chaos_do x cn) = chaos_config cn"
  "{n. IsPartitioned n (chaos_do x cn)} = chaos_abs x {n. IsPartitioned n cn}"
  by (cases x; auto simp: IsolateNode_def HealNode_def HealPartition_def IsPartitioned_def update_conv' delete_conv')+

text \<open>
  Fault injection is a set of isolated nodes: after any sequence of isolating and healing, a
  connection is dropped when one of its ends is in the set that the sequence describes, whatever
  the draw; a connection between other nodes is dropped exactly when the draw is below a positive
  rate, so never at rate zero and always at rate one.
\<close>

theorem chaos_refines:
  assumes "0 \<le> draw" and "draw < 1"
  shows "let cn = fold chaos_do xs (NewChaosNetwork cfg); A = fold chaos_abs xs {} in
    {n. IsPartitioned n cn} = A \<and>
    (ShouldDropConnection draw a b cn \<longleftrightarrow> a \<in> A \<or> b \<in> A \<or> draw < PacketDropRate cfg) \<and>
    (1 \<le> PacketDropRate cfg \<longrightarrow> ShouldDropConnection draw a b cn) \<and>
    (PacketDropRate cfg \<le> 0 \<and> a \<notin> A \<and> b \<notin> A \<longrightarrow> \<not> ShouldDropConnection draw a b cn)"
proof -
  have run: "chaos_config (fold chaos_do xs cn) = chaos_config cn \<and>
      {n. IsPartitioned n (fold chaos_do xs cn)} = fold chaos_abs xs {n. IsPartitioned n cn}" for cn
    by (induction xs arbitrary: cn) (simp_all add: chaos_step)
  have "{n. IsPartitioned n (NewChaosNetwork cfg)} = {}" by (simp add: IsPartitioned_def NewChaosNetwork_def)
  then have A: "{n. IsPartitioned n (fold chaos_do xs (NewChaosNetwork cfg))} = fold chaos_abs xs {}"
    and c: "chaos_config (fold chaos_do xs (NewChaosNetwork cfg)) = cfg"
    using run [of "NewChaosNetwork cfg"] by (simp_all add: NewChaosNetwork_def)
  then have mem: "IsPartitioned n (fold chaos_do xs (NewChaosNetwork cfg)) \<longleftrightarrow> n \<in> fold chaos_abs xs {}" for n
    by blast
  show ?thesis unfolding Let_def using assms A
    by (auto simp: ShouldDropConnection_def mem c)
qed

theorem chaos_refines_witness:
  "ShouldDropConnection (1/2) ''a'' ''b'' (fold chaos_do [Isolate ''b'', Heal ''a''] (NewChaosNetwork \<lparr>LatencyMillis = 0, PacketDropRate = 0\<rparr>))"
  using chaos_refines [of "1/2" "[Isolate ''b'', Heal ''a'']" "\<lparr>LatencyMillis = 0, PacketDropRate = 0\<rparr>" "''a''" "''b''"]
  by (simp add: Let_def)

end
