(* ===== verification/Float64.thy ===== *)
theory Float64
  imports Prelude Complex_Main "HOL-Library.Log_Nat"
begin

text \<open>
  Go's \<^verbatim>\<open>float64\<close> as far as the program computes with it: a finite number is a rational, an operation
  is the exact result rounded to 53 significant bits, to the nearest and to an even last digit in
  case of a tie. Numbers that overflow or lose precision near zero do not occur: the operands are
  64-bit integers and their quotients.
\<close>

definition round_even :: "rat \<Rightarrow> int" where
  "round_even x =
     (let f = \<lfloor>x\<rfloor>; d = x - of_int f in
      if d < 1 / 2 \<or> d = 1 / 2 \<and> even f then f else f + 1)"

text \<open>The exponent of the leading binary digit of a positive number.\<close>

definition ilog2 :: "rat \<Rightarrow> int" where
  "ilog2 x = (if 1 \<le> x then int (floorlog 2 (nat \<lfloor>x\<rfloor>)) - 1 else - int (floorlog 2 (nat (\<lceil>1 / x\<rceil> - 1))))"

definition pow2 :: "int \<Rightarrow> rat" where
  "pow2 e = (if 0 \<le> e then 2 ^ nat e else 1 / 2 ^ nat (- e))"

definition fl64 :: "rat \<Rightarrow> rat" where
  "fl64 x =
     (if x = 0 then 0
      else let u = pow2 (ilog2 \<bar>x\<bar> - 52) in of_int (round_even (x / u)) * u)"

text \<open>\<^verbatim>\<open>int64(f)\<close> truncates; what a number out of range becomes depends on the machine (\<open>far\<close>).\<close>

definition trunc_int64 :: "(rat \<Rightarrow> int64) \<Rightarrow> rat \<Rightarrow> int64" where
  "trunc_int64 far f =
     (let i = (if f \<ge> 0 then \<lfloor>f\<rfloor> else \<lceil>f\<rceil>)
      in if - (2 ^ 63) \<le> i \<and> i < 2 ^ 63 then word_of_int i else far f)"

section \<open>Lemmas\<close>

lemma pow2_pos [simp]: "0 < pow2 e"
  by (simp add: pow2_def)

lemma round_even_of_int [simp]: "round_even (of_int i) = i"
  by (simp add: round_even_def)

lemma round_even_nonneg: "0 \<le> x \<Longrightarrow> 0 \<le> round_even x"
  by (simp add: round_even_def Let_def)

lemma fl64_nonneg: "0 \<le> x \<Longrightarrow> 0 \<le> fl64 x"
  by (simp add: fl64_def Let_def round_even_nonneg order_less_imp_le [OF pow2_pos])

lemma round_even_error: "\<bar>of_int (round_even x) - x\<bar> \<le> 1 / 2"
proof -
  have "of_int \<lfloor>x\<rfloor> \<le> x" "x < of_int \<lfloor>x\<rfloor> + 1" by linarith+
  then show ?thesis unfolding round_even_def Let_def by (auto simp: abs_le_iff)
qed

lemma pow2_powi: "pow2 e = 2 powi e"
  unfolding pow2_def power_int_def divide_inverse power_inverse by simp

lemma pow2_52: "pow2 (e - 52) = pow2 e / 2 ^ 52"
  by (simp add: pow2_powi power_int_diff)

text \<open>The leading digit is at most the number, so that rounding keeps 53 bits.\<close>

lemma pow2_ilog2: "0 < x \<Longrightarrow> pow2 (ilog2 x) \<le> x"
proof (cases "1 \<le> x")
  case True
  then have n: "0 < nat \<lfloor>x\<rfloor>" by simp
  then have "2 ^ (floorlog 2 (nat \<lfloor>x\<rfloor>) - 1) \<le> nat \<lfloor>x\<rfloor>" using floorlog_bounds [of "nat \<lfloor>x\<rfloor>" 2] by simp
  then have "(2 :: int) ^ (floorlog 2 (nat \<lfloor>x\<rfloor>) - 1) \<le> \<lfloor>x\<rfloor>"
    using True by (metis (mono_tags) n nat_eq_iff of_nat_le_iff of_nat_numeral of_nat_power order_less_le)
  then have "(2 :: rat) ^ (floorlog 2 (nat \<lfloor>x\<rfloor>) - 1) \<le> x" by (simp add: le_floor_iff)
  moreover have "0 < floorlog 2 (nat \<lfloor>x\<rfloor>)" using n by (simp add: floorlog_def)
  ultimately show ?thesis using True by (simp add: ilog2_def pow2_def nat_diff_distrib)
next
  case False
  assume "0 < x"
  then have y: "1 < 1 / x" using False by simp
  let ?m = "nat (\<lceil>1 / x\<rceil> - 1)" let ?k = "floorlog 2 ?m"
  have "1 < \<lceil>1 / x\<rceil>" using y by (simp add: less_ceiling_iff)
  then have m: "0 < ?m" by simp
  then have "?m < 2 ^ ?k" using floorlog_bounds [of ?m 2] by simp
  then have "\<lceil>1 / x\<rceil> - 1 < 2 ^ ?k" by (simp add: nat_less_iff)
  then have "\<lceil>1 / x\<rceil> \<le> 2 ^ ?k" by linarith
  then have "1 / x \<le> of_int (2 ^ ?k)" unfolding ceiling_le_iff .
  then have "1 / 2 ^ ?k \<le> x" using \<open>0 < x\<close> by (simp add: field_simps)
  moreover have "0 < ?k" using m by (simp add: floorlog_def)
  ultimately show ?thesis using False by (simp add: ilog2_def pow2_def)
qed

lemma fl64_error: "\<bar>fl64 x - x\<bar> \<le> \<bar>x\<bar> / 2 ^ 53"
proof (cases "x = 0")
  case False
  define u where "u = pow2 (ilog2 \<bar>x\<bar> - 52)"
  have u: "0 < u" "u \<le> \<bar>x\<bar> / 2 ^ 52"
    using pow2_ilog2 [of "\<bar>x\<bar>"] False by (simp_all add: u_def pow2_52 divide_right_mono)
  have "fl64 x - x = (of_int (round_even (x / u)) - x / u) * u"
    using u(1) False by (simp add: fl64_def u_def [symmetric] Let_def algebra_simps)
  then have "\<bar>fl64 x - x\<bar> = \<bar>of_int (round_even (x / u)) - x / u\<bar> * u" using u(1) by (simp add: abs_mult)
  also have "\<dots> \<le> 1 / 2 * u" using round_even_error u(1) by (intro mult_right_mono) auto
  finally show ?thesis using u(2) by simp
qed (simp add: fl64_def)

text \<open>Rounding a number that is not negative, as bounds.\<close>

lemma fl64_bounds:
  assumes "0 \<le> x"
  shows "x * (1 - 1 / 2 ^ 53) \<le> fl64 x" and "fl64 x \<le> x * (1 + 1 / 2 ^ 53)"
  using fl64_error [of x] assms unfolding abs_le_iff by (simp_all add: algebra_simps)

lemma sint_trunc_int64:
  assumes "0 \<le> f" and "f < 2 ^ 63"
  shows "sint (trunc_int64 far f) = \<lfloor>f\<rfloor>"
proof -
  have "0 \<le> \<lfloor>f\<rfloor>" "\<lfloor>f\<rfloor> < 2 ^ 63" using assms by (simp_all add: floor_less_iff)
  then show ?thesis using assms(1) by (simp add: trunc_int64_def Let_def sint_of_int64)
qed

end
