(* ===== verification/Metrics.thy ===== *)
theory Metrics
  imports Float64
begin

text \<open>
  The metrics of the node (\<^verbatim>\<open>internal/metrics/metrics.go\<close>), which the API serves at
  \<^verbatim>\<open>/metrics\<close>. They are variables of the process; a gauge holds the \<^verbatim>\<open>float64\<close> it was last set to, a counter is
  only incremented, and of the histogram the observations are kept, in their order.
\<close>

record Prometheus =
  BlockchainHeight :: rat
  MempoolSize :: rat
  ConnectedPeers :: rat
  MiningDuration :: "rat list"
  BlocksMined :: nat
  TransactionsReceived :: nat

definition no_metrics :: Prometheus where
  "no_metrics = \<lparr>BlockchainHeight = 0, MempoolSize = 0, ConnectedPeers = 0, MiningDuration = [],
     BlocksMined = 0, TransactionsReceived = 0\<rparr>"

text \<open>The conversion \<^verbatim>\<open>float64(i)\<close> of an integer.\<close>

definition float64 :: "int \<Rightarrow> rat" where
  "float64 i = fl64 (of_int i)"

lemma float64_0 [simp]: "float64 0 = 0"
  by (simp add: float64_def fl64_def)

text \<open>Integers of up to 53 bits are shown as they are.\<close>

lemma float64_exact:
  assumes "\<bar>i\<bar> < 2 ^ 53"
  shows "float64 i = of_int i"
proof (cases "i = 0")
  case False
  let ?x = "of_int i :: rat"
  have "pow2 (ilog2 \<bar>?x\<bar>) \<le> \<bar>?x\<bar>" using False by (intro pow2_ilog2) simp
  also have "\<bar>?x\<bar> < 2 ^ 53" using assms by (metis of_int_abs of_int_less_iff of_int_numeral of_int_power)
  also have "(2 :: rat) ^ 53 = pow2 53" by (simp add: pow2_def)
  finally have "(2 :: rat) powi ilog2 \<bar>?x\<bar> < 2 powi 53" by (simp add: pow2_powi)
  then have e: "ilog2 \<bar>?x\<bar> \<le> 52"
    using power_int_increasing [of 53 "ilog2 \<bar>?x\<bar>" "2 :: rat"] by (cases "ilog2 \<bar>?x\<bar> \<le> 52") auto
  define k where "k = nat (52 - ilog2 \<bar>?x\<bar>)"
  have u: "pow2 (ilog2 \<bar>?x\<bar> - 52) = 1 / 2 ^ k" using e by (auto simp: pow2_def k_def)
  have "?x / (1 / 2 ^ k) = of_int (i * 2 ^ k)" by simp
  then have "round_even (?x / (1 / 2 ^ k)) = i * 2 ^ k" by (simp only: round_even_of_int)
  then show ?thesis using False by (simp add: float64_def fl64_def u)
qed simp

end
