(* ===== verification/Server.thy ===== *)
theory Server
  imports TxBuild Metrics
begin

text \<open>
  The peer-to-peer node of \<^verbatim>\<open>internal/network/server.go\<close>: its messages, what it sends, and one
  function per message handler. A handler runs to its end on the state of the server; the points
  where another goroutine may act in between are arguments (\<open>SubmitTransaction\<close>).

  What the handlers take from their surroundings is a record \<open>Env\<close>: the routines of the core, the
  gob codecs of the messages, the storage methods, the registry of authority keys, which
  dials succeed (a function of the log of earlier dials), the orders in which maps are ranged
  over, and for each round of mining its randomness, clock, context and duration in seconds. Every dial is logged in
  the state, with the bytes that were sent over it. The metrics of the process are part of the state
  (\<open>prom\<close>); logging is left out.
\<close>

section \<open>Messages\<close>

record addr_msg =
  AddrList :: "string list"

record block_msg =
  block_AddrFrom :: string
  block_Block :: bytes

record getblocks_msg =
  getblocks_AddrFrom :: string

record getdata_msg =
  getdata_AddrFrom :: string
  getdata_Type :: string
  getdata_ID :: bytes

record inv_msg =
  inv_AddrFrom :: string
  inv_Type :: string
  inv_Items :: "bytes list"

record tx_msg =
  tx_AddFrom :: string
  tx_Transaction :: bytes

record verzion_msg =
  Version :: int64
  BestHeight :: int64
  verzion_AddrFrom :: string

text \<open>Gob on the messages: an encoder fails with \<open>None\<close>, and so does a decoder.\<close>

record NPrims =
  gob_blockm :: "block_msg \<Rightarrow> bytes option"
  gob_getblocks :: "getblocks_msg \<Rightarrow> bytes option"
  gob_getdata :: "getdata_msg \<Rightarrow> bytes option"
  gob_inv :: "inv_msg \<Rightarrow> bytes option"
  gob_txm :: "tx_msg \<Rightarrow> bytes option"
  gob_verzion :: "verzion_msg \<Rightarrow> bytes option"
  ungob_addr :: "bytes \<Rightarrow> addr_msg option"
  ungob_blockm :: "bytes \<Rightarrow> block_msg option"
  ungob_getblocks :: "bytes \<Rightarrow> getblocks_msg option"
  ungob_getdata :: "bytes \<Rightarrow> getdata_msg option"
  ungob_inv :: "bytes \<Rightarrow> inv_msg option"
  ungob_txm :: "bytes \<Rightarrow> tx_msg option"
  ungob_verzion :: "bytes \<Rightarrow> verzion_msg option"

definition nodeVersion :: int64 where "nodeVersion = 1"
definition commandLength :: nat where "commandLength = 12"

text \<open>A failed encoding is logged and sent as an empty payload.\<close>

definition gobEncode :: "bytes option \<Rightarrow> bytes" where
  "gobEncode d = (case d of None \<Rightarrow> [] | Some bs \<Rightarrow> bs)"

text \<open>The commands are ASCII constants: one byte for each character.\<close>

definition commandToBytes :: "string \<Rightarrow> bytes result" where
  "commandToBytes command =
     (if length command \<le> commandLength
      then Ok (string_bytes command @ replicate (commandLength - length command) 0)
      else Panic ''index out of range'')"

definition bytesToCommand :: "bytes \<Rightarrow> string" where
  "bytesToCommand b = bytes_string (filter (\<lambda>bt. bt \<noteq> 0) b)"

section \<open>The server\<close>

text \<open>A subscription: the identity of the channel and what its buffer of ten holds.\<close>

record channel =
  ch_id :: nat
  ch_buf :: "Block list"

record 's Server =
  nodeAddress :: string
  miningAddress :: string
  knownNodes :: "string list"
  blocksInTransit :: "bytes list"
  mempool :: "(string \<times> Transaction) list"
  srv_bc :: "'s Blockchain"
  miningCancel :: bool
  blockSubscribers :: "channel list"
  next_ch :: nat
  net :: "(string \<times> bytes \<times> bool) list"
  prom :: Prometheus

record 's Env =
  prims :: Prims
  nprims :: NPrims
  store :: "'s Storage"
  authority_keys :: authorizedKeys
  dial :: "(string \<times> bytes \<times> bool) list \<Rightarrow> string \<Rightarrow> bool"
  pool_order :: "(string \<times> Transaction) list \<Rightarrow> (string \<times> Transaction) list"
  utxo_order :: "utxo_map \<Rightarrow> utxo_map"
  coinbase_rand :: "nat \<Rightarrow> string result"
  clock :: "nat \<Rightarrow> int64"
  mining_ctx :: "nat \<Rightarrow> ctx"
  mining_secs :: "nat \<Rightarrow> rat"

definition NewServer :: "string \<Rightarrow> string \<Rightarrow> 's Blockchain \<Rightarrow> 's Server" where
  "NewServer nodeID minerAddress bc =
     \<lparr>nodeAddress = ''localhost:'' @ nodeID, miningAddress = minerAddress, knownNodes = [''localhost:3000''],
      blocksInTransit = [], mempool = [], srv_bc = bc, miningCancel = False, blockSubscribers = [],
      next_ch = 0, net = [], prom = no_metrics\<rparr>"

text \<open>Sequencing of steps that may panic, and calls whose error is only logged.\<close>

fun and_then :: "unit result \<times> 'a \<Rightarrow> ('a \<Rightarrow> unit result \<times> 'a) \<Rightarrow> unit result \<times> 'a" where
  "and_then (Ok u, s) f = f s"
| "and_then (r, s) f = (r, s)"

definition logged :: "'b result \<Rightarrow> 'a \<Rightarrow> ('b \<Rightarrow> unit result \<times> 'a) \<Rightarrow> unit result \<times> 'a" where
  "logged r s f = (case r of Ok x \<Rightarrow> f x | Error e \<Rightarrow> (Ok (), s) | _ \<Rightarrow> (as_failure r, s))"

text \<open>Setting the gauges.\<close>

definition show_peers :: "'s Server \<Rightarrow> 's Server" where
  "show_peers s = s\<lparr>prom := (prom s)\<lparr>ConnectedPeers := float64 (int (length (knownNodes s)))\<rparr>\<rparr>"

definition show_pool :: "'s Server \<Rightarrow> 's Server" where
  "show_pool s = s\<lparr>prom := (prom s)\<lparr>MempoolSize := float64 (int (length (mempool s)))\<rparr>\<rparr>"

definition show_height :: "int64 \<Rightarrow> 's Server \<Rightarrow> 's Server" where
  "show_height h s = s\<lparr>prom := (prom s)\<lparr>BlockchainHeight := float64 (sint h)\<rparr>\<rparr>"

section \<open>Sending\<close>

definition sendData :: "'s Env \<Rightarrow> string \<Rightarrow> bytes \<Rightarrow> 's Server \<Rightarrow> 's Server" where
  "sendData E addr data s =
     (let ok = dial E (net s) addr;
          s = s\<lparr>net := net s @ [(addr, data, ok)]\<rparr>
      in if ok then s else show_peers (s\<lparr>knownNodes := filter (\<lambda>node. node \<noteq> addr) (knownNodes s)\<rparr>))"

definition send_cmd :: "'s Env \<Rightarrow> string \<Rightarrow> string \<Rightarrow> bytes \<Rightarrow> 's Server \<Rightarrow> unit result \<times> 's Server" where
  "send_cmd E addr command payload s =
     (case commandToBytes command of
        Ok c \<Rightarrow> (Ok (), sendData E addr (c @ payload) s)
      | r \<Rightarrow> (as_failure r, s))"

definition sendBlock :: "'s Env \<Rightarrow> string \<Rightarrow> Block \<Rightarrow> 's Server \<Rightarrow> unit result \<times> 's Server" where
  "sendBlock E addr b s =
     send_cmd E addr ''block''
       (gobEncode (gob_blockm (nprims E) \<lparr>block_AddrFrom = nodeAddress s, block_Block = Serialize (prims E) b\<rparr>)) s"

definition sendInv :: "'s Env \<Rightarrow> string \<Rightarrow> string \<Rightarrow> bytes list \<Rightarrow> 's Server \<Rightarrow> unit result \<times> 's Server" where
  "sendInv E address kind items s =
     send_cmd E address ''inv''
       (gobEncode (gob_inv (nprims E) \<lparr>inv_AddrFrom = nodeAddress s, inv_Type = kind, inv_Items = items\<rparr>)) s"

definition sendGetBlocks :: "'s Env \<Rightarrow> string \<Rightarrow> 's Server \<Rightarrow> unit result \<times> 's Server" where
  "sendGetBlocks E address s =
     send_cmd E address ''getblocks'' (gobEncode (gob_getblocks (nprims E) \<lparr>getblocks_AddrFrom = nodeAddress s\<rparr>)) s"

definition sendGetData :: "'s Env \<Rightarrow> string \<Rightarrow> string \<Rightarrow> bytes \<Rightarrow> 's Server \<Rightarrow> unit result \<times> 's Server" where
  "sendGetData E address kind i s =
     send_cmd E address ''getdata''
       (gobEncode (gob_getdata (nprims E) \<lparr>getdata_AddrFrom = nodeAddress s, getdata_Type = kind, getdata_ID = i\<rparr>)) s"

definition sendTx :: "'s Env \<Rightarrow> string \<Rightarrow> Transaction \<Rightarrow> 's Server \<Rightarrow> unit result \<times> 's Server" where
  "sendTx E addr tnx s =
     send_cmd E addr ''tx''
       (gobEncode (gob_txm (nprims E) \<lparr>tx_AddFrom = nodeAddress s, tx_Transaction = Serialize_tx (prims E) tnx\<rparr>)) s"

definition sendVersion :: "'s Env \<Rightarrow> string \<Rightarrow> 's Server \<Rightarrow> unit result \<times> 's Server" where
  "sendVersion E addr s =
     logged (GetBestHeight (prims E) (store E) (srv_bc s)) s (\<lambda>bestHeight.
       send_cmd E addr ''version''
         (gobEncode (gob_verzion (nprims E)
           \<lparr>Version = nodeVersion, BestHeight = bestHeight, verzion_AddrFrom = nodeAddress s\<rparr>)) s)"

definition requestBlocks :: "'s Env \<Rightarrow> 's Server \<Rightarrow> unit result \<times> 's Server" where
  "requestBlocks E s = for_each (sendGetBlocks E) (knownNodes s) s"

definition nodeIsKnown :: "'s Server \<Rightarrow> string \<Rightarrow> bool" where
  "nodeIsKnown s addr = (\<exists>node \<in> set (knownNodes s). node = addr)"

section \<open>Subscriptions\<close>

definition SubscribeBlocks :: "'s Server \<Rightarrow> nat \<times> 's Server" where
  "SubscribeBlocks s =
     (next_ch s, s\<lparr>blockSubscribers := blockSubscribers s @ [\<lparr>ch_id = next_ch s, ch_buf = []\<rparr>],
                    next_ch := next_ch s + 1\<rparr>)"

fun remove_sub :: "nat \<Rightarrow> channel list \<Rightarrow> channel list" where
  "remove_sub ch [] = []"
| "remove_sub ch (sub # subs) = (if ch_id sub = ch then subs else sub # remove_sub ch subs)"

definition UnsubscribeBlocks :: "nat \<Rightarrow> 's Server \<Rightarrow> 's Server" where
  "UnsubscribeBlocks ch s = s\<lparr>blockSubscribers := remove_sub ch (blockSubscribers s)\<rparr>"

text \<open>A full buffer drops the block.\<close>

definition offer :: "Block \<Rightarrow> channel \<Rightarrow> channel" where
  "offer b sub = (if length (ch_buf sub) < 10 then sub\<lparr>ch_buf := ch_buf sub @ [b]\<rparr> else sub)"

definition notifyBlock :: "Block \<Rightarrow> 's Server \<Rightarrow> 's Server" where
  "notifyBlock b s = s\<lparr>blockSubscribers := map (offer b) (blockSubscribers s)\<rparr>"

section \<open>Handlers\<close>

text \<open>\<^verbatim>\<open>request[commandLength:]\<close> and the gob decoder.\<close>

definition decode :: "(bytes \<Rightarrow> 'm option) \<Rightarrow> bytes \<Rightarrow> 'm result" where
  "decode dec request =
     (if length request < commandLength then Panic ''slice bounds out of range''
      else case dec (drop commandLength request) of
        Some m \<Rightarrow> Ok m
      | None \<Rightarrow> Error (ErrMsg ''gob: decode failed''))"

fun add_nodes :: "string list \<Rightarrow> 's Server \<Rightarrow> 's Server" where
  "add_nodes [] s = s"
| "add_nodes (newAddr # as) s =
     add_nodes as (if \<not> nodeIsKnown s newAddr then s\<lparr>knownNodes := knownNodes s @ [newAddr]\<rparr> else s)"

definition handleAddr :: "'s Env \<Rightarrow> bytes \<Rightarrow> 's Server \<Rightarrow> unit result \<times> 's Server" where
  "handleAddr E request s =
     logged (decode (ungob_addr (nprims E)) request) s (\<lambda>payload.
       requestBlocks E (show_peers (add_nodes (AddrList payload) s)))"

text \<open>A rebuild of the unspent outputs whose error is only logged.\<close>

definition reindex_logged :: "'s Env \<Rightarrow> 's Server \<Rightarrow> unit result \<times> 's Server" where
  "reindex_logged E s =
     (case Reindex (prims E) (store E) (utxo_order E) (srv_bc s) of
        (r, bc) \<Rightarrow> logged r (s\<lparr>srv_bc := bc\<rparr>) (\<lambda>_. (Ok (), s\<lparr>srv_bc := bc\<rparr>)))"

definition drop_txs :: "Transaction list \<Rightarrow> 's Server \<Rightarrow> 's Server" where
  "drop_txs txs s = show_pool (s\<lparr>mempool := fold (\<lambda>t. AList.delete (hex_encode (ID t))) txs (mempool s)\<rparr>)"

definition handleBlock :: "'s Env \<Rightarrow> bytes \<Rightarrow> 's Server \<Rightarrow> unit result \<times> 's Server" where
  "handleBlock E request s =
     logged (decode (ungob_blockm (nprims E)) request) s (\<lambda>payload.
     logged (DeserializeBlock (prims E) (block_Block payload)) s (\<lambda>b.
     case AddBlock (prims E) (store E) (authority_keys E) b (srv_bc s) of
       (r, bc) \<Rightarrow>
         logged r (s\<lparr>srv_bc := bc\<rparr>) (\<lambda>_.
           let s = drop_txs (Transactions b) ((show_height (Height b) (notifyBlock b (s\<lparr>srv_bc := bc\<rparr>)))\<lparr>miningCancel := False\<rparr>) in
           case blocksInTransit s of
             blockHash # rest \<Rightarrow>
               sendGetData E (block_AddrFrom payload) ''block'' blockHash (s\<lparr>blocksInTransit := rest\<rparr>)
           | [] \<Rightarrow> reindex_logged E s)))"

definition handleInv :: "'s Env \<Rightarrow> bytes \<Rightarrow> 's Server \<Rightarrow> unit result \<times> 's Server" where
  "handleInv E request s =
     logged (decode (ungob_inv (nprims E)) request) s (\<lambda>payload.
     and_then
       (if inv_Type payload = ''block'' \<and> length (inv_Items payload) > 0 then
          let blockHash = inv_Items payload ! 0;
              newInTransit = filter (\<lambda>b. b \<noteq> blockHash) (inv_Items payload)
          in sendGetData E (inv_AddrFrom payload) ''block'' blockHash (s\<lparr>blocksInTransit := newInTransit\<rparr>)
        else (Ok (), s)) (\<lambda>s.
       if inv_Type payload = ''tx'' \<and> length (inv_Items payload) > 0 then
         let txID = inv_Items payload ! 0 in
         if map_of (mempool s) (hex_encode txID) = None
         then sendGetData E (inv_AddrFrom payload) ''tx'' txID s
         else (Ok (), s)
       else (Ok (), s)))"

definition handleGetBlocks :: "'s Env \<Rightarrow> bytes \<Rightarrow> 's Server \<Rightarrow> unit result \<times> 's Server" where
  "handleGetBlocks E request s =
     logged (decode (ungob_getblocks (nprims E)) request) s (\<lambda>payload.
     case GetBlockHashes (prims E) (store E) (srv_bc s) of
       Ok blocks \<Rightarrow> sendInv E (getblocks_AddrFrom payload) ''block'' blocks s
     | r \<Rightarrow> (as_failure r, s))"

definition handleGetData :: "'s Env \<Rightarrow> bytes \<Rightarrow> 's Server \<Rightarrow> unit result \<times> 's Server" where
  "handleGetData E request s =
     logged (decode (ungob_getdata (nprims E)) request) s (\<lambda>payload.
     if getdata_Type payload = ''block'' then
       logged (BC_GetBlock (prims E) (store E) (db (srv_bc s)) (getdata_ID payload)) s (\<lambda>block.
         sendBlock E (getdata_AddrFrom payload) block s)
     else if getdata_Type payload = ''tx'' then
       (case map_of (mempool s) (hex_encode (getdata_ID payload)) of
          Some tx \<Rightarrow> sendTx E (getdata_AddrFrom payload) tx s
        | None \<Rightarrow> (Ok (), s))
     else (Ok (), s))"

text \<open>
  The transactions of the pool that verify. A transaction whose verification fails with an error
  is skipped like an invalid one; a verification that panics takes the node down.
\<close>

fun collect_valid :: "'s Env \<Rightarrow> 's Blockchain \<Rightarrow> (string \<times> Transaction) list \<Rightarrow> Transaction list result" where
  "collect_valid E bc [] = Ok []"
| "collect_valid E bc ((i, txn) # rest) =
     (case VerifyTransaction (prims E) (store E) bc txn of
        Ok valid \<Rightarrow> bind_result (collect_valid E bc rest) (\<lambda>txs. Ok (if valid then txn # txs else txs))
      | Error e \<Rightarrow> collect_valid E bc rest
      | r \<Rightarrow> as_failure r)"

text \<open>Announcing to every known node but this one and those of \<open>skip\<close>.\<close>

definition announce :: "'s Env \<Rightarrow> string set \<Rightarrow> string \<Rightarrow> bytes \<Rightarrow> 's Server \<Rightarrow> unit result \<times> 's Server" where
  "announce E skip kind i s =
     for_each (\<lambda>node s. if node \<noteq> nodeAddress s \<and> node \<notin> skip then sendInv E node kind [i] s else (Ok (), s))
       (knownNodes s) s"

text \<open>The metrics of a mined block.\<close>

definition count_mined :: "rat \<Rightarrow> Block \<Rightarrow> 's Server \<Rightarrow> 's Server" where
  "count_mined secs b s = show_height (Height b)
     (s\<lparr>prom := (prom s)\<lparr>MiningDuration := MiningDuration (prom s) @ [secs], BlocksMined := BlocksMined (prom s) + 1\<rparr>\<rparr>)"

text \<open>
  One round of the mining loop: \<open>Inl\<close> is \<^verbatim>\<open>break\<close> (or a panic), \<open>Inr\<close> goes round again.
\<close>

definition mine_round :: "'s Env \<Rightarrow> nat \<Rightarrow> 's Server \<Rightarrow> (unit result \<times> 's Server) + 's Server" where
  "mine_round E n s =
     (if length (mempool s) < 2 \<or> length (miningAddress s) = 0 \<or> length (knownNodes s) = 0 then Inl (Ok (), s)
      else case collect_valid E (srv_bc s) (pool_order E (mempool s)) of
        Ok txs \<Rightarrow>
          if length txs = 0 then Inl (Ok (), s)
          else
            (case NewCoinbaseTX (prims E) (coinbase_rand E n) (miningAddress s) [] of
               Ok cbTx \<Rightarrow>
                 (let txs = txs @ [cbTx];
                      (r, bc) = MineBlock (prims E) (store E) (mining_ctx E n) (clock E n) txs (srv_bc s);
                      s = s\<lparr>srv_bc := bc, miningCancel := False\<rparr>
                  in case r of
                       Ok newBlock \<Rightarrow>
                         (case and_then (reindex_logged E (count_mined (mining_secs E n) newBlock s)) (\<lambda>s.
                                announce E {} ''block'' (Hash newBlock) (drop_txs txs (notifyBlock newBlock s))) of
                            (Ok _, s) \<Rightarrow> Inr s
                          | (r, s) \<Rightarrow> Inl (r, s))
                     | Error e \<Rightarrow> Inl (Ok (), s)
                     | _ \<Rightarrow> Inl (as_failure r, s))
             | Error e \<Rightarrow> Inl (Ok (), s)
             | r \<Rightarrow> Inl (as_failure r, s))
      | r \<Rightarrow> Inl (as_failure r, s))"

partial_function (option) mine_loop :: "'s Env \<Rightarrow> nat \<Rightarrow> 's Server \<Rightarrow> (unit result \<times> 's Server) option" where
  "mine_loop E n s =
     (case mine_round E n s of Inl out \<Rightarrow> Some out | Inr s' \<Rightarrow> mine_loop E (Suc n) s')"

definition pool_tx :: "Transaction \<Rightarrow> 's Server \<Rightarrow> 's Server" where
  "pool_tx tx s =
     (let s = show_pool (s\<lparr>mempool := AList.update (hex_encode (ID tx)) tx (mempool s)\<rparr>)
      in s\<lparr>prom := (prom s)\<lparr>TransactionsReceived := TransactionsReceived (prom s) + 1\<rparr>\<rparr>)"

definition is_first_node :: "'s Server \<Rightarrow> bool" where
  "is_first_node s = (length (knownNodes s) > 0 \<and> nodeAddress s = knownNodes s ! 0)"

definition handleTx :: "'s Env \<Rightarrow> bytes \<Rightarrow> 's Server \<Rightarrow> unit result \<times> 's Server" where
  "handleTx E request s =
     logged (decode (ungob_txm (nprims E)) request) s (\<lambda>payload.
     logged (DeserializeTransaction (prims E) (tx_Transaction payload)) s (\<lambda>newTx.
       let s = pool_tx newTx s in
       if is_first_node s then announce E {tx_AddFrom payload} ''tx'' (ID newTx) s
       else case mine_loop E 0 s of Some out \<Rightarrow> out | None \<Rightarrow> (Diverge, s)))"

definition handleVersion :: "'s Env \<Rightarrow> bytes \<Rightarrow> 's Server \<Rightarrow> unit result \<times> 's Server" where
  "handleVersion E request s =
     logged (decode (ungob_verzion (nprims E)) request) s (\<lambda>payload.
     logged (GetBestHeight (prims E) (store E) (srv_bc s)) s (\<lambda>myBestHeight.
       and_then
         (if sint myBestHeight < sint (BestHeight payload) then sendGetBlocks E (verzion_AddrFrom payload) s
          else if sint myBestHeight > sint (BestHeight payload) then sendVersion E (verzion_AddrFrom payload) s
          else (Ok (), s)) (\<lambda>s.
         (Ok (), show_peers
            (if \<not> nodeIsKnown s (verzion_AddrFrom payload)
             then s\<lparr>knownNodes := knownNodes s @ [verzion_AddrFrom payload]\<rparr> else s)))))"

definition maxMsgSize :: nat where "maxMsgSize = 32 * 2 ^ 20"

text \<open>\<open>conn\<close> is what reading the connection to its end gives.\<close>

definition handleConnection :: "'s Env \<Rightarrow> bytes result \<Rightarrow> 's Server \<Rightarrow> unit result \<times> 's Server" where
  "handleConnection E conn s =
     logged conn s (\<lambda>data.
       let request = take maxMsgSize data in
       if length request < commandLength then (Ok (), s)
       else
         let command = bytesToCommand (take commandLength request) in
         if command = ''addr'' then handleAddr E request s
         else if command = ''block'' then handleBlock E request s
         else if command = ''inv'' then handleInv E request s
         else if command = ''getblocks'' then handleGetBlocks E request s
         else if command = ''getdata'' then handleGetData E request s
         else if command = ''tx'' then handleTx E request s
         else if command = ''version'' then handleVersion E request s
         else (Ok (), s))"

text \<open>What \<^verbatim>\<open>Start\<close> does before it accepts connections.\<close>

definition Start_hello :: "'s Env \<Rightarrow> 's Server \<Rightarrow> unit result \<times> 's Server" where
  "Start_hello E s =
     (let firstNode = (if length (knownNodes s) > 0 \<and> nodeAddress s \<noteq> knownNodes s ! 0 then knownNodes s ! 0 else [])
      in and_then (if firstNode \<noteq> [] then sendVersion E firstNode s else (Ok (), s)) (\<lambda>s.
           case GetBestHeight (prims E) (store E) (srv_bc s) of
             Ok bestHeight \<Rightarrow> (Ok (), show_pool (show_peers (show_height bestHeight s)))
           | Error e \<Rightarrow> (Ok (), show_pool (show_peers s))
           | r \<Rightarrow> (as_failure r, s)))"

section \<open>Local calls\<close>

definition SendTxToKnownNodes :: "'s Env \<Rightarrow> Transaction \<Rightarrow> 's Server \<Rightarrow> unit result \<times> 's Server" where
  "SendTxToKnownNodes E tx s =
     (if length (knownNodes s) = 0 then (Ok (), s)
      else if nodeAddress s = knownNodes s ! 0 then announce E {} ''tx'' (ID tx) s
      else sendTx E (knownNodes s ! 0) tx s)"

definition MempoolSnapshot :: "'s Env \<Rightarrow> 's Server \<Rightarrow> Transaction list" where
  "MempoolSnapshot E s = map snd (pool_order E (mempool s))"

definition GetKnownNodes :: "'s Server \<Rightarrow> string list" where
  "GetKnownNodes s = knownNodes s"

text \<open>
  The lock is released while the transaction is verified: \<open>others\<close> is what the other goroutines
  make of the server in the meantime.
\<close>

definition SubmitTransaction ::
    "'s Env \<Rightarrow> ('s Server \<Rightarrow> 's Server) \<Rightarrow> Transaction \<Rightarrow> 's Server \<Rightarrow> unit result \<times> 's Server" where
  "SubmitTransaction E others tx s =
     (let txID = hex_encode (ID tx) in
      if map_of (mempool s) txID \<noteq> None
      then (Error (ErrMsg (''transaction '' @ txID @ '' already in mempool'')), s)
      else
        case wrap_err ''transaction verification failed'' (VerifyTransaction (prims E) (store E) (srv_bc s) tx) of
          Ok valid \<Rightarrow>
            if \<not> valid then (Error (ErrMsg ''transaction is invalid''), others s)
            else
              let s = others s in
              if map_of (mempool s) txID \<noteq> None
              then (Error (ErrMsg (''transaction '' @ txID @ '' already in mempool (added concurrently)'')), s)
              else SendTxToKnownNodes E tx (pool_tx tx s)
        | r \<Rightarrow> (as_failure r, others s))"

section \<open>What sending changes\<close>

lemma commandToBytes_Ok [simp]:
  "length c \<le> 12 \<Longrightarrow> commandToBytes c = Ok (string_bytes c @ replicate (12 - length c) 0)"
  by (simp add: commandToBytes_def commandLength_def)

lemma send_cmd_eq:
  "length c \<le> 12 \<Longrightarrow>
     send_cmd E a c p s = (Ok (), sendData E a (string_bytes c @ replicate (12 - length c) 0 @ p) s)"
  by (simp add: send_cmd_def)

lemmas send_defs = sendBlock_def sendInv_def sendGetBlocks_def sendGetData_def sendTx_def send_cmd_eq

text \<open>Setting a gauge changes nothing else.\<close>

lemma show_sel [simp]:
  "nodeAddress (show_peers s) = nodeAddress s" "miningAddress (show_peers s) = miningAddress s" "knownNodes (show_peers s) = knownNodes s"
  "blocksInTransit (show_peers s) = blocksInTransit s" "mempool (show_peers s) = mempool s" "srv_bc (show_peers s) = srv_bc s"
  "miningCancel (show_peers s) = miningCancel s" "blockSubscribers (show_peers s) = blockSubscribers s" "next_ch (show_peers s) = next_ch s"
  "net (show_peers s) = net s"
  "nodeAddress (show_pool s) = nodeAddress s" "miningAddress (show_pool s) = miningAddress s" "knownNodes (show_pool s) = knownNodes s"
  "blocksInTransit (show_pool s) = blocksInTransit s" "mempool (show_pool s) = mempool s" "srv_bc (show_pool s) = srv_bc s"
  "miningCancel (show_pool s) = miningCancel s" "blockSubscribers (show_pool s) = blockSubscribers s" "next_ch (show_pool s) = next_ch s"
  "net (show_pool s) = net s"
  "nodeAddress (show_height h s) = nodeAddress s" "miningAddress (show_height h s) = miningAddress s" "knownNodes (show_height h s) = knownNodes s"
  "blocksInTransit (show_height h s) = blocksInTransit s" "mempool (show_height h s) = mempool s" "srv_bc (show_height h s) = srv_bc s"
  "miningCancel (show_height h s) = miningCancel s" "blockSubscribers (show_height h s) = blockSubscribers s" "next_ch (show_height h s) = next_ch s"
  "net (show_height h s) = net s"
  by (simp_all add: show_peers_def show_pool_def show_height_def)

lemma count_mined_sel [simp]:
  "nodeAddress (count_mined t b s) = nodeAddress s" "miningAddress (count_mined t b s) = miningAddress s"
  "knownNodes (count_mined t b s) = knownNodes s" "blocksInTransit (count_mined t b s) = blocksInTransit s"
  "mempool (count_mined t b s) = mempool s" "srv_bc (count_mined t b s) = srv_bc s" "miningCancel (count_mined t b s) = miningCancel s"
  "blockSubscribers (count_mined t b s) = blockSubscribers s" "next_ch (count_mined t b s) = next_ch s" "net (count_mined t b s) = net s"
  by (simp_all add: count_mined_def)

lemma show_prom [simp]:
  "ConnectedPeers (prom (show_peers s)) = float64 (int (length (knownNodes s)))" "MempoolSize (prom (show_peers s)) = MempoolSize (prom s)"
  "ConnectedPeers (prom (show_pool s)) = ConnectedPeers (prom s)" "MempoolSize (prom (show_pool s)) = float64 (int (length (mempool s)))"
  "ConnectedPeers (prom (show_height h s)) = ConnectedPeers (prom s)" "MempoolSize (prom (show_height h s)) = MempoolSize (prom s)"
  "BlockchainHeight (prom (show_height h s)) = float64 (sint h)" "BlockchainHeight (prom (show_pool s)) = BlockchainHeight (prom s)"
  "BlockchainHeight (prom (show_peers s)) = BlockchainHeight (prom s)" "BlockchainHeight (prom (count_mined t b s)) = float64 (sint (Height b))"
  "BlocksMined (prom (show_pool s)) = BlocksMined (prom s)" "BlocksMined (prom (count_mined t b s)) = BlocksMined (prom s) + 1"
  "ConnectedPeers (prom (count_mined t b s)) = ConnectedPeers (prom s)" "MempoolSize (prom (count_mined t b s)) = MempoolSize (prom s)"
  by (simp_all add: show_peers_def show_pool_def show_height_def count_mined_def)

text \<open>Only the log of dials and the list of peers with its gauge changed, and peers were only dropped.\<close>

definition quiet :: "'s Server \<Rightarrow> 's Server \<Rightarrow> bool" where
  "quiet s s' \<longleftrightarrow>
     s' = s\<lparr>knownNodes := knownNodes s', net := net s', prom := (prom s)\<lparr>ConnectedPeers := ConnectedPeers (prom s')\<rparr>\<rparr> \<and>
     (\<exists>Q. knownNodes s' = filter Q (knownNodes s)) \<and> (\<exists>log. net s' = net s @ log) \<and>
     (knownNodes s' = knownNodes s \<and> ConnectedPeers (prom s') = ConnectedPeers (prom s) \<or>
      ConnectedPeers (prom s') = float64 (int (length (knownNodes s'))))"

lemma quiet_refl [simp]: "quiet s s"
  unfolding quiet_def by (auto intro: exI [of _ "\<lambda>_. True"])

lemma quiet_sel:
  assumes "quiet s s'"
  shows "mempool s' = mempool s" "srv_bc s' = srv_bc s" "blockSubscribers s' = blockSubscribers s"
    "next_ch s' = next_ch s" "blocksInTransit s' = blocksInTransit s" "nodeAddress s' = nodeAddress s"
    "miningAddress s' = miningAddress s" "miningCancel s' = miningCancel s"
    "distinct (knownNodes s) \<Longrightarrow> distinct (knownNodes s')" "set (knownNodes s') \<subseteq> set (knownNodes s)"
    "MempoolSize (prom s') = MempoolSize (prom s)" "BlockchainHeight (prom s') = BlockchainHeight (prom s)"
    "BlocksMined (prom s') = BlocksMined (prom s)"
proof -
  obtain k n m Q where "s' = s\<lparr>knownNodes := k, net := n, prom := (prom s)\<lparr>ConnectedPeers := m\<rparr>\<rparr>" "k = filter Q (knownNodes s)"
    using assms unfolding quiet_def by metis
  then show "mempool s' = mempool s" "srv_bc s' = srv_bc s" "blockSubscribers s' = blockSubscribers s"
    "next_ch s' = next_ch s" "blocksInTransit s' = blocksInTransit s" "nodeAddress s' = nodeAddress s"
    "miningAddress s' = miningAddress s" "miningCancel s' = miningCancel s"
    "distinct (knownNodes s) \<Longrightarrow> distinct (knownNodes s')" "set (knownNodes s') \<subseteq> set (knownNodes s)"
    "MempoolSize (prom s') = MempoolSize (prom s)" "BlockchainHeight (prom s') = BlockchainHeight (prom s)"
    "BlocksMined (prom s') = BlocksMined (prom s)" by auto
qed

lemma quiet_peers:
  "quiet s s' \<Longrightarrow> ConnectedPeers (prom s) = float64 (int (length (knownNodes s))) \<Longrightarrow>
     ConnectedPeers (prom s') = float64 (int (length (knownNodes s')))"
  unfolding quiet_def by metis

lemma quiet_trans:
  assumes "quiet s s'" and "quiet s' s''"
  shows "quiet s s''"
proof -
  have "s'' = s\<lparr>knownNodes := knownNodes s'', net := net s'', prom := (prom s)\<lparr>ConnectedPeers := ConnectedPeers (prom s'')\<rparr>\<rparr>"
  proof -
    obtain k n m where "s' = s\<lparr>knownNodes := k, net := n, prom := (prom s)\<lparr>ConnectedPeers := m\<rparr>\<rparr>"
      using assms(1) unfolding quiet_def by metis
    moreover obtain k' n' m' where "s'' = s'\<lparr>knownNodes := k', net := n', prom := (prom s')\<lparr>ConnectedPeers := m'\<rparr>\<rparr>"
      using assms(2) unfolding quiet_def by metis
    ultimately show ?thesis by simp
  qed
  moreover have "\<exists>Q. knownNodes s'' = filter Q (knownNodes s)"
    using assms unfolding quiet_def by (metis filter_filter)
  ultimately show ?thesis using assms unfolding quiet_def by (metis append_assoc)
qed

lemma sendData_quiet [simp]: "quiet s (sendData E a d s)"
proof (cases "dial E (net s) a")
  case True
  then have "sendData E a d s = s\<lparr>net := net s @ [(a, d, True)]\<rparr>" by (simp add: sendData_def)
  then show ?thesis unfolding quiet_def by (auto intro: exI [of _ "\<lambda>_. True"])
next
  case False
  then have "sendData E a d s = show_peers (s\<lparr>knownNodes := filter (\<lambda>n. n \<noteq> a) (knownNodes s), net := net s @ [(a, d, False)]\<rparr>)"
    by (simp add: sendData_def show_peers_def)
  then show ?thesis unfolding quiet_def by (auto simp: show_peers_def)
qed

text \<open>A step that returns normally and is quiet.\<close>

definition sends :: "('s Server \<Rightarrow> unit result \<times> 's Server) \<Rightarrow> bool" where
  "sends f \<longleftrightarrow> (\<forall>s. fst (f s) = Ok () \<and> quiet s (snd (f s)))"

lemma sendsD: "sends f \<Longrightarrow> f s = (r, s') \<Longrightarrow> r = Ok () \<and> quiet s s'"
  unfolding sends_def by (metis fst_conv snd_conv)

lemma sends_skip [simp]: "sends (\<lambda>s. (Ok (), s))"
  by (simp add: sends_def)

lemma sends_send [simp]:
  "sends (sendInv E a k i)" "sends (sendGetBlocks E a)" "sends (sendGetData E a k j)"
  "sends (sendTx E a t)" "sends (sendBlock E a b)"
  by (simp_all add: sends_def send_defs)

lemma for_each_quiet:
  assumes "\<And>x. sends (f x)"
  shows "fst (for_each f xs s) = Ok () \<and> quiet s (snd (for_each f xs s))"
proof (induction xs arbitrary: s)
  case Nil
  then show ?case by simp
next
  case (Cons x xs)
  obtain r s1 where x: "f x s = (r, s1)" by fastforce
  then have "r = Ok ()" "quiet s s1" using sendsD [OF assms x] by simp_all
  then show ?case using Cons.IH [of s1] x quiet_trans [of s s1] by simp
qed

lemma sends_loop: "(\<And>x. sends (f x)) \<Longrightarrow> sends (\<lambda>s. for_each f (g s) s)"
  unfolding sends_def [of "\<lambda>s. for_each f (g s) s"] using for_each_quiet by blast

lemma sends_if: "sends f \<Longrightarrow> sends g \<Longrightarrow> sends (\<lambda>s. if P s then f s else g s)"
  by (simp add: sends_def)

lemma sends_announce [simp]: "sends (announce E skip k i)"
  unfolding announce_def by (intro sends_loop sends_if) simp_all

lemma sends_requestBlocks [simp]: "sends (requestBlocks E)"
  unfolding requestBlocks_def by (intro sends_loop) simp

lemma sends_SendTxToKnownNodes [simp]: "sends (SendTxToKnownNodes E tx)"
proof -
  have "sends (\<lambda>s. sendTx E (knownNodes s ! 0) tx s)"
    using sends_send(4) [of E _ tx] unfolding sends_def by blast
  then show ?thesis unfolding SendTxToKnownNodes_def by (intro sends_if) simp_all
qed

section \<open>The chain of a running node\<close>

text \<open>
  Whatever their outcome, the operations a handler calls leave the cached tip equal to the stored
  one. Nothing is assumed about the blocks that arrive or about the chain that is stored.
\<close>

context storage
begin

lemma AddBlock_synced:
  assumes "bc_synced inv tipv bc" and "okh (Hash b) \<or> is_Ok (GetBlock S (Hash b) (db bc))"
    and "AddBlock P S keys b bc = (r, bc')"
  shows "bc_synced inv tipv bc'"
proof (cases "okh (Hash b)")
  case True
  have inv: "inv (db bc)" using assms(1) by (simp add: bc_synced_def)
  obtain r1 d1 where s1: "SaveBlockAndTip S (Hash b) (Serialize P b) (db bc) = (r1, d1)" by force
  obtain r2 d2 where s2: "SaveBlock S (Hash b) (Serialize P b) (db bc) = (r2, d2)" by force
  show ?thesis
    using assms(1,3) save_block_and_tip [OF inv True s1] save_block [OF inv True s2]
    by (auto simp: AddBlock_def Let_def s1 s2 bc_synced_def split: result.splits if_splits)
next
  case False
  then show ?thesis using assms by (auto simp: AddBlock_def is_Ok_iff)
qed

lemma MineBlock_synced:
  assumes "bc_synced inv tipv bc" and "sha256_ok P" and "\<And>h. length h = 32 \<Longrightarrow> okh h"
    and "MineBlock P S ctx now txs bc = (r, bc')"
  shows "bc_synced inv tipv bc'"
proof (cases "bind_result (verify_all P S bc txs) (\<lambda>_.
           bind_result (last_block P S (db bc)) (\<lambda>(lastHash, lastBlock).
           bind_result (next_bits P S (db bc) lastBlock) (\<lambda>newBits.
             NewBlock P ctx now txs lastHash (Height lastBlock + 1) newBits)))")
  case (Ok nb)
  then obtain prev h bits where "NewBlock P ctx now txs prev h bits = Ok nb"
    by (auto simp: bind_result_eq_Ok)
  then have ok: "okh (Hash nb)" using NewBlock_OkD(8) assms(2,3) by blast
  have inv: "inv (db bc)" using assms(1) by (simp add: bc_synced_def)
  obtain r1 d1 where s1: "SaveBlockAndTip S (Hash nb) (Serialize P nb) (db bc) = (r1, d1)" by force
  then show ?thesis
    using assms(1,4) Ok save_block_and_tip [OF inv ok s1]
    by (auto simp: MineBlock_def bc_synced_def split: result.splits)
qed (use assms(1,4) in \<open>auto simp: MineBlock_def\<close>)

lemma for_each_synced:
  assumes "\<And>x c r c'. bc_synced inv tipv c \<Longrightarrow> f x c = (r, c') \<Longrightarrow> bc_synced inv tipv c'"
    and "bc_synced inv tipv bc" and "for_each f xs bc = (r, bc')"
  shows "bc_synced inv tipv bc'"
  using assms(2,3)
proof (induction xs arbitrary: bc)
  case (Cons x xs)
  obtain r1 c where x: "f x bc = (r1, c)" by fastforce
  then have "bc_synced inv tipv c" using assms(1) Cons.prems(1) by blast
  then show ?case using Cons.IH Cons.prems(2) x by (auto split: result.splits)
qed simp

lemma Reindex_synced:
  assumes "bc_synced inv tipv bc" and "Reindex P S ord bc = (r, bc')"
  shows "bc_synced inv tipv bc'"
proof -
  obtain r1 d1 where c: "ClearUTXOSet S (db bc) = (r1, d1)" by fastforce
  define bc1 where "bc1 = bc\<lparr>db := d1\<rparr>"
  have s1: "bc_synced inv tipv bc1"
    using clear_utxo [OF _ c] assms(1) by (auto simp: bc_synced_def bc1_def)
  have save: "bc_synced inv tipv c'" if "bc_synced inv tipv c" "reindex_entry P S x c = (r, c')" for x c r c'
  proof -
    have step: "bc_synced inv tipv (c\<lparr>db := d\<rparr>)" if "SaveUTXO S k v (db c) = (r, d)" for k v r d
      using save_utxo [OF _ that] \<open>bc_synced inv tipv c\<close> by (auto simp: bc_synced_def)
    show ?thesis using that step
      by (auto simp: reindex_entry_def save_outs_def on_db_def split: result.splits prod.splits)
  qed
  have "bc_synced inv tipv c'" if "for_each (reindex_entry P S) U bc1 = (r, c')" for U r c'
    using for_each_synced [where f = "reindex_entry P S", OF _ s1 that] save by blast
  then show ?thesis
    using assms(2) s1 by (auto simp: Reindex_def on_db_def c bc1_def split: result.splits)
qed

end

section \<open>The invariant of a node\<close>

abbreviation tx_key :: "Transaction \<Rightarrow> string" where "tx_key t \<equiv> hex_encode (ID t)"

text \<open>
  The pool files every transaction under its id, no peer is listed twice, subscribers are
  different channels with at most ten waiting blocks, the cached tip is the stored one, and the gauges
  of the pool and, once the node is \<open>up\<close>, of the peers show their sizes.
\<close>

definition srv_inv :: "bool \<Rightarrow> ('s \<Rightarrow> bool) \<Rightarrow> ('s \<Rightarrow> bytes option) \<Rightarrow> 's Server \<Rightarrow> bool" where
  "srv_inv up dbinv dbtip s \<longleftrightarrow>
     keyed tx_key (mempool s) \<and> distinct (knownNodes s) \<and>
     distinct (map ch_id (blockSubscribers s)) \<and>
     (\<forall>c \<in> set (blockSubscribers s). ch_id c < next_ch s \<and> length (ch_buf c) \<le> 10) \<and>
     bc_synced dbinv dbtip (srv_bc s) \<and> MempoolSize (prom s) = float64 (int (length (mempool s))) \<and>
     (up \<longrightarrow> ConnectedPeers (prom s) = float64 (int (length (knownNodes s))))"

lemma quiet_inv: "srv_inv up I T s \<Longrightarrow> quiet s s' \<Longrightarrow> srv_inv up I T s'"
  using quiet_sel [of s s'] quiet_peers [of s s'] by (auto simp: srv_inv_def)

lemma sends_inv: "sends f \<Longrightarrow> srv_inv up I T s \<Longrightarrow> srv_inv up I T (snd (f s))"
  unfolding sends_def using quiet_inv by blast

lemma inv_bc: "srv_inv up I T s \<Longrightarrow> bc_synced I T bc \<Longrightarrow> srv_inv up I T (s\<lparr>srv_bc := bc\<rparr>)"
  by (simp add: srv_inv_def)

lemma inv_fields [simp]:
  "srv_inv up I T (s\<lparr>miningCancel := c\<rparr>) \<longleftrightarrow> srv_inv up I T s"
  "srv_inv up I T (s\<lparr>blocksInTransit := bs\<rparr>) \<longleftrightarrow> srv_inv up I T s"
  by (simp_all add: srv_inv_def)

lemma ch_id_offer [simp]: "ch_id (offer b c) = ch_id c"
  by (simp add: offer_def)

lemma notifyBlock_inv: "srv_inv up I T s \<Longrightarrow> srv_inv up I T (notifyBlock b s)"
  unfolding srv_inv_def notifyBlock_def by (auto simp: comp_def) (auto simp: offer_def)

lemma mempool_drop_txs:
  "map_of (mempool (drop_txs txs s)) k = (if k \<in> tx_key ` set txs then None else map_of (mempool s) k)"
proof -
  have "map_of (fold (\<lambda>t. AList.delete (tx_key t)) txs m) k = (if k \<in> tx_key ` set txs then None else map_of m k)"
    for m :: "(string \<times> Transaction) list"
    by (induction txs arbitrary: m) (auto simp: delete_conv')
  then show ?thesis by (simp add: drop_txs_def)
qed

lemma drop_txs_inv: "srv_inv up I T s \<Longrightarrow> srv_inv up I T (drop_txs txs s)"
proof -
  have "keyed tx_key m \<Longrightarrow> keyed tx_key (fold (\<lambda>t. AList.delete (tx_key t)) txs m)" for m
    by (induction txs arbitrary: m) (auto intro: keyed_delete)
  then show "srv_inv up I T s \<Longrightarrow> srv_inv up I T (drop_txs txs s)" by (simp add: srv_inv_def drop_txs_def)
qed

text \<open>Dropping a transaction that is in the pool makes the pool smaller.\<close>

lemma drop_txs_less:
  assumes "t \<in> set txs" and "map_of (mempool s) (tx_key t) \<noteq> None"
  shows "length (mempool (drop_txs txs s)) < length (mempool s)"
proof -
  have le: "length (fold (\<lambda>t. AList.delete (tx_key t)) ts m) \<le> length m" for ts m
    by (induction ts arbitrary: m) (auto intro: order_trans [OF _ length_delete_le])
  have "length (fold (\<lambda>t. AList.delete (tx_key t)) ts m) < length m"
    if "t \<in> set ts" "map_of m (tx_key t) \<noteq> None" for ts m
    using that
  proof (induction ts arbitrary: m)
    case (Cons a ts)
    show ?case
    proof (cases "tx_key a = tx_key t")
      case True
      then have "length (AList.delete (tx_key a) m) < length m"
        using Cons.prems(2) by (intro length_AList_delete_less) simp
      then show ?thesis using le [of ts "AList.delete (tx_key a) m"] by simp
    next
      case False
      then have "t \<in> set ts" "map_of (AList.delete (tx_key a) m) (tx_key t) \<noteq> None"
        using Cons.prems by (auto simp: delete_conv')
      then show ?thesis using Cons.IH [of "AList.delete (tx_key a) m"] length_delete_le [of "tx_key a" m] by simp
    qed
  qed simp
  then show ?thesis using assms by (simp add: drop_txs_def)
qed

lemma pool_tx_sel [simp]:
  "mempool (pool_tx tx s) = AList.update (tx_key tx) tx (mempool s)" "knownNodes (pool_tx tx s) = knownNodes s"
  "blockSubscribers (pool_tx tx s) = blockSubscribers s" "next_ch (pool_tx tx s) = next_ch s" "srv_bc (pool_tx tx s) = srv_bc s"
  "nodeAddress (pool_tx tx s) = nodeAddress s" "miningAddress (pool_tx tx s) = miningAddress s" "net (pool_tx tx s) = net s"
  "miningCancel (pool_tx tx s) = miningCancel s" "blocksInTransit (pool_tx tx s) = blocksInTransit s"
  "MempoolSize (prom (pool_tx tx s)) = float64 (int (length (mempool (pool_tx tx s))))"
  "ConnectedPeers (prom (pool_tx tx s)) = ConnectedPeers (prom s)"
  by (simp_all add: pool_tx_def Let_def)

lemma pool_tx_inv: "srv_inv up I T s \<Longrightarrow> srv_inv up I T (pool_tx tx s)"
  using keyed_update [of tx_key "mempool s" tx] by (simp add: srv_inv_def)

text \<open>A list of peers that grows is shown once it is complete.\<close>

lemma inv_down: "srv_inv up I T s \<Longrightarrow> srv_inv False I T s"
  by (simp add: srv_inv_def)

lemma show_peers_inv: "srv_inv False I T s \<Longrightarrow> srv_inv up I T (show_peers s)"
  by (simp add: srv_inv_def)

lemma show_inv [simp]:
  "srv_inv up I T (show_height h s) \<longleftrightarrow> srv_inv up I T s" "srv_inv up I T (count_mined t b s) \<longleftrightarrow> srv_inv up I T s"
  by (simp_all add: srv_inv_def)

lemma show_pool_inv: "srv_inv up I T s \<Longrightarrow> srv_inv up I T (show_pool s)"
  by (simp add: srv_inv_def)

lemma add_node_inv:
  "srv_inv up I T s \<Longrightarrow> \<not> nodeIsKnown s a \<Longrightarrow> srv_inv False I T (s\<lparr>knownNodes := knownNodes s @ [a]\<rparr>)"
  by (auto simp: srv_inv_def nodeIsKnown_def)

lemma add_nodes_inv: "srv_inv False I T s \<Longrightarrow> srv_inv False I T (add_nodes as s)"
  by (induction as arbitrary: s) (simp_all add: add_node_inv)

lemma SubscribeBlocks_inv: "srv_inv up I T s \<Longrightarrow> srv_inv up I T (snd (SubscribeBlocks s))"
  unfolding srv_inv_def SubscribeBlocks_def by force

lemma set_remove_sub: "set (remove_sub ch cs) \<subseteq> set cs"
  by (induction cs) auto

lemma distinct_remove_sub: "distinct (map ch_id cs) \<Longrightarrow> distinct (map ch_id (remove_sub ch cs))"
  using set_remove_sub by (induction cs) fastforce+

lemma UnsubscribeBlocks_inv: "srv_inv up I T s \<Longrightarrow> srv_inv up I T (UnsubscribeBlocks ch s)"
  using set_remove_sub [of ch "blockSubscribers s"] distinct_remove_sub [of "blockSubscribers s" ch]
  by (auto simp: srv_inv_def UnsubscribeBlocks_def)

lemma NewServer_inv: "bc_synced I T bc \<Longrightarrow> srv_inv False I T (NewServer nodeID miner bc)"
  by (simp add: srv_inv_def NewServer_def no_metrics_def)

lemma collect_valid_set: "collect_valid E bc pool = Ok txs \<Longrightarrow> set txs \<subseteq> snd ` set pool"
  by (induction pool arbitrary: txs)
    (fastforce simp: bind_result_eq_Ok split: result.splits if_splits)+

lemma collect_valid_verified:
  "collect_valid E bc pool = Ok txs \<Longrightarrow> t \<in> set txs \<Longrightarrow> VerifyTransaction (prims E) (store E) bc t = Ok True"
  by (induction pool arbitrary: txs)
    (fastforce simp: bind_result_eq_Ok split: result.splits if_splits)+

lemma logged_inv:
  "srv_inv up I T s \<Longrightarrow> (\<And>x. r = Ok x \<Longrightarrow> srv_inv up I T (snd (f x))) \<Longrightarrow> srv_inv up I T (snd (logged r s f))"
  by (simp add: logged_def split: result.splits)

lemma and_then_inv:
  "srv_inv up I T (snd p) \<Longrightarrow> (\<And>s. srv_inv up I T s \<Longrightarrow> srv_inv up I T (snd (f s))) \<Longrightarrow> srv_inv up I T (snd (and_then p f))"
  by (cases p; cases "fst p") auto

text \<open>What the handlers assume of their surroundings.\<close>

definition env_ok :: "'s Storage \<Rightarrow> 's Env \<Rightarrow> bool" where
  "env_ok S E \<longleftrightarrow> store E = S \<and> sha256_ok (prims E) \<and> is_order (pool_order E)"

text \<open>
  A storage that a node can run on: digests are fit for block hashes, and a hash that is not fit
  is one that already reads as something (the slot of the tip).
\<close>

locale node_storage = storage +
  assumes digest_ok: "length h = 32 \<Longrightarrow> okh h"
    and odd_hash: "inv s \<Longrightarrow> tipv s = Some t \<Longrightarrow> okh h \<or> is_Ok (GetBlock S h s)"
begin

lemma reindex_logged_inv:
  assumes "env_ok S E" and "srv_inv up inv tipv s"
  shows "srv_inv up inv tipv (snd (reindex_logged E s))"
proof -
  obtain r bc where re: "Reindex (prims E) (store E) (utxo_order E) (srv_bc s) = (r, bc)" by fastforce
  have "bc_synced inv tipv bc"
    using Reindex_synced re assms by (auto simp: env_ok_def srv_inv_def)
  then have "srv_inv up inv tipv (s\<lparr>srv_bc := bc\<rparr>)" by (rule inv_bc [OF assms(2)])
  then show ?thesis by (simp add: reindex_logged_def re logged_inv)
qed

lemma AddBlock_inv:
  assumes "env_ok S E" and "srv_inv up inv tipv s"
    and "AddBlock (prims E) (store E) keys b (srv_bc s) = (r, bc)"
  shows "srv_inv up inv tipv (s\<lparr>srv_bc := bc\<rparr>)"
  using assms AddBlock_synced [of "srv_bc s" b] odd_hash [of "db (srv_bc s)" _ "Hash b"]
  by (intro inv_bc) (auto simp: env_ok_def srv_inv_def bc_synced_def)

lemma handleBlock_inv:
  assumes "env_ok S E" and "srv_inv up inv tipv s"
  shows "srv_inv up inv tipv (snd (handleBlock E request s))"
  unfolding handleBlock_def
proof (intro logged_inv assms(2), goal_cases)
  case (1 payload b)
  obtain r bc where ab: "AddBlock (prims E) (store E) (authority_keys E) b (srv_bc s) = (r, bc)" by fastforce
  define s' where "s' = drop_txs (Transactions b) ((show_height (Height b) (notifyBlock b (s\<lparr>srv_bc := bc\<rparr>)))\<lparr>miningCancel := False\<rparr>)"
  have bc: "srv_inv up inv tipv (s\<lparr>srv_bc := bc\<rparr>)" by (rule AddBlock_inv [OF assms ab])
  then have s': "srv_inv up inv tipv s'" by (simp add: s'_def drop_txs_inv notifyBlock_inv)
  then have "srv_inv up inv tipv (snd (case blocksInTransit s' of
      blockHash # rest \<Rightarrow> sendGetData E (block_AddrFrom payload) ''block'' blockHash (s'\<lparr>blocksInTransit := rest\<rparr>)
    | [] \<Rightarrow> reindex_logged E s'))"
    using reindex_logged_inv [OF assms(1)]
    by (cases "blocksInTransit s'") (simp_all add: sends_inv)
  with bc show ?case unfolding ab prod.case Let_def s'_def by (intro logged_inv)
qed

lemma handleAddr_inv: "srv_inv up inv tipv s \<Longrightarrow> srv_inv up inv tipv (snd (handleAddr E request s))"
  unfolding handleAddr_def by (intro logged_inv sends_inv [OF sends_requestBlocks] show_peers_inv add_nodes_inv) (auto intro: inv_down)

lemma handleInv_inv: "srv_inv up inv tipv s \<Longrightarrow> srv_inv up inv tipv (snd (handleInv E request s))"
  unfolding handleInv_def Let_def
  by (intro logged_inv and_then_inv) (simp_all add: sends_inv)

lemma handleGetBlocks_inv: "srv_inv up inv tipv s \<Longrightarrow> srv_inv up inv tipv (snd (handleGetBlocks E request s))"
  unfolding handleGetBlocks_def
  by (intro logged_inv) (simp_all add: sends_inv split: result.split)

lemma handleGetData_inv: "srv_inv up inv tipv s \<Longrightarrow> srv_inv up inv tipv (snd (handleGetData E request s))"
  unfolding handleGetData_def
  by (intro logged_inv) (auto simp: sends_inv logged_inv split: option.split)

lemma sendVersion_quiet: "quiet s (snd (sendVersion E a s))"
  by (simp add: sendVersion_def logged_def send_cmd_eq split: result.split)

lemma handleVersion_inv: "srv_inv up inv tipv s \<Longrightarrow> srv_inv up inv tipv (snd (handleVersion E request s))"
  unfolding handleVersion_def
  by (intro logged_inv and_then_inv)
    (simp_all add: sends_inv quiet_inv [OF _ sendVersion_quiet] show_peers_inv add_node_inv inv_down)

text \<open>Once a node has started, its gauges are set.\<close>

lemma Start_hello_inv:
  assumes "srv_inv up inv tipv s" and "Start_hello E s = (r, s')"
  shows "srv_inv up inv tipv s'" and "r = Ok () \<Longrightarrow> srv_inv True inv tipv s'"
proof -
  let ?first = "if 0 < length (knownNodes s) \<and> nodeAddress s \<noteq> knownNodes s ! 0 then knownNodes s ! 0 else []"
  obtain r1 s1 where h: "(if ?first \<noteq> [] then sendVersion E ?first s else (Ok (), s)) = (r1, s1)" by fastforce
  then have "quiet s s1" using sendVersion_quiet [of s E ?first] by (metis quiet_refl snd_conv)
  then have s1: "srv_inv up inv tipv s1" by (rule quiet_inv [OF assms(1)])
  have all: "srv_inv u inv tipv (show_pool (show_peers s1))" "srv_inv u inv tipv (show_pool (show_peers (show_height h s1)))" for u h
    using s1 by (auto intro!: show_pool_inv show_peers_inv intro: inv_down)
  have "(r, s') = and_then (r1, s1) (\<lambda>s.
      case GetBestHeight (prims E) (store E) (srv_bc s) of
        Ok bestHeight \<Rightarrow> (Ok (), show_pool (show_peers (show_height bestHeight s)))
      | Error e \<Rightarrow> (Ok (), show_pool (show_peers s))
      | r \<Rightarrow> (as_failure r, s))"
    using assms(2) unfolding Start_hello_def Let_def h by simp
  then show "srv_inv up inv tipv s'" "r = Ok () \<Longrightarrow> srv_inv True inv tipv s'"
    using s1 all by (cases r1; cases "GetBestHeight (prims E) (store E) (srv_bc s1)"; simp)+
qed

lemma reindex_logged_mempool: "mempool (snd (reindex_logged E s)) = mempool s"
  unfolding reindex_logged_def logged_def by (simp split: prod.split result.split)

lemma collect_valid_pooled:
  assumes "env_ok S E" and "srv_inv up inv tipv s"
    and "collect_valid E (srv_bc s) (pool_order E (mempool s)) = Ok txs" and "txs \<noteq> []"
  obtains t where "t \<in> set txs" and "map_of (mempool s) (tx_key t) \<noteq> None"
proof -
  obtain t where t: "t \<in> set txs" using assms(4) by (meson last_in_set)
  then obtain k where k: "(k, t) \<in> set (mempool s)"
    using collect_valid_set [OF assms(3)] is_order_set [of "pool_order E" "mempool s"] assms(1)
    by (auto simp: env_ok_def)
  then have "k = tx_key t" using assms(2) by (auto simp: srv_inv_def keyed_def)
  then show ?thesis using that t k by (force simp: map_of_eq_None_iff)
qed

text \<open>What follows a mined block: the pool gets smaller.\<close>

lemma mined_inv:
  assumes "env_ok S E" and "srv_inv up inv tipv s" and "t \<in> set txs" and "map_of (mempool s) (tx_key t) \<noteq> None"
    and "and_then (reindex_logged E s) (\<lambda>s. announce E {} ''block'' h (drop_txs txs (notifyBlock b s))) = (r, s')"
  shows "srv_inv up inv tipv s' \<and> (r = Ok () \<longrightarrow> length (mempool s') < length (mempool s))"
proof -
  obtain r1 s1 where re: "reindex_logged E s = (r1, s1)" by fastforce
  have s1: "srv_inv up inv tipv s1" "mempool s1 = mempool s"
    using reindex_logged_inv [OF assms(1,2)] reindex_logged_mempool [of E s] re by simp_all
  define s2 where "s2 = drop_txs txs (notifyBlock b s1)"
  have s2: "srv_inv up inv tipv s2" unfolding s2_def using s1(1) by (intro drop_txs_inv notifyBlock_inv)
  have "length (mempool s2) < length (mempool s)"
    unfolding s2_def using drop_txs_less [OF assms(3), of "notifyBlock b s1"] assms(4) s1(2) by (simp add: notifyBlock_def)
  moreover obtain r2 s3 where a: "announce E {} ''block'' h s2 = (r2, s3)" by fastforce
  then have "r2 = Ok ()" "srv_inv up inv tipv s3" "mempool s3 = mempool s2"
    using sendsD [OF sends_announce a] quiet_inv [OF s2] quiet_sel(1) by blast+
  ultimately show ?thesis using assms(5) s1(1) unfolding re by (cases r1) (auto simp: s2_def [symmetric] a)
qed

text \<open>One round of mining; going round again leaves a smaller pool.\<close>

lemma mine_round_inv:
  assumes "env_ok S E" and "srv_inv up inv tipv s"
  shows "case mine_round E n s of
      Inl out \<Rightarrow> srv_inv up inv tipv (snd out)
    | Inr s' \<Rightarrow> srv_inv up inv tipv s' \<and> length (mempool s') < length (mempool s)"
proof (cases "2 \<le> length (mempool s) \<and> miningAddress s \<noteq> [] \<and> knownNodes s \<noteq> [] \<and>
    (\<exists>txs cb. collect_valid E (srv_bc s) (pool_order E (mempool s)) = Ok txs \<and> txs \<noteq> [] \<and>
      NewCoinbaseTX (prims E) (coinbase_rand E n) (miningAddress s) [] = Ok cb)")
  case False
  then show ?thesis using assms(2) by (auto simp: mine_round_def split: result.split)
next
  case True
  then obtain txs cb where txs: "collect_valid E (srv_bc s) (pool_order E (mempool s)) = Ok txs" "txs \<noteq> []"
    and cb: "NewCoinbaseTX (prims E) (coinbase_rand E n) (miningAddress s) [] = Ok cb" by blast
  obtain r bc where m: "MineBlock (prims E) (store E) (mining_ctx E n) (clock E n) (txs @ [cb]) (srv_bc s) = (r, bc)"
    by fastforce
  define s1 where "s1 = s\<lparr>srv_bc := bc, miningCancel := False\<rparr>"
  have s1: "srv_inv up inv tipv s1"
    unfolding s1_def using assms m MineBlock_synced [OF _ _ digest_ok, of "srv_bc s" "prims E"]
    by (simp add: inv_bc) (auto simp: env_ok_def srv_inv_def)
  obtain t where t: "t \<in> set txs" "map_of (mempool s) (tx_key t) \<noteq> None"
    by (rule collect_valid_pooled [OF assms txs])
  show ?thesis
  proof (cases r)
    case (Ok nb)
    obtain r' s' where f: "and_then (reindex_logged E (count_mined (mining_secs E n) nb s1))
        (\<lambda>s. announce E {} ''block'' (Hash nb) (drop_txs (txs @ [cb]) (notifyBlock nb s))) = (r', s')" by fastforce
    then have "srv_inv up inv tipv s' \<and> (r' = Ok () \<longrightarrow> length (mempool s') < length (mempool s))"
      using mined_inv [OF assms(1) _ _ _ f, of up t] s1 t by (simp add: s1_def)
    moreover have "mine_round E n s = (case (r', s') of (Ok _, s) \<Rightarrow> Inr s | (r, s) \<Rightarrow> Inl (r, s))"
      using True txs cb Ok m f by (simp add: mine_round_def s1_def)
    ultimately show ?thesis by (cases r') auto
  qed (use True txs cb m s1 in \<open>auto simp: mine_round_def s1_def\<close>)
qed

text \<open>So mining ends: every round that is followed by another empties part of the pool.\<close>

lemma mine_loop_returns:
  assumes "env_ok S E" and "srv_inv up inv tipv s"
  shows "\<exists>out. mine_loop E n s = Some out \<and> srv_inv up inv tipv (snd out)"
  using assms(2)
proof (induction "length (mempool s)" arbitrary: n s rule: less_induct)
  case less
  show ?case
  proof (cases "mine_round E n s")
    case (Inl out)
    then show ?thesis using mine_round_inv [OF assms(1) less.prems, of n] by (simp add: mine_loop.simps)
  next
    case (Inr s')
    then have "srv_inv up inv tipv s'" "length (mempool s') < length (mempool s)"
      using mine_round_inv [OF assms(1) less.prems, of n] by simp_all
    from less.hyps [OF this(2,1), of "Suc n"] show ?thesis using Inr by (simp add: mine_loop.simps)
  qed
qed

lemma handleTx_inv:
  assumes "env_ok S E" and "srv_inv up inv tipv s"
  shows "srv_inv up inv tipv (snd (handleTx E request s))"
  unfolding handleTx_def
proof (intro logged_inv assms(2), goal_cases)
  case (1 payload newTx)
  have "srv_inv up inv tipv (pool_tx newTx s)" by (rule pool_tx_inv [OF assms(2)])
  then show ?case
    using mine_loop_returns [OF assms(1), of up "pool_tx newTx s" 0] sends_inv [OF sends_announce]
    by (auto simp: Let_def)
qed

lemma handleConnection_inv:
  assumes "env_ok S E" and "srv_inv up inv tipv s"
  shows "srv_inv up inv tipv (snd (handleConnection E conn s))"
proof -
  note H = handleAddr_inv handleBlock_inv handleInv_inv handleGetBlocks_inv handleGetData_inv handleTx_inv handleVersion_inv
  show ?thesis unfolding handleConnection_def Let_def
    by (intro logged_inv assms(2)) (simp add: H assms)
qed

lemma SubmitTransaction_inv:
  assumes "srv_inv up inv tipv s" and "srv_inv up inv tipv (others s)"
  shows "srv_inv up inv tipv (snd (SubmitTransaction E others tx s))"
  using assms by (simp add: SubmitTransaction_def Let_def sends_inv pool_tx_inv split: result.split)

end

text \<open>The bbolt storage is one: the only hash that is not fit for a block is the key of the tip.\<close>

interpretation bolt_node: node_storage "bolt_storage B" "bolt_inv B" "bolt_blk B" "bolt_tip B" "bolt_utxo B"
    block_key for B
proof (unfold_locales, goal_cases)
  case (1 h)
  then show ?case by (rule length_32_block_key)
next
  case (2 s t h)
  have "GetBlock (bolt_storage B) tipKey s = GetTip (bolt_storage B) s"
    by (simp add: bolt_storage_def DB_GetBlock_def DB_GetTip_def)
  then show ?case using 2 by (auto simp: bolt.get_tip)
qed

section \<open>Runs of a node\<close>

text \<open>A subscriber takes the oldest block of its channel.\<close>

definition receive :: "nat \<Rightarrow> 's Server \<Rightarrow> 's Server" where
  "receive ch s = s\<lparr>blockSubscribers :=
     map (\<lambda>c. if ch_id c = ch then c\<lparr>ch_buf := tl (ch_buf c)\<rparr> else c) (blockSubscribers s)\<rparr>"

lemma receive_inv: "srv_inv up I T s \<Longrightarrow> srv_inv up I T (receive ch s)"
proof -
  let ?f = "\<lambda>c. if ch_id c = ch then c\<lparr>ch_buf := tl (ch_buf c)\<rparr> else c"
  have ids: "ch_id \<circ> ?f = ch_id" by (auto simp: fun_eq_iff)
  assume inv: "srv_inv up I T s"
  then have "distinct (map ch_id (map ?f (blockSubscribers s)))"
    unfolding list.map_comp ids by (simp add: srv_inv_def)
  then show "srv_inv up I T (receive ch s)"
    using inv unfolding srv_inv_def receive_def by auto
qed

text \<open>
  The states a node can get into: it greets its first peer, answers connections with whatever
  bytes they carry, takes transactions from its own API, with any run of other goroutines between
  the two halves of the call, and serves its subscribers. The surroundings may change from
  step to step.
\<close>

inductive node_run :: "'s Storage \<Rightarrow> 's Server \<Rightarrow> 's Server \<Rightarrow> bool" for S where
  run_init: "node_run S s s"
| run_hello: "node_run S s0 s \<Longrightarrow> env_ok S E \<Longrightarrow> node_run S s0 (snd (Start_hello E s))"
| run_connection: "node_run S s0 s \<Longrightarrow> env_ok S E \<Longrightarrow> node_run S s0 (snd (handleConnection E conn s))"
| run_submit: "node_run S s0 s \<Longrightarrow> env_ok S E \<Longrightarrow> node_run S s s1 \<Longrightarrow>
    node_run S s0 (snd (SubmitTransaction E (\<lambda>_. s1) tx s))"
| run_subscribe: "node_run S s0 s \<Longrightarrow> node_run S s0 (snd (SubscribeBlocks s))"
| run_unsubscribe: "node_run S s0 s \<Longrightarrow> node_run S s0 (UnsubscribeBlocks ch s)"
| run_receive: "node_run S s0 s \<Longrightarrow> node_run S s0 (receive ch s)"

context node_storage
begin

lemma node_run_inv: "node_run S s0 s \<Longrightarrow> srv_inv up inv tipv s0 \<Longrightarrow> srv_inv up inv tipv s"
proof (induction rule: node_run.induct)
  case (run_hello s0 s E)
  then show ?case using Start_hello_inv(1) by (metis prod.collapse)
next
  case (run_submit s0 s E s1 tx)
  then show ?case by (simp add: SubmitTransaction_inv)
qed (simp_all add: handleConnection_inv SubscribeBlocks_inv UnsubscribeBlocks_inv receive_inv)

end

text \<open>
  C2. A node keeps its state in order whatever its peers send. From a new server on a synchronised
  blockchain, after any sequence of connections with arbitrary bytes, local submissions interleaved
  with other work, subscriptions and deliveries, and with arbitrary dial results: every transaction
  of the pool lies under the hexadecimal form of its own id and once only, no peer is listed twice,
  no subscriber has more than ten waiting blocks, and the cached tip of the chain is the stored
  tip.
\<close>

theorem node_run_invariant:
  assumes "bc_synced (bolt_inv B) (bolt_tip B) bc" and "node_run (bolt_storage B) (NewServer nodeID miner bc) s"
  shows "(\<forall>k t. map_of (mempool s) k = Some t \<longrightarrow> k = hex_encode (ID t)) \<and>
    distinct (map fst (mempool s)) \<and> distinct (knownNodes s) \<and>
    (\<forall>c \<in> set (blockSubscribers s). length (ch_buf c) \<le> 10) \<and>
    bolt_tip B (db (srv_bc s)) = Some (tip (srv_bc s))"
proof -
  have "srv_inv False (bolt_inv B) (bolt_tip B) s"
    using bolt_node.node_run_inv [OF assms(2)] NewServer_inv [OF assms(1)] .
  then have "keyed tx_key (mempool s)" and rest: "distinct (knownNodes s)"
    "\<forall>c \<in> set (blockSubscribers s). length (ch_buf c) \<le> 10" "bolt_tip B (db (srv_bc s)) = Some (tip (srv_bc s))"
    by (simp_all add: srv_inv_def bc_synced_def)
  moreover from this have "k = hex_encode (ID t)" if "map_of (mempool s) k = Some t" for k t
    using keyed_lookup that by fast
  ultimately show ?thesis by (simp add: keyed_def)
qed

theorem node_run_invariant_witness:
  "\<exists>s. node_run list_storage (NewServer ''3001'' [] (sample_bc [])) s \<and> length (blockSubscribers s) = 1 \<and>
     distinct (knownNodes s)"
proof -
  let ?s = "snd (SubscribeBlocks (NewServer ''3001'' [] (sample_bc [])))"
  have r: "node_run list_storage (NewServer ''3001'' [] (sample_bc [])) ?s"
    by (intro run_subscribe run_init)
  have "length (blockSubscribers ?s) = 1" by (simp add: SubscribeBlocks_def NewServer_def)
  then show ?thesis using node_run_invariant [OF sample_bc_facts(1) r] r by blast
qed

end
