(* ===== verification/ServerProps.thy ===== *)
theory ServerProps
  imports Server
begin

text \<open>
  Properties of the peer-to-peer node: its wire format, the download of blocks, what the
  handlers of blocks and transactions do on every branch, and what they let through.
\<close>

section \<open>The wire format\<close>

text \<open>Gob decodes the messages it encoded.\<close>

definition nprims_ok :: "NPrims \<Rightarrow> bool" where
  "nprims_ok N \<longleftrightarrow>
     (\<forall>m. \<exists>d. gob_blockm N m = Some d \<and> ungob_blockm N d = Some m) \<and>
     (\<forall>m. \<exists>d. gob_getblocks N m = Some d \<and> ungob_getblocks N d = Some m) \<and>
     (\<forall>m. \<exists>d. gob_getdata N m = Some d \<and> ungob_getdata N d = Some m) \<and>
     (\<forall>m. \<exists>d. gob_inv N m = Some d \<and> ungob_inv N d = Some m) \<and>
     (\<forall>m. \<exists>d. gob_txm N m = Some d \<and> ungob_txm N d = Some m) \<and>
     (\<forall>m. \<exists>d. gob_verzion N m = Some d \<and> ungob_verzion N d = Some m)"

text \<open>The bytes of a message.\<close>

definition frame :: "string \<Rightarrow> bytes \<Rightarrow> bytes" where
  "frame c p = string_bytes c @ replicate (12 - length c) 0 @ p"

lemma send_cmd_frame: "length c \<le> 12 \<Longrightarrow> send_cmd E a c p s = (Ok (), sendData E a (frame c p) s)"
  by (simp add: send_cmd_eq frame_def)

lemma length_string_bytes [simp]: "length (string_bytes c) = length c"
  by (simp add: string_bytes_def)

lemma frame_split:
  assumes "length c \<le> 12"
  shows "12 \<le> length (frame c p)" "drop 12 (frame c p) = p"
    "take 12 (frame c p) = string_bytes c @ replicate (12 - length c) 0"
  using assms by (simp_all add: frame_def)

lemma bytesToCommand_pad:
  assumes "\<forall>x \<in> set c. of_char x \<noteq> (0 :: nat)"
  shows "bytesToCommand (string_bytes c @ replicate n 0) = c"
proof -
  have "(of_nat (of_char x) :: byte) \<noteq> 0" if "x \<in> set c" for x
  proof -
    have "unat (of_nat (of_char x) :: byte) = of_char x" using nat_of_char_less_256 [of x] by (simp add: unat_of_nat_byte)
    then show ?thesis using assms that by (metis unat_0)
  qed
  then have "filter (\<lambda>bt. bt \<noteq> 0) (string_bytes c) = string_bytes c"
    by (auto simp: string_bytes_def filter_id_conv)
  then show ?thesis by (simp add: bytesToCommand_def)
qed

lemma decode_frame:
  "length c \<le> 12 \<Longrightarrow> decode dec (frame c p) = (case dec p of Some m \<Rightarrow> Ok m | None \<Rightarrow> Error (ErrMsg ''gob: decode failed''))"
  using frame_split [of c p] by (simp add: decode_def commandLength_def)

text \<open>What was encoded with one of the codecs is decoded with it.\<close>

lemma decode_encoded:
  "length c \<le> 12 \<Longrightarrow> \<exists>d. enc m = Some d \<and> dec d = Some m \<Longrightarrow> decode dec (frame c (gobEncode (enc m))) = Ok m"
  by (auto simp: decode_frame gobEncode_def)

lemma decode_sent:
  assumes "nprims_ok N" and "length c \<le> 12"
  shows "decode (ungob_blockm N) (frame c (gobEncode (gob_blockm N mb))) = Ok mb"
    "decode (ungob_getblocks N) (frame c (gobEncode (gob_getblocks N mg))) = Ok mg"
    "decode (ungob_getdata N) (frame c (gobEncode (gob_getdata N md))) = Ok md"
    "decode (ungob_inv N) (frame c (gobEncode (gob_inv N mi))) = Ok mi"
    "decode (ungob_txm N) (frame c (gobEncode (gob_txm N mt))) = Ok mt"
    "decode (ungob_verzion N) (frame c (gobEncode (gob_verzion N mv))) = Ok mv"
  using assms unfolding nprims_ok_def by (blast intro: decode_encoded)+

text \<open>A complete frame is dispatched on its command.\<close>

lemma handleConnection_frame:
  assumes "length (frame c p) \<le> maxMsgSize" and "length c \<le> 12" and "\<forall>x \<in> set c. of_char x \<noteq> (0 :: nat)"
  shows "handleConnection E (Ok (frame c p)) s =
    (if c = ''addr'' then handleAddr E (frame c p) s
     else if c = ''block'' then handleBlock E (frame c p) s
     else if c = ''inv'' then handleInv E (frame c p) s
     else if c = ''getblocks'' then handleGetBlocks E (frame c p) s
     else if c = ''getdata'' then handleGetData E (frame c p) s
     else if c = ''tx'' then handleTx E (frame c p) s
     else if c = ''version'' then handleVersion E (frame c p) s
     else (Ok (), s))"
proof -
  have "take maxMsgSize (frame c p) = frame c p" using assms(1) by simp
  moreover have "bytesToCommand (take 12 (frame c p)) = c"
    unfolding frame_split(3) [OF assms(2)] by (rule bytesToCommand_pad [OF assms(3)])
  ultimately show ?thesis
    using frame_split(1) [OF assms(2), of p]
    by (simp only: handleConnection_def logged_def commandLength_def Let_def result.case) simp
qed


section \<open>A concrete environment\<close>

definition enc_str :: "string \<Rightarrow> bytes" where "enc_str s = enc_bytes (string_bytes s)"

definition dec_str :: "bytes \<Rightarrow> (string \<times> bytes) option" where
  "dec_str r = map_option (\<lambda>(b, r). (bytes_string b, r)) (dec_bytes r)"

lemma dec_enc_str [simp]: "dec_str (enc_str s @ r) = Some (s, r)"
  by (simp add: dec_str_def enc_str_def codecs)

lemma dec_enc_str_end [simp]: "dec_str (enc_str s) = Some (s, [])"
  using dec_enc_str [of s "[]"] by simp

definition whole_opt :: "(bytes \<Rightarrow> ('a \<times> bytes) option) \<Rightarrow> bytes \<Rightarrow> 'a option" where
  "whole_opt d bs = map_option fst (d bs)"

definition sample_nprims :: NPrims where
  "sample_nprims =
     \<lparr>gob_blockm = (\<lambda>m. Some (enc_str (block_AddrFrom m) @ enc_bytes (block_Block m))),
      gob_getblocks = (\<lambda>m. Some (enc_str (getblocks_AddrFrom m))),
      gob_getdata = (\<lambda>m. Some (enc_str (getdata_AddrFrom m) @ enc_str (getdata_Type m) @ enc_bytes (getdata_ID m))),
      gob_inv = (\<lambda>m. Some (enc_str (inv_AddrFrom m) @ enc_str (inv_Type m) @ enc_list enc_bytes (inv_Items m))),
      gob_txm = (\<lambda>m. Some (enc_str (tx_AddFrom m) @ enc_bytes (tx_Transaction m))),
      gob_verzion = (\<lambda>m. Some (enc_str (verzion_AddrFrom m) @ enc_i64 (Version m) @ enc_i64 (BestHeight m))),
      ungob_addr = (\<lambda>_. None),
      ungob_blockm = (\<lambda>d. Option.bind (dec_str d) (\<lambda>(a, r). Option.bind (dec_bytes r) (\<lambda>(b, _).
        Some \<lparr>block_AddrFrom = a, block_Block = b\<rparr>))),
      ungob_getblocks = (\<lambda>d. Option.bind (dec_str d) (\<lambda>(a, _). Some \<lparr>getblocks_AddrFrom = a\<rparr>)),
      ungob_getdata = (\<lambda>d. Option.bind (dec_str d) (\<lambda>(a, r). Option.bind (dec_str r) (\<lambda>(k, r).
        Option.bind (dec_bytes r) (\<lambda>(i, _). Some \<lparr>getdata_AddrFrom = a, getdata_Type = k, getdata_ID = i\<rparr>)))),
      ungob_inv = (\<lambda>d. Option.bind (dec_str d) (\<lambda>(a, r). Option.bind (dec_str r) (\<lambda>(k, r).
        Option.bind (dec_list dec_bytes r) (\<lambda>(is, _). Some \<lparr>inv_AddrFrom = a, inv_Type = k, inv_Items = is\<rparr>)))),
      ungob_txm = (\<lambda>d. Option.bind (dec_str d) (\<lambda>(a, r). Option.bind (dec_bytes r) (\<lambda>(b, _).
        Some \<lparr>tx_AddFrom = a, tx_Transaction = b\<rparr>))),
      ungob_verzion = (\<lambda>d. Option.bind (dec_str d) (\<lambda>(a, r). Option.bind (dec_i64 r) (\<lambda>(v, r).
        Option.bind (dec_i64 r) (\<lambda>(h, _). Some \<lparr>Version = v, BestHeight = h, verzion_AddrFrom = a\<rparr>))))\<rparr>"

lemma codecs_end:
  "dec_bytes (enc_bytes x) = Some (x, [])" "dec_i64 (enc_i64 w) = Some (w, [])"
  "dec_list dec_bytes (enc_list enc_bytes xs) = Some (xs, [])"
  using codecD [OF codec_bytes, of x "[]"] codecD [OF codec_i64, of w "[]"]
    codecD [OF codec_list [OF codec_bytes], of xs "[]"] by simp_all

lemma sample_nprims_ok: "nprims_ok sample_nprims"
  by (simp add: nprims_ok_def sample_nprims_def codecs codecs_end del: enc_list.simps)

definition sample_env :: "(bytes \<times> bytes) list buckets Env" where
  "sample_env =
     \<lparr>prims = sample_prims, nprims = sample_nprims, store = list_storage, authority_keys = [],
      dial = (\<lambda>_ _. True), pool_order = (\<lambda>m. m), utxo_order = (\<lambda>m. m),
      coinbase_rand = (\<lambda>_. Ok ''00''), clock = (\<lambda>_. 5), mining_ctx = (\<lambda>_. Background),
      mining_secs = (\<lambda>_. 1 / 2)\<rparr>"

lemma sample_env_sel [simp]:
  "prims sample_env = sample_prims" "nprims sample_env = sample_nprims" "store sample_env = list_storage"
  "pool_order sample_env = (\<lambda>m. m)" "dial sample_env = (\<lambda>_ _. True)"
  by (simp_all add: sample_env_def)

lemma sample_env_ok: "env_ok list_storage sample_env"
  by (simp add: env_ok_def)




section \<open>Blocks\<close>

text \<open>The request for a block, as it goes over the wire.\<close>

definition getdata_frame :: "'s Env \<Rightarrow> string \<Rightarrow> bytes \<Rightarrow> bytes" where
  "getdata_frame E self h = frame ''getdata''
     (gobEncode (gob_getdata (nprims E) \<lparr>getdata_AddrFrom = self, getdata_Type = ''block'', getdata_ID = h\<rparr>))"

lemma sendGetData_block:
  "sendGetData E a ''block'' h s = (Ok (), sendData E a (getdata_frame E (nodeAddress s) h) s)"
  by (simp add: sendGetData_def getdata_frame_def send_cmd_frame)

lemma net_sendData: "net (sendData E a d s) = net s @ [(a, d, dial E (net s) a)]"
  by (simp add: sendData_def Let_def)

text \<open>The state right after a block was accepted.\<close>

definition accepted :: "Block \<Rightarrow> 's Blockchain \<Rightarrow> 's Server \<Rightarrow> 's Server" where
  "accepted b bc s = drop_txs (Transactions b) ((show_height (Height b) (notifyBlock b (s\<lparr>srv_bc := bc\<rparr>)))\<lparr>miningCancel := False\<rparr>)"

lemma accepted_sel [simp]:
  "srv_bc (accepted b bc s) = bc" "blocksInTransit (accepted b bc s) = blocksInTransit s"
  "net (accepted b bc s) = net s" "nodeAddress (accepted b bc s) = nodeAddress s"
  "BlockchainHeight (prom (accepted b bc s)) = float64 (sint (Height b))" "miningCancel (accepted b bc s) = False" "blockSubscribers (accepted b bc s) = map (offer b) (blockSubscribers s)"
  "map_of (mempool (accepted b bc s)) k = (if k \<in> tx_key ` set (Transactions b) then None else map_of (mempool s) k)"
  using mempool_drop_txs [of "Transactions b" "(notifyBlock b (s\<lparr>srv_bc := bc\<rparr>))\<lparr>miningCancel := False\<rparr>" k]
  by (simp_all add: accepted_def drop_txs_def notifyBlock_def)

lemma handleBlock_eq:
  assumes "decode (ungob_blockm (nprims E)) request = Ok payload"
    and "DeserializeBlock (prims E) (block_Block payload) = Ok b"
    and "AddBlock (prims E) (store E) (authority_keys E) b (srv_bc s) = (r, bc)"
  shows "handleBlock E request s = logged r (s\<lparr>srv_bc := bc\<rparr>) (\<lambda>_.
    case blocksInTransit s of
      blockHash # rest \<Rightarrow> sendGetData E (block_AddrFrom payload) ''block'' blockHash ((accepted b bc s)\<lparr>blocksInTransit := rest\<rparr>)
    | [] \<Rightarrow> reindex_logged E (accepted b bc s))"
proof -
  have "handleBlock E request s = logged r (s\<lparr>srv_bc := bc\<rparr>) (\<lambda>_.
    case blocksInTransit (accepted b bc s) of
      blockHash # rest \<Rightarrow> sendGetData E (block_AddrFrom payload) ''block'' blockHash ((accepted b bc s)\<lparr>blocksInTransit := rest\<rparr>)
    | [] \<Rightarrow> reindex_logged E (accepted b bc s))"
    unfolding accepted_def handleBlock_def using assms by (simp add: logged_def Let_def)
  then show ?thesis by simp
qed


text \<open>A sequence of block messages from one peer, each of which the blockchain accepts.\<close>

fun downloads :: "'s Env \<Rightarrow> string \<Rightarrow> bytes list \<Rightarrow> 's Server \<Rightarrow> bool" where
  "downloads E a [] s = True"
| "downloads E a (req # reqs) s =
     ((\<exists>payload b bc. decode (ungob_blockm (nprims E)) req = Ok payload \<and> block_AddrFrom payload = a \<and>
         DeserializeBlock (prims E) (block_Block payload) = Ok b \<and>
         AddBlock (prims E) (store E) (authority_keys E) b (srv_bc s) = (Ok (), bc)) \<and>
      downloads E a reqs (snd (handleBlock E req s)))"

definition dialled :: "'s Server \<Rightarrow> (string \<times> bytes) list" where
  "dialled s = map (\<lambda>(a, d, ok). (a, d)) (net s)"

lemma downloads_order:
  assumes "downloads E a reqs s" and "length reqs \<le> length (blocksInTransit s)"
  shows "let s' = fold (\<lambda>req s. snd (handleBlock E req s)) reqs s in
    dialled s' = dialled s @ map (\<lambda>h. (a, getdata_frame E (nodeAddress s) h)) (take (length reqs) (blocksInTransit s)) \<and>
    blocksInTransit s' = drop (length reqs) (blocksInTransit s) \<and> nodeAddress s' = nodeAddress s"
  using assms
proof (induction reqs arbitrary: s)
  case Nil
  then show ?case by simp
next
  case (Cons req reqs)
  obtain payload b bc where p: "decode (ungob_blockm (nprims E)) req = Ok payload" "block_AddrFrom payload = a"
      "DeserializeBlock (prims E) (block_Block payload) = Ok b"
      "AddBlock (prims E) (store E) (authority_keys E) b (srv_bc s) = (Ok (), bc)"
    and rest: "downloads E a reqs (snd (handleBlock E req s))"
    using Cons.prems(1) by auto
  obtain h hs where hs: "blocksInTransit s = h # hs" using Cons.prems(2) by (cases "blocksInTransit s") auto
  define s1 where "s1 = (accepted b bc s)\<lparr>blocksInTransit := hs\<rparr>"
  define s2 where "s2 = snd (handleBlock E req s)"
  have s2: "s2 = sendData E a (getdata_frame E (nodeAddress s) h) s1"
    unfolding s2_def handleBlock_eq [OF p(1,3,4)] hs by (simp add: logged_def sendGetData_block s1_def p(2))
  have q: "quiet s1 s2" unfolding s2 by simp
  have f: "blocksInTransit s2 = hs" "nodeAddress s2 = nodeAddress s"
    "dialled s2 = dialled s @ [(a, getdata_frame E (nodeAddress s) h)]"
    using quiet_sel(5,6) [OF q] by (simp_all add: s1_def) (simp add: s2 net_sendData dialled_def s1_def)
  have "length reqs \<le> length (blocksInTransit s2)" using Cons.prems(2) hs f(1) by simp
  from Cons.IH [OF rest [folded s2_def] this] show ?case
    using f hs by (simp add: Let_def s2_def [symmetric])
qed

text \<open>
  The download of a chain. An inventory of blocks starts a download: the first block is asked
  at once, and as long as the peer's blocks are accepted, each block that arrives triggers
  the request for the next one, in the order of the inventory, without repetition of the first and
  until the inventory is exhausted.
\<close>

theorem block_download:
  assumes "decode (ungob_inv (nprims E)) request = Ok \<lparr>inv_AddrFrom = a, inv_Type = ''block'', inv_Items = h # hs\<rparr>"
    and "handleInv E request s = (out, s1)"
    and "downloads E a reqs s1" and "length reqs \<le> length (filter (\<lambda>b. b \<noteq> h) hs)"
  shows "let s' = fold (\<lambda>req s. snd (handleBlock E req s)) reqs s1 in
    out = Ok () \<and>
    dialled s' = dialled s @
      map (\<lambda>h. (a, getdata_frame E (nodeAddress s) h)) (h # take (length reqs) (filter (\<lambda>b. b \<noteq> h) hs)) \<and>
    blocksInTransit s' = drop (length reqs) (filter (\<lambda>b. b \<noteq> h) hs)"
proof -
  define s0 where "s0 = s\<lparr>blocksInTransit := filter (\<lambda>b. b \<noteq> h) hs\<rparr>"
  have s1: "out = Ok ()" "s1 = sendData E a (getdata_frame E (nodeAddress s) h) s0"
    using assms(1,2) by (auto simp: handleInv_def logged_def sendGetData_block s0_def)
  have q: "quiet s0 s1" unfolding s1 by simp
  have f: "blocksInTransit s1 = filter (\<lambda>b. b \<noteq> h) hs" "nodeAddress s1 = nodeAddress s"
    "dialled s1 = dialled s @ [(a, getdata_frame E (nodeAddress s) h)]"
    using quiet_sel(5,6) [OF q] by (simp_all add: s0_def) (simp add: s1(2) net_sendData dialled_def s0_def)
  show ?thesis
    using downloads_order [OF assms(3)] assms(4) s1(1) f by (simp add: Let_def)
qed

text \<open>A node whose chain knows the block that a peer sends.\<close>

definition sample_node :: "(bytes \<times> bytes) list buckets Server" where
  "sample_node = NewServer ''3001'' [] (sample_bc [sample_tx])"

lemma sample_node_sel [simp]:
  "srv_bc sample_node = sample_bc [sample_tx]" "mempool sample_node = []" "net sample_node = []"
  "nodeAddress sample_node = ''localhost:3001''" "blocksInTransit sample_node = []"
  "knownNodes sample_node = [''localhost:3000'']" "blockSubscribers sample_node = []"
  by (simp_all add: sample_node_def NewServer_def)

definition sample_block_req :: bytes where
  "sample_block_req = frame ''block'' (gobEncode (gob_blockm sample_nprims
     \<lparr>block_AddrFrom = ''peer'', block_Block = Serialize sample_prims (sample_block [])\<rparr>))"

definition sample_inv_req :: bytes where
  "sample_inv_req = frame ''inv'' (gobEncode (gob_inv sample_nprims
     \<lparr>inv_AddrFrom = ''peer'', inv_Type = ''block'', inv_Items = [[7], [8]]\<rparr>))"

lemma sample_reqs:
  "decode (ungob_blockm sample_nprims) sample_block_req =
     Ok \<lparr>block_AddrFrom = ''peer'', block_Block = Serialize sample_prims (sample_block [])\<rparr>"
  "decode (ungob_inv sample_nprims) sample_inv_req =
     Ok \<lparr>inv_AddrFrom = ''peer'', inv_Type = ''block'', inv_Items = [[7], [8]]\<rparr>"
  "DeserializeBlock sample_prims (Serialize sample_prims (sample_block [])) = Ok (sample_block [])"
proof -
  show "decode (ungob_blockm sample_nprims) sample_block_req =
     Ok \<lparr>block_AddrFrom = ''peer'', block_Block = Serialize sample_prims (sample_block [])\<rparr>"
    by (simp add: sample_block_req_def decode_frame) (simp add: sample_nprims_def gobEncode_def codecs_end)
  show "decode (ungob_inv sample_nprims) sample_inv_req =
     Ok \<lparr>inv_AddrFrom = ''peer'', inv_Type = ''block'', inv_Items = [[7], [8]]\<rparr>"
    by (simp add: sample_inv_req_def decode_frame)
      (simp add: sample_nprims_def gobEncode_def codecs_end del: enc_list.simps)
  show "DeserializeBlock sample_prims (Serialize sample_prims (sample_block [])) = Ok (sample_block [])"
    using DeserializeBlock_Serialize(2) [OF sample_gob_ok] .
qed

lemma sample_known_block:
  "AddBlock sample_prims list_storage keys (sample_block []) (sample_bc [sample_tx]) = (Ok (), sample_bc [sample_tx])"
proof -
  have "block_key [7]" by (simp add: tipKey_def string_bytes_def)
  then have "GetBlock list_storage [7] (db (sample_bc [sample_tx])) = Ok (Serialize sample_prims (sample_block [sample_tx]))"
    using bolt.get_block [of list_bbolt "db (sample_bc [sample_tx])" "[7]"] sample_bc_facts(1) [of "[sample_tx]"]
    by (simp add: bc_synced_def sample_bc_facts(2))
  then show ?thesis by (simp add: AddBlock_def)
qed


theorem block_download_witness:
  "dialled (snd (handleBlock sample_env sample_block_req (snd (handleInv sample_env sample_inv_req sample_node)))) =
     map (\<lambda>h. (''peer'', getdata_frame sample_env ''localhost:3001'' h)) [[7], [8]]"
proof -
  obtain out s1 where h: "handleInv sample_env sample_inv_req sample_node = (out, s1)" by fastforce
  have i: "decode (ungob_inv (nprims sample_env)) sample_inv_req =
      Ok \<lparr>inv_AddrFrom = ''peer'', inv_Type = ''block'', inv_Items = [7] # [[8]]\<rparr>"
    by (simp add: sample_reqs)
  then have "srv_bc s1 = sample_bc [sample_tx]"
    using h quiet_sel(2) [OF sendData_quiet, of sample_env]
    by (auto simp: handleInv_def logged_def sendGetData_block)
  then have d: "downloads sample_env ''peer'' [sample_block_req] s1"
    using sample_known_block sample_reqs by (auto simp: sample_env_def)
  have len: "length [sample_block_req] \<le> length (filter (\<lambda>b. b \<noteq> [7]) [[8 :: byte]])" by simp
  from block_download [OF i h d len] h show ?thesis by (simp add: dialled_def Let_def)
qed

section \<open>Transactions\<close>

lemma SubmitTransaction_cases:
  "let k = tx_key tx; fresh = map_of (mempool s) k = None;
       ok = fresh \<and> VerifyTransaction (prims E) (store E) (srv_bc s) tx = Ok True \<and> map_of (mempool (others s)) k = None
   in if ok then fst (SubmitTransaction E others tx s) = Ok () \<and>
        map_of (mempool (snd (SubmitTransaction E others tx s))) = (map_of (mempool (others s)))(k \<mapsto> tx)
      else fst (SubmitTransaction E others tx s) \<noteq> Ok () \<and>
        snd (SubmitTransaction E others tx s) = (if fresh then others s else s)"
proof -
  have send: "fst (SendTxToKnownNodes E tx t) = Ok () \<and> mempool (snd (SendTxToKnownNodes E tx t)) = mempool t" for t
    using sends_SendTxToKnownNodes [of E tx] quiet_sel(1) unfolding sends_def by blast
  show ?thesis
    using send [of "pool_tx tx (others s)"]
    by (cases "VerifyTransaction (prims E) (store E) (srv_bc s) tx")
      (auto simp: SubmitTransaction_def Let_def update_conv')
qed



text \<open>
  Money out of nothing. Verification accepts every transaction that has the shape of a coinbase,
  whatever it pays and to whom: such a transaction enters the pool through \<open>SubmitTransaction\<close>, and
  a block with any number of them passes the check before mining. The reward of ten is a
  convention of \<open>NewCoinbaseTX\<close> that no check enforces.
\<close>

theorem forged_coinbase:
  assumes "IsCoinbase tx" and "map_of (mempool s) (hex_encode (ID tx)) = None"
  shows "fst (SubmitTransaction E (\<lambda>s. s) (tx\<lparr>Vout := outs\<rparr>) s) = Ok () \<and>
    map_of (mempool (snd (SubmitTransaction E (\<lambda>s. s) (tx\<lparr>Vout := outs\<rparr>) s))) (hex_encode (ID tx)) = Some (tx\<lparr>Vout := outs\<rparr>) \<and>
    verify_all P S bc (replicate n (tx\<lparr>Vout := outs\<rparr>)) = Ok ()"
proof -
  let ?t = "tx\<lparr>Vout := outs\<rparr>"
  have cb: "IsCoinbase ?t" using assms(1) by (simp add: IsCoinbase_def)
  have "fst (SendTxToKnownNodes E ?t (pool_tx ?t s)) = Ok ()"
    "mempool (snd (SendTxToKnownNodes E ?t (pool_tx ?t s))) = mempool (pool_tx ?t s)"
    using sends_SendTxToKnownNodes [of E ?t] quiet_sel(1) unfolding sends_def by blast+
  moreover have "SubmitTransaction E (\<lambda>s. s) ?t s = SendTxToKnownNodes E ?t (pool_tx ?t s)"
    using assms(2) cb by (simp add: SubmitTransaction_def VerifyTransaction_def)
  moreover have "verify_all P S bc (replicate n ?t) = Ok ()"
    using cb by (simp add: verify_all_Ok VerifyTransaction_def list_all_iff)
  ultimately show ?thesis by (simp add: update_conv')
qed

theorem forged_coinbase_witness:
  "fst (SubmitTransaction sample_env (\<lambda>s. s) (sample_coinbase\<lparr>Vout := [sample_out 1000000 0]\<rparr>) sample_node) = Ok ()"
proof -
  have "IsCoinbase sample_coinbase" by (simp add: IsCoinbase_def sample_coinbase_def)
  then show ?thesis
    using forged_coinbase [of sample_coinbase sample_node sample_env "[sample_out 1000000 0]" sample_prims list_storage "sample_bc []" 0]
    by simp
qed

lemma collect_valid_panics:
  assumes "\<forall>(k, t) \<in> set pool. VerifyTransaction (prims E) (store E) bc t \<noteq> Diverge"
    and "(k, tx) \<in> set pool" and "VerifyTransaction (prims E) (store E) bc tx = Panic m"
  shows "\<exists>m. collect_valid E bc pool = Panic m"
  using assms(1,2)
proof (induction pool)
  case (Cons p pool)
  obtain k' t where p: "p = (k', t)" by fastforce
  show ?case
  proof (cases "VerifyTransaction (prims E) (store E) bc t")
    case (Panic m')
    then show ?thesis by (simp add: p)
  next
    case Diverge
    then show ?thesis using Cons.prems(1) p by simp
  next
    case (Ok v)
    then have "(k, tx) \<in> set pool" using Cons.prems(2) p assms(3) by auto
    then show ?thesis using Cons Ok p by auto
  next
    case (Error e)
    then have "(k, tx) \<in> set pool" using Cons.prems(2) p assms(3) by auto
    then show ?thesis using Cons Error p by auto
  qed
qed simp


definition bad_spend :: Transaction where
  "bad_spend = \<lparr>ID = [3], Vin = [\<lparr>Txid = [1], Vout_in = 5, Signature = [], PubKey = [],
     EscrowWitness = [], IsRefund = False\<rparr>], Vout = [sample_out 1 0]\<rparr>"

definition bad_spend_req :: bytes where
  "bad_spend_req = frame ''tx'' (gobEncode (gob_txm sample_nprims
     \<lparr>tx_AddFrom = ''peer'', tx_Transaction = Serialize_tx sample_prims bad_spend\<rparr>))"

definition mining_node :: "(bytes \<times> bytes) list buckets Server" where
  "mining_node = (NewServer ''3001'' ''miner'' (paid_bc (sample_out 10 0)))\<lparr>mempool := [(''09'', sample_coinbase)]\<rparr>"


section \<open>Metrics\<close>



end
