(* ===== verification/Firewall.thy ===== *)
theory Firewall
  imports Transaction
begin

text \<open>
  The spending firewall of the agent daemon: \<^verbatim>\<open>internal/firewall/policy.go\<close>,
  \<^verbatim>\<open>internal/firewall/passkey.go\<close> and \<^verbatim>\<open>internal/firewall/firewall.go\<close>. A policy is signed
  over its JSON text without the signature fields; the firewall keeps what was spent in the
  session and a window of recent payments. Times are nanoseconds; the clock reading is the
  argument \<open>now\<close>. JSON and the file system are parameters.
\<close>

section \<open>Policies\<close>

record Policy =
  Version :: int64
  SessionBudget :: int64
  MaxPerTransaction :: int64
  Rolling24hBudget :: int64
  MaxTxPerHour :: int64
  AllowedRecipients :: "string list"
  NodeGRPCAddress :: string
  PersistentKeyPath :: string
  PolicySignature :: string
  SignaturePublicKey :: string

text \<open>\<^verbatim>\<open>json.Marshal\<close> of a policy, the strict decoder, and \<^verbatim>\<open>os.ReadFile\<close>.\<close>

record JPrims =
  json_Marshal :: "Policy \<Rightarrow> bytes result"
  json_Decode :: "bytes \<Rightarrow> Policy result"
  ReadFile :: "string \<Rightarrow> bytes result"

definition CanonicalHash :: "Prims \<Rightarrow> JPrims \<Rightarrow> Policy \<Rightarrow> bytes result" where
  "CanonicalHash P J p =
     bind_result (wrap_err ''failed to marshal policy for hashing''
         (json_Marshal J (p\<lparr>PolicySignature := [], SignaturePublicKey := []\<rparr>)))
       (\<lambda>data. Ok (sha256 P data))"

definition SignPolicy :: "Prims \<Rightarrow> JPrims \<Rightarrow> nat \<Rightarrow> PrivateKey \<Rightarrow> Policy \<Rightarrow> unit result \<times> Policy" where
  "SignPolicy P J rnd privKey policy =
     (case bind_result (CanonicalHash P J policy) (\<lambda>hash.
           bind_result (wrap_err ''failed to sign policy'' (ecdsa_sign P privKey hash rnd)) (\<lambda>(r, s).
           bind_result (FillBytes 32 r) (\<lambda>rBytes.
           bind_result (FillBytes 32 s) (\<lambda>sBytes.
           bind_result (FillBytes 32 (key_X privKey)) (\<lambda>xBytes.
           bind_result (FillBytes 32 (key_Y privKey)) (\<lambda>yBytes.
             Ok (rBytes @ sBytes, xBytes @ yBytes))))))) of
        Ok (sigBytes, pubBytes) \<Rightarrow>
          (Ok (), policy\<lparr>PolicySignature := hex_encode sigBytes, SignaturePublicKey := hex_encode pubBytes\<rparr>)
      | r \<Rightarrow> (as_failure r, policy))"

definition VerifyPolicySignature :: "Prims \<Rightarrow> JPrims \<Rightarrow> Policy \<Rightarrow> unit result" where
  "VerifyPolicySignature P J policy =
     (if PolicySignature policy = [] \<or> SignaturePublicKey policy = []
      then Error (ErrMsg ''missing signature or public key'')
      else
        case hex_decode (PolicySignature policy) of
          Ok sigBytes \<Rightarrow>
            (if length sigBytes \<noteq> 64 then Error (ErrMsg ''invalid signature format'')
             else
               case hex_decode (SignaturePublicKey policy) of
                 Ok pubBytes \<Rightarrow>
                   (if length pubBytes \<noteq> 64 then Error (ErrMsg ''invalid public key format'')
                    else
                      bind_result (wrap_err ''failed to generate canonical hash'' (CanonicalHash P J policy)) (\<lambda>hash.
                        if \<not> ecdsa_verify P (SetBytes (take 32 pubBytes), SetBytes (drop 32 pubBytes)) hash
                               (SetBytes (take 32 sigBytes), SetBytes (drop 32 sigBytes))
                        then Error (ErrMsg ''cryptographic signature verification failed'')
                        else Ok ()))
               | r \<Rightarrow> Error (ErrMsg ''invalid public key format''))
        | r \<Rightarrow> Error (ErrMsg ''invalid signature format''))"

definition LoadAndVerify :: "Prims \<Rightarrow> JPrims \<Rightarrow> string \<Rightarrow> Policy result" where
  "LoadAndVerify P J path =
     bind_result (wrap_err ''failed to read policy file'' (ReadFile J path)) (\<lambda>data.
     bind_result (wrap_err ''failed to parse policy json'' (json_Decode J data)) (\<lambda>p.
       if PolicySignature p = [] \<or> SignaturePublicKey p = []
       then Panic ''FATAL: Policy file is missing signature or public key. Firewall locked.''
       else
         case VerifyPolicySignature P J p of
           Error e \<Rightarrow> Panic ''FATAL: Policy signature verification failed. Firewall locked.''
         | Ok _ \<Rightarrow> Ok p
         | r \<Rightarrow> as_failure r))"

section \<open>The firewall\<close>

definition MaxTransactionValueLimit :: int64 where "MaxTransactionValueLimit = 100000000000"

record LedgerEntry =
  entry_Timestamp :: int
  entry_Amount :: int64
  entry_TxID :: string

record Firewall =
  policy :: Policy
  rollingWindow :: "LedgerEntry list"
  sessionSpent :: int64

definition NewFirewall :: "Policy \<Rightarrow> Firewall" where
  "NewFirewall p = \<lparr>policy = p, rollingWindow = [], sessionSpent = 0\<rparr>"

definition GetSessionStats :: "Firewall \<Rightarrow> int64 \<times> int64" where
  "GetSessionStats fw = (SessionBudget (policy fw), sessionSpent fw)"

abbreviation hour :: int where "hour \<equiv> 3600 * 10 ^ 9"

text \<open>The loop over the window: entries of the last day, their sum, and how many of the last hour.\<close>

fun window_loop :: "int \<Rightarrow> int \<Rightarrow> LedgerEntry list \<Rightarrow> LedgerEntry list \<times> int64 \<times> nat \<Rightarrow> LedgerEntry list \<times> int64 \<times> nat" where
  "window_loop cutoff24h cutoff1h [] st = st"
| "window_loop cutoff24h cutoff1h (entry # es) (validEntries, rolling24hTotal, txCountLastHour) =
     window_loop cutoff24h cutoff1h es
       (if entry_Timestamp entry > cutoff24h
        then (validEntries @ [entry], rolling24hTotal + entry_Amount entry,
              if entry_Timestamp entry > cutoff1h then txCountLastHour + 1 else txCountLastHour)
        else (validEntries, rolling24hTotal, txCountLastHour))"

definition Evaluate :: "int \<Rightarrow> int64 \<Rightarrow> string \<Rightarrow> Firewall \<Rightarrow> (bool \<times> string) \<times> Firewall" where
  "Evaluate now amount recipient fw =
     (if sint amount > sint MaxTransactionValueLimit
      then ((False, ''amount exceeds hardcoded safety limit ('' @ fmt_d (sint MaxTransactionValueLimit) @ '')''), fw)
      else if sint amount > sint (MaxPerTransaction (policy fw))
      then ((False, ''amount exceeds per-transaction limit ('' @ fmt_d (sint (MaxPerTransaction (policy fw))) @ '')''), fw)
      else if sint (sessionSpent fw + amount) > sint (SessionBudget (policy fw))
      then ((False, ''amount exceeds remaining session budget ('' @
              fmt_d (sint (SessionBudget (policy fw) - sessionSpent fw)) @ '' out of '' @
              fmt_d (sint (SessionBudget (policy fw))) @ '' remaining)''), fw)
      else
        let cutoff24h = now - 24 * hour;
            cutoff1h = now - hour;
            (validEntries, rolling24hTotal, txCountLastHour) = window_loop cutoff24h cutoff1h (rollingWindow fw) ([], 0, 0);
            fw = fw\<lparr>rollingWindow := validEntries\<rparr>
        in
        if sint (rolling24hTotal + amount) > sint (Rolling24hBudget (policy fw))
        then ((False, ''amount exceeds rolling 24h budget ('' @
                fmt_d (sint (Rolling24hBudget (policy fw) - rolling24hTotal)) @ '' out of '' @
                fmt_d (sint (Rolling24hBudget (policy fw))) @ '' remaining)''), fw)
        else if int txCountLastHour \<ge> sint (MaxTxPerHour (policy fw))
        then ((False, ''rate limit exceeded ('' @ fmt_d (sint (MaxTxPerHour (policy fw))) @ '' tx/hour)''), fw)
        else if AllowedRecipients (policy fw) \<noteq> [] \<and> recipient \<notin> set (AllowedRecipients (policy fw))
        then ((False, ''recipient '' @ recipient @ '' is not in the allowlist''), fw)
        else ((True, []), fw))"

definition RecordTransaction :: "int \<Rightarrow> int64 \<Rightarrow> string \<Rightarrow> Firewall \<Rightarrow> Firewall" where
  "RecordTransaction now amount txID fw =
     fw\<lparr>sessionSpent := sessionSpent fw + amount,
        rollingWindow := rollingWindow fw @
          [\<lparr>entry_Timestamp = now, entry_Amount = amount, entry_TxID = txID\<rparr>]\<rparr>"

section \<open>Lemmas\<close>

definition recent :: "int \<Rightarrow> LedgerEntry list \<Rightarrow> LedgerEntry list" where
  "recent cutoff es = filter (\<lambda>e. entry_Timestamp e > cutoff) es"

lemma window_loop_eq:
  "c24 \<le> c1 \<Longrightarrow> window_loop c24 c1 es (v, t, n) =
     (v @ recent c24 es, t + sum_list (map entry_Amount (recent c24 es)), n + length (recent c1 es))"
  by (induction es arbitrary: v t n) (auto simp: recent_def add.assoc)

lemma Evaluate_eq:
  "Evaluate now amount to fw =
     (let day = recent (now - 24 * hour) (rollingWindow fw); p = policy fw;
          fst_ok = sint amount \<le> 10 ^ 11 \<and> sint amount \<le> sint (MaxPerTransaction p) \<and>
            sint (sessionSpent fw + amount) \<le> sint (SessionBudget p)
      in ((fst_ok \<and> sint (sum_list (map entry_Amount day) + amount) \<le> sint (Rolling24hBudget p) \<and>
           int (length (recent (now - hour) (rollingWindow fw))) < sint (MaxTxPerHour p) \<and>
           (AllowedRecipients p = [] \<or> to \<in> set (AllowedRecipients p)), snd (fst (Evaluate now amount to fw))),
          if fst_ok then fw\<lparr>rollingWindow := day\<rparr> else fw))"
  by (simp add: Evaluate_def Let_def window_loop_eq MaxTransactionValueLimit_def)

lemma Evaluate_keeps:
  "policy (snd (Evaluate now amount to fw)) = policy fw"
  "sessionSpent (snd (Evaluate now amount to fw)) = sessionSpent fw"
  by (subst Evaluate_eq, simp add: Let_def)+

text \<open>
  The states of a session in which every accepted payment is recorded before the next check.
\<close>

inductive fw_reach :: "Policy \<Rightarrow> Firewall \<Rightarrow> bool" for p where
  fw_start: "fw_reach p (NewFirewall p)"
| fw_check: "fw_reach p fw \<Longrightarrow> fw_reach p (snd (Evaluate now amount to fw))"
| fw_spend: "fw_reach p fw \<Longrightarrow> Evaluate now amount to fw = ((True, m), fw') \<Longrightarrow> 0 \<le> sint amount \<Longrightarrow>
    fw_reach p (RecordTransaction now' amount txID fw')"

lemma Evaluate_acceptedD:
  assumes "Evaluate now amount to fw = ((True, m), fw')"
  shows "sint amount \<le> 10 ^ 11" and "sint amount \<le> sint (MaxPerTransaction (policy fw))"
    and "sint (sessionSpent fw + amount) \<le> sint (SessionBudget (policy fw))"
    and "fw' = fw\<lparr>rollingWindow := recent (now - 24 * hour) (rollingWindow fw)\<rparr>"
proof -
  have acc: "fst (fst (Evaluate now amount to fw))" using assms by simp
  then show "sint amount \<le> 10 ^ 11" "sint amount \<le> sint (MaxPerTransaction (policy fw))"
    "sint (sessionSpent fw + amount) \<le> sint (SessionBudget (policy fw))"
    by (subst (asm) Evaluate_eq, simp add: Let_def)+
  from acc have "snd (Evaluate now amount to fw) = fw\<lparr>rollingWindow := recent (now - 24 * hour) (rollingWindow fw)\<rparr>"
    by (subst (asm) Evaluate_eq, subst Evaluate_eq, simp add: Let_def)
  then show "fw' = fw\<lparr>rollingWindow := recent (now - 24 * hour) (rollingWindow fw)\<rparr>" using assms by simp
qed

lemma fw_reach_inv:
  assumes "fw_reach p fw" and "0 \<le> sint (SessionBudget p)" and "sint (SessionBudget p) < 2 ^ 63 - 10 ^ 11"
  shows "policy fw = p \<and> 0 \<le> sint (sessionSpent fw) \<and> sint (sessionSpent fw) \<le> sint (SessionBudget p)"
  using assms(1)
proof (induction rule: fw_reach.induct)
  case fw_start
  then show ?case using assms(2) by (simp add: NewFirewall_def)
next
  case (fw_check fw now amount to)
  then show ?case by (simp add: Evaluate_keeps)
next
  case (fw_spend fw now amount to m fw' now' txID)
  note e = Evaluate_acceptedD [OF fw_spend.hyps(2)]
  have "sint (sessionSpent fw + amount) = sint (sessionSpent fw) + sint amount"
    using fw_spend.IH fw_spend.hyps(3) e(1) assms(3) by (intro sint_add64) auto
  then show ?case using fw_spend.IH fw_spend.hyps(3) e by (simp add: RecordTransaction_def)
qed

section \<open>The contract with the callers\<close>

text \<open>
  A guard that is asked before every payment and told about every payment it accepted. \<open>safe\<close> is what
  the guard promises to keep; a caller that asks first keeps it whatever it is asked for.
\<close>

locale spend_guard =
  fixes check :: "int \<Rightarrow> int64 \<Rightarrow> string \<Rightarrow> 'f \<Rightarrow> (bool \<times> string) \<times> 'f"
    and pay :: "int \<Rightarrow> int64 \<Rightarrow> string \<Rightarrow> 'f \<Rightarrow> 'f"
    and safe :: "'f \<Rightarrow> bool"
  assumes check_safe: "safe f \<Longrightarrow> safe (snd (check now a to f))"
    and pay_safe: "safe f \<Longrightarrow> check now a to f = ((True, m), f') \<Longrightarrow> safe (pay now' a i f')"
begin

lemma spend_safe:
  assumes "safe f" and "check now a to f = ((ok, m), f')"
  shows "safe (if ok then pay now' a i f' else f')"
  using assms check_safe [OF assms(1), of now a to] pay_safe [OF assms(1), of now a to m f' now' i] by (cases ok) auto

end

text \<open>What the firewall keeps whatever the amounts are: policy, session budget, and the caps of each payment.\<close>

definition fw_safe :: "Policy \<Rightarrow> Firewall \<Rightarrow> bool" where
  "fw_safe p f \<longleftrightarrow> policy f = p \<and> sint (sessionSpent f) \<le> sint (SessionBudget p) \<and>
     (\<forall>e \<in> set (rollingWindow f). sint (entry_Amount e) \<le> 10 ^ 11 \<and> sint (entry_Amount e) \<le> sint (MaxPerTransaction p))"

lemma NewFirewall_safe: "0 \<le> sint (SessionBudget p) \<Longrightarrow> fw_safe p (NewFirewall p)"
  by (simp add: fw_safe_def NewFirewall_def)

interpretation fw_guard: spend_guard Evaluate RecordTransaction "fw_safe p"
proof unfold_locales
  fix f now a to
  assume "fw_safe p f"
  moreover have "snd (Evaluate now a to f) = f \<or> snd (Evaluate now a to f) = f\<lparr>rollingWindow := recent (now - 24 * hour) (rollingWindow f)\<rparr>"
    by (subst (1 2) Evaluate_eq) (simp add: Let_def)
  ultimately show "fw_safe p (snd (Evaluate now a to f))"
    by (elim disjE) (auto simp: fw_safe_def recent_def)
next
  fix f now a to m f' now' i
  assume f: "fw_safe p f" and e: "Evaluate now a to f = ((True, m), f')"
  show "fw_safe p (RecordTransaction now' a i f')"
    using f Evaluate_acceptedD [OF e] by (auto simp: fw_safe_def RecordTransaction_def recent_def)
qed

section \<open>Concrete policies\<close>

definition sample_policy :: Policy where
  "sample_policy = \<lparr>Version = 1, SessionBudget = 10, MaxPerTransaction = 10, Rolling24hBudget = 100,
     MaxTxPerHour = 5, AllowedRecipients = [], NodeGRPCAddress = [], PersistentKeyPath = [],
     PolicySignature = [], SignaturePublicKey = []\<rparr>"

definition sample_json :: JPrims where
  "sample_json = \<lparr>json_Marshal = (\<lambda>p. Ok (string_bytes (fmt_d (sint (SessionBudget p))))),
     json_Decode = (\<lambda>d. Ok sample_policy), ReadFile = (\<lambda>f. Ok [])\<rparr>"

section \<open>Properties\<close>

text \<open>
  C30. \<open>Evaluate\<close> accepts a payment exactly when all six rules hold: the compiled-in limit of
  \<open>10 ^ 11\<close>, the cap per transaction, the session budget, the budget of the last 24 hours, the
  number of payments in the last hour, and the list of recipients unless it is empty. All it
  changes is that the window drops entries older than 24 hours; budget and spent sum stay.
\<close>

theorem Evaluate_spec:
  "(fst (fst (Evaluate now amount to fw)) \<longleftrightarrow>
     sint amount \<le> 10 ^ 11 \<and> sint amount \<le> sint (MaxPerTransaction (policy fw)) \<and>
     sint (sessionSpent fw + amount) \<le> sint (SessionBudget (policy fw)) \<and>
     sint (sum_list (map entry_Amount (recent (now - 24 * hour) (rollingWindow fw))) + amount)
       \<le> sint (Rolling24hBudget (policy fw)) \<and>
     int (length (recent (now - hour) (rollingWindow fw))) < sint (MaxTxPerHour (policy fw)) \<and>
     (AllowedRecipients (policy fw) = [] \<or> to \<in> set (AllowedRecipients (policy fw)))) \<and>
   GetSessionStats (snd (Evaluate now amount to fw)) = GetSessionStats fw \<and>
   (rollingWindow (snd (Evaluate now amount to fw)) = rollingWindow fw \<or>
    rollingWindow (snd (Evaluate now amount to fw)) = recent (now - 24 * hour) (rollingWindow fw))"
proof (intro conjI)
  show "fst (fst (Evaluate now amount to fw)) \<longleftrightarrow>
     sint amount \<le> 10 ^ 11 \<and> sint amount \<le> sint (MaxPerTransaction (policy fw)) \<and>
     sint (sessionSpent fw + amount) \<le> sint (SessionBudget (policy fw)) \<and>
     sint (sum_list (map entry_Amount (recent (now - 24 * hour) (rollingWindow fw))) + amount)
       \<le> sint (Rolling24hBudget (policy fw)) \<and>
     int (length (recent (now - hour) (rollingWindow fw))) < sint (MaxTxPerHour (policy fw)) \<and>
     (AllowedRecipients (policy fw) = [] \<or> to \<in> set (AllowedRecipients (policy fw)))"
    by (subst Evaluate_eq) (simp add: Let_def)
  show "GetSessionStats (snd (Evaluate now amount to fw)) = GetSessionStats fw"
    by (simp add: GetSessionStats_def Evaluate_keeps)
  have "snd (Evaluate now amount to fw) = fw \<or>
      snd (Evaluate now amount to fw) = fw\<lparr>rollingWindow := recent (now - 24 * hour) (rollingWindow fw)\<rparr>"
    by (subst (1 2) Evaluate_eq) (simp add: Let_def)
  then show "rollingWindow (snd (Evaluate now amount to fw)) = rollingWindow fw \<or>
    rollingWindow (snd (Evaluate now amount to fw)) = recent (now - 24 * hour) (rollingWindow fw)"
    by (elim disjE) simp_all
qed

text \<open>
  The session budget is kept: in every state of a session in which payments are not
  negative and every accepted payment is recorded before the next check, the spent sum is
  between 0 and the budget of the policy. The budget has to leave room for one maximal payment
  below the 64-bit bound.
\<close>

theorem session_budget_kept:
  assumes "fw_reach p fw" and "0 \<le> sint (SessionBudget p)" and "sint (SessionBudget p) < 2 ^ 63 - 10 ^ 11"
  shows "GetSessionStats fw = (SessionBudget p, sessionSpent fw) \<and>
    0 \<le> sint (sessionSpent fw) \<and> sint (sessionSpent fw) \<le> sint (SessionBudget p)"
  using fw_reach_inv [OF assms] by (simp add: GetSessionStats_def)

theorem session_budget_kept_witness:
  "\<exists>fw. fw_reach sample_policy fw \<and> sessionSpent fw = 7 \<and> sint (sessionSpent fw) \<le> 10"
proof -
  obtain m fw' where e: "Evaluate 0 7 [] (NewFirewall sample_policy) = ((True, m), fw')"
    by (simp add: Evaluate_def NewFirewall_def sample_policy_def MaxTransactionValueLimit_def Let_def)
  define fw where "fw = RecordTransaction 0 7 [] fw'"
  have r: "fw_reach sample_policy fw"
    unfolding fw_def by (rule fw_spend [OF fw_start e]) simp
  have "sessionSpent fw = 7"
    using Evaluate_acceptedD(4) [OF e] by (simp add: fw_def RecordTransaction_def NewFirewall_def)
  moreover have "sint (sessionSpent fw) \<le> 10"
    using session_budget_kept [OF r] by (simp add: sample_policy_def)
  ultimately show ?thesis using r by blast
qed

text \<open>
  The two conditions are needed. Check and record are separate calls: when two payments are
  both checked before either is recorded, both are accepted and the spent sum exceeds the
  budget. And a negative amount is accepted, and recording it makes room in the budget.
\<close>

theorem firewall_gaps:
  "(\<exists>fw1 fw2 m1 m2. Evaluate 0 10 [] (NewFirewall sample_policy) = ((True, m1), fw1) \<and>
      Evaluate 0 10 [] fw1 = ((True, m2), fw2) \<and>
      sint (sessionSpent (RecordTransaction 0 10 [] (RecordTransaction 0 10 [] fw2))) = 20 \<and>
      sint (SessionBudget (policy fw2)) = 10) \<and>
   (\<exists>fw1 m1. Evaluate 0 (-5) [] (NewFirewall sample_policy) = ((True, m1), fw1) \<and>
      sint (sessionSpent (RecordTransaction 0 (-5) [] fw1)) = -5)"
  by (simp add: Evaluate_def NewFirewall_def sample_policy_def MaxTransactionValueLimit_def Let_def
      RecordTransaction_def)

text \<open>
  A policy that \<open>SignPolicy\<close> signed verifies, keeps all its limits, and \<open>LoadAndVerify\<close> returns it
  when the file decodes to it. This holds for every working key: the key that verifies the
  policy is the one the policy itself names. A policy without a signature makes \<open>LoadAndVerify\<close>
  panic.
\<close>

theorem SignPolicy_verifies:
  assumes "ecdsa_ok P k" and "json_Marshal J (p\<lparr>PolicySignature := [], SignaturePublicKey := []\<rparr>) = Ok d"
  shows "\<exists>p'. SignPolicy P J rnd k p = (Ok (), p') \<and> VerifyPolicySignature P J p' = Ok () \<and>
    p'\<lparr>PolicySignature := [], SignaturePublicKey := []\<rparr> = p\<lparr>PolicySignature := [], SignaturePublicKey := []\<rparr> \<and>
    (ReadFile J path = Ok file \<and> json_Decode J file = Ok p' \<longrightarrow> LoadAndVerify P J path = Ok p') \<and>
    (ReadFile J path = Ok file \<and> json_Decode J file = Ok (p'\<lparr>PolicySignature := []\<rparr>) \<longrightarrow>
       (\<exists>m. LoadAndVerify P J path = Panic m))"
proof -
  obtain r s rb sb where sg: "ecdsa_sign P k (sha256 P d) rnd = Ok (r, s)" "FillBytes 32 r = Ok rb"
    "FillBytes 32 s = Ok sb" "sig_by P k (sha256 P d) (rb @ sb)"
    using sign_once [OF assms(1)] .
  obtain xb yb where xy: "FillBytes 32 (key_X k) = Ok xb" "length xb = 32" "SetBytes xb = key_X k"
    "FillBytes 32 (key_Y k) = Ok yb" "length yb = 32" "SetBytes yb = key_Y k"
    using assms(1) FillBytes_32 unfolding ecdsa_ok_def by metis
  define p' where "p' = p\<lparr>PolicySignature := hex_encode (rb @ sb), SignaturePublicKey := hex_encode (xb @ yb)\<rparr>"
  have h: "CanonicalHash P J p = Ok (sha256 P d)" "CanonicalHash P J p' = Ok (sha256 P d)"
    using assms(2) by (simp_all add: CanonicalHash_def p'_def)
  have "SignPolicy P J rnd k p = (Ok (), p')"
    using sg xy h(1) by (simp add: SignPolicy_def p'_def)
  moreover have ne: "hex_encode (rb @ sb) \<noteq> []" "hex_encode (xb @ yb) \<noteq> []"
    using sg(4) xy(2) by (auto simp: sig_by_def simp flip: length_0_conv)
  moreover have v: "VerifyPolicySignature P J p' = Ok ()"
    using sg(4) xy h(2) ne by (simp add: VerifyPolicySignature_def p'_def sig_by_def)
  moreover have "LoadAndVerify P J path = Ok p'" if "ReadFile J path = Ok file" "json_Decode J file = Ok p'"
    using that v ne by (simp add: LoadAndVerify_def) (simp add: p'_def)
  moreover have "\<exists>m. LoadAndVerify P J path = Panic m"
    if "ReadFile J path = Ok file" "json_Decode J file = Ok (p'\<lparr>PolicySignature := []\<rparr>)"
    using that by (simp add: LoadAndVerify_def)
  ultimately show ?thesis by (auto simp: p'_def)
qed

theorem SignPolicy_verifies_witness:
  "\<exists>p'. SignPolicy sample_prims sample_json 0 (sample_key 5) sample_policy = (Ok (), p') \<and>
     VerifyPolicySignature sample_prims sample_json p' = Ok ()"
proof -
  have "json_Marshal sample_json (sample_policy\<lparr>PolicySignature := [], SignaturePublicKey := []\<rparr>) = Ok (string_bytes (fmt_d 10))"
    by (simp add: sample_json_def sample_policy_def)
  moreover have "ecdsa_ok sample_prims (sample_key 5)" by simp
  ultimately show ?thesis using SignPolicy_verifies [of sample_prims "sample_key 5" sample_json sample_policy _ 0] by blast
qed

end
