(* ===== verification/Mcp.thy ===== *)
theory Mcp
  imports Firewall Wallet Float64
begin

text \<open>
  The agent daemon of \<^verbatim>\<open>internal/mcp\<close>: it reads JSON-RPC requests line by line, keeps session wallets
  in a keyring, and asks the spending firewall before it records a payment (\<^verbatim>\<open>jsonrpc.go\<close>,
  \<^verbatim>\<open>keyring.go\<close>, \<^verbatim>\<open>mcp.go\<close>, \<^verbatim>\<open>tools.go\<close>).

  What one request takes from its surroundings is the record \<open>McpEnv\<close>: the JSON decoders and the
  encoder, the clock, a generated key, and the answers of the node behind the gRPC client. The log
  is left out, and the output stream is the list of lines handed to it.
\<close>

section \<open>jsonrpc.go\<close>

definition ParseError :: int where "ParseError = -32700"
definition InvalidRequest :: int where "InvalidRequest = -32600"
definition MethodNotFound :: int where "MethodNotFound = -32601"
definition InvalidParams :: int where "InvalidParams = -32602"
definition InternalError :: int where "InternalError = -32603"

text \<open>A decoded JSON value; a number is a 64-bit float, hence a rational.\<close>

datatype json =
  JNull | JBool bool | JNum rat | JStr string | JArr "json list" | JObj "(string \<times> json) list"

record Request =
  req_JSONRPC :: string
  req_ID :: json
  req_Method :: string
  req_Params :: bytes

record rpc_error =
  Code :: int
  Message :: string
  Data :: "string option"

record InitializeResult =
  ProtocolVersion :: string
  Capabilities :: json
  ServerInfo_Name :: string
  ServerInfo_Version :: string

record Tool =
  Tool_Name :: string
  Tool_Description :: string
  Schema_Type :: string
  Schema_Properties :: "(string \<times> (string \<times> string) list) list"
  Schema_Required :: "string list"

record CallToolParams =
  Call_Name :: string
  Arguments :: "(string \<times> json) list"

record CallToolResult =
  Content :: "(string \<times> string) list list"
  IsError :: bool

text \<open>The values that are sent as results.\<close>

datatype rpc_result = InitResult InitializeResult | ToolsResult "Tool list" | CallResult CallToolResult

record Response =
  resp_JSONRPC :: string
  resp_ID :: json
  resp_Result :: "rpc_result option"
  resp_Error :: "rpc_error option"

definition NewResponse :: "json \<Rightarrow> rpc_result \<Rightarrow> Response" where
  "NewResponse i result = \<lparr>resp_JSONRPC = ''2.0'', resp_ID = i, resp_Result = Some result, resp_Error = None\<rparr>"

definition NewErrorResponse :: "json \<Rightarrow> int \<Rightarrow> string \<Rightarrow> string option \<Rightarrow> Response" where
  "NewErrorResponse i code message data =
     \<lparr>resp_JSONRPC = ''2.0'', resp_ID = i, resp_Result = None,
      resp_Error = Some \<lparr>Code = code, Message = message, Data = data\<rparr>\<rparr>"

section \<open>keyring.go\<close>

record Keyring =
  keys :: "(string \<times> Wallet) list"
  primary :: string

definition NewKeyring :: "Prims \<Rightarrow> PrivateKey result \<Rightarrow> Keyring result" where
  "NewKeyring P gen =
     bind_result (wrap_err ''failed to generate initial ephemeral wallet'' (NewWallet gen)) (\<lambda>wallet.
       let addr = address_of P wallet in Ok \<lparr>keys = AList.update addr wallet [], primary = addr\<rparr>)"

definition GenerateNewWallet :: "Prims \<Rightarrow> PrivateKey result \<Rightarrow> Keyring \<Rightarrow> string result \<times> Keyring" where
  "GenerateNewWallet P gen kr =
     (case wrap_err ''failed to generate ephemeral wallet'' (NewWallet gen) of
        Ok wallet \<Rightarrow>
          (let addr = address_of P wallet in (Ok addr, kr\<lparr>keys := AList.update addr wallet (keys kr)\<rparr>))
      | r \<Rightarrow> (as_failure r, kr))"

definition GetPrimaryAddress :: "Keyring \<Rightarrow> string" where
  "GetPrimaryAddress kr = primary kr"

definition kr_GetWallet :: "string \<Rightarrow> Keyring \<Rightarrow> Wallet result" where
  "kr_GetWallet address kr =
     (case map_of (keys kr) address of
        None \<Rightarrow> Error (ErrMsg (''wallet '' @ address @ '' not found in keyring''))
      | Some wallet \<Rightarrow> Ok wallet)"

text \<open>\<open>ord\<close> is the order in which the map of wallets is ranged over.\<close>

definition kr_SignTransaction ::
    "Prims \<Rightarrow> ((string \<times> Wallet) list \<Rightarrow> (string \<times> Wallet) list) \<Rightarrow> (nat \<Rightarrow> nat) \<Rightarrow> Keyring \<Rightarrow> prevTXs \<Rightarrow> Transaction \<Rightarrow>
      unit result \<times> Transaction" where
  "kr_SignTransaction P ord rnd kr prevTXs tx =
     (case Vin tx of
        [] \<Rightarrow> (Ok (), tx)
      | vin # _ \<Rightarrow>
          (case prevTXs (hex_encode (Txid vin)) of
             None \<Rightarrow> (Error (ErrMsg (''previous transaction '' @ hex_encode (Txid vin) @ '' not found'')), tx)
           | Some prevTx \<Rightarrow>
               (case go_index (Vout prevTx) (Vout_in vin) of
                  Ok prevOut \<Rightarrow>
                    (let pubKeyHash = (if IsRefund vin \<and> ScriptType prevOut = ScriptTypeEscrow
                                       then BuyerPubKeyHash prevOut else PubKeyHash prevOut) in
                     case find (\<lambda>w. HashPubKey P (PublicKey w) = pubKeyHash) (map snd (ord (keys kr))) of
                       None \<Rightarrow> (Error (ErrMsg ''no key found in keyring to spend input 0''), tx)
                     | Some matchedWallet \<Rightarrow>
                         (case Sign P (PrivKey matchedWallet) rnd prevTXs tx of
                            (Ok _, tx) \<Rightarrow> (Ok (), tx)
                          | (r, tx) \<Rightarrow> (wrap_err ''failed to sign input 0'' (as_failure r), tx)))
                | r \<Rightarrow> (as_failure r, tx))))"

section \<open>mcp.go: state and output\<close>

record MCPDaemon =
  fw :: Firewall
  keyring :: Keyring
  initialized :: bool
  out :: "bytes list"

record McpEnv =
  mcp_prims :: Prims
  TrimSpace :: "string \<Rightarrow> string"
  un_Request :: "bytes \<Rightarrow> Request result"
  un_InitializeParams :: "bytes \<Rightarrow> unit result"
  un_CallToolParams :: "bytes \<Rightarrow> CallToolParams result"
  marshal :: "Response \<Rightarrow> bytes result"
  far_int64 :: "rat \<Rightarrow> int64"
  gen_key :: "PrivateKey result"
  eval_now :: int
  record_now :: int
  api_GetBalance :: "string \<Rightarrow> int64 result"
  api_GetBestHeight :: "int32 result"

definition NewMCPDaemon :: "Prims \<Rightarrow> PrivateKey result \<Rightarrow> unit result \<Rightarrow> Firewall \<Rightarrow> MCPDaemon result" where
  "NewMCPDaemon P gen client f =
     bind_result (NewKeyring P gen) (\<lambda>kr.
     bind_result (wrap_err (''failed to connect to node at '' @ NodeGRPCAddress (policy f)) client) (\<lambda>_.
       Ok \<lparr>fw = f, keyring = kr, initialized = False, out = []\<rparr>))"

text \<open>A response that cannot be encoded is logged and dropped.\<close>

definition mcp_write :: "McpEnv \<Rightarrow> Response \<Rightarrow> MCPDaemon \<Rightarrow> unit result \<times> MCPDaemon" where
  "mcp_write E v d =
     (case marshal E v of
        Ok data \<Rightarrow> (Ok (), d\<lparr>out := out d @ [data @ string_bytes [CHR 0x0A]]\<rparr>)
      | Error e \<Rightarrow> (Ok (), d)
      | r \<Rightarrow> (as_failure r, d))"

definition sendResponse :: "McpEnv \<Rightarrow> json \<Rightarrow> rpc_result \<Rightarrow> MCPDaemon \<Rightarrow> unit result \<times> MCPDaemon" where
  "sendResponse E i result = mcp_write E (NewResponse i result)"

definition sendError :: "McpEnv \<Rightarrow> json \<Rightarrow> int \<Rightarrow> string \<Rightarrow> string option \<Rightarrow> MCPDaemon \<Rightarrow> unit result \<times> MCPDaemon" where
  "sendError E i code message data = mcp_write E (NewErrorResponse i code message data)"

section \<open>tools.go\<close>

text \<open>Type assertions on an argument.\<close>

definition arg_string :: "(string \<times> json) list \<Rightarrow> string \<Rightarrow> string option" where
  "arg_string args k = (case map_of args k of Some (JStr s) \<Rightarrow> Some s | _ \<Rightarrow> None)"

definition arg_float :: "(string \<times> json) list \<Rightarrow> string \<Rightarrow> rat option" where
  "arg_float args k = (case map_of args k of Some (JNum x) \<Rightarrow> Some x | _ \<Rightarrow> None)"

definition float_int64 :: "McpEnv \<Rightarrow> rat \<Rightarrow> int64" where
  "float_int64 E f = trunc_int64 (far_int64 E) f"

definition text_result :: "string \<Rightarrow> CallToolResult" where
  "text_result t = \<lparr>Content = [[(''type'', ''text''), (''text'', t)]], IsError = False\<rparr>"

definition toolWalletCreate :: "McpEnv \<Rightarrow> MCPDaemon \<Rightarrow> CallToolResult result \<times> MCPDaemon" where
  "toolWalletCreate E d =
     (case GenerateNewWallet (mcp_prims E) (gen_key E) (keyring d) of
        (Ok addr, kr) \<Rightarrow> (Ok (text_result (''Created new ephemeral wallet: '' @ addr)), d\<lparr>keyring := kr\<rparr>)
      | (r, kr) \<Rightarrow> (as_failure r, d\<lparr>keyring := kr\<rparr>))"

definition toolWalletBalance :: "McpEnv \<Rightarrow> (string \<times> json) list \<Rightarrow> CallToolResult result" where
  "toolWalletBalance E args =
     (case arg_string args ''address'' of
        None \<Rightarrow> Error (ErrMsg ''missing or invalid address parameter'')
      | Some addr \<Rightarrow>
          (case api_GetBalance E addr of
             Error e \<Rightarrow> Ok (text_result (''Balance for '' @ addr @ '': 0 (Node query fallback: '' @ err_text e @ '')''))
           | Ok b \<Rightarrow> Ok (text_result (''Balance for '' @ addr @ '': '' @ fmt_d (sint b) @ '' micro-cents''))
           | r \<Rightarrow> as_failure r))"

text \<open>
  The steps that the spending tools share: ask the firewall, and record the payment when it agrees.
\<close>

definition guarded_spend ::
    "McpEnv \<Rightarrow> int64 \<Rightarrow> string \<Rightarrow> string \<Rightarrow> string \<Rightarrow> CallToolResult \<Rightarrow> MCPDaemon \<Rightarrow> CallToolResult result \<times> MCPDaemon" where
  "guarded_spend E amount recipient what txID res d =
     (case Evaluate (eval_now E) amount recipient (fw d) of
        ((ok, reason), f) \<Rightarrow>
          if \<not> ok then (Error (ErrMsg (''firewall rejected '' @ what @ '': '' @ reason)), d\<lparr>fw := f\<rparr>)
          else (Ok res, d\<lparr>fw := RecordTransaction (record_now E) amount txID f\<rparr>))"

definition toolTxSend :: "McpEnv \<Rightarrow> (string \<times> json) list \<Rightarrow> MCPDaemon \<Rightarrow> CallToolResult result \<times> MCPDaemon" where
  "toolTxSend E args d =
     (case (arg_string args ''to'', arg_float args ''amount'') of
        (Some to, Some amountFloat) \<Rightarrow>
          (let amount = float_int64 E amountFloat in
           guarded_spend E amount to ''transaction'' ''tx_signed_and_sent''
             (text_result (''Transaction approved by firewall and submitted. Amount: '' @ fmt_d (sint amount) @ '', To: '' @ to)) d)
      | _ \<Rightarrow> (Error (ErrMsg ''missing or invalid to/amount parameters''), d))"

definition toolTxEscrowCreate :: "McpEnv \<Rightarrow> (string \<times> json) list \<Rightarrow> MCPDaemon \<Rightarrow> CallToolResult result \<times> MCPDaemon" where
  "toolTxEscrowCreate E args d =
     (case (arg_string args ''seller'', arg_float args ''amount'', arg_float args ''timeout_blocks'') of
        (Some seller, Some amountFloat, Some timeoutFloat) \<Rightarrow>
          (let amount = float_int64 E amountFloat; timeoutBlocks = float_int64 E timeoutFloat in
           guarded_spend E amount seller ''escrow creation'' ''tx_escrow_created''
             (text_result (''Escrow created successfully. Locked '' @ fmt_d (sint amount) @ '' micro-cents for seller '' @ seller @
               '' until block height + '' @ fmt_d (sint timeoutBlocks))) d)
      | _ \<Rightarrow> (Error (ErrMsg ''invalid or missing escrow parameters (seller, amount, timeout_blocks required)''), d))"

definition toolTxEscrowClaim :: "(string \<times> json) list \<Rightarrow> CallToolResult result" where
  "toolTxEscrowClaim args =
     (case (arg_string args ''escrow_tx_id'', arg_string args ''preimage_hex'') of
        (Some escrowTxID, Some preimageHex) \<Rightarrow>
          Ok (text_result (''Claim transaction built and broadcast for Escrow TX '' @ escrowTxID @ '' with secret preimage '' @ preimageHex))
      | _ \<Rightarrow> Error (ErrMsg ''missing escrow_tx_id or preimage_hex parameters''))"

definition toolTxEscrowRefund :: "(string \<times> json) list \<Rightarrow> CallToolResult result" where
  "toolTxEscrowRefund args =
     (case arg_string args ''escrow_tx_id'' of
        Some escrowTxID \<Rightarrow>
          Ok (text_result (''Refund transaction built and broadcast for Escrow TX '' @ escrowTxID @ '' post timeout''))
      | None \<Rightarrow> Error (ErrMsg ''missing escrow_tx_id parameter''))"

definition toolBlockchainHeight :: "McpEnv \<Rightarrow> CallToolResult result" where
  "toolBlockchainHeight E =
     (case api_GetBestHeight E of
        Error e \<Rightarrow> Ok (text_result (''Blockchain height: unavailable ('' @ err_text e @ '')''))
      | Ok h \<Rightarrow> Ok (text_result (''Blockchain height: '' @ fmt_d (sint h)))
      | r \<Rightarrow> as_failure r)"

definition toolSessionBudget :: "MCPDaemon \<Rightarrow> CallToolResult result" where
  "toolSessionBudget d =
     (let (budget, spent) = GetSessionStats (fw d) in
      Ok (text_result (''Session budget: '' @ fmt_d (sint budget) @ '', Spent: '' @ fmt_d (sint spent) @
        '', Remaining: '' @ fmt_d (sint (budget - spent)))))"

definition toolTxZKCPCreate :: "McpEnv \<Rightarrow> (string \<times> json) list \<Rightarrow> MCPDaemon \<Rightarrow> CallToolResult result \<times> MCPDaemon" where
  "toolTxZKCPCreate E args d =
     (case (arg_string args ''to'', arg_float args ''amount'', arg_string args ''hash_lock'') of
        (Some seller, Some amountFloat, Some hashLock) \<Rightarrow>
          (let amount = float_int64 E amountFloat in
           guarded_spend E amount seller ''ZKCP escrow'' ''tx_zkcp_created''
             (text_result (''ZKCP escrow of '' @ fmt_d (sint amount) @ '' micro-cents created for '' @ seller @
               '' with hashlock '' @ hashLock)) d)
      | _ \<Rightarrow> (Error (ErrMsg ''invalid or missing ZKCP parameters (to, amount, hash_lock required)''), d))"

definition toolTxZKCPClaim :: "(string \<times> json) list \<Rightarrow> CallToolResult result" where
  "toolTxZKCPClaim args =
     (case (arg_string args ''tx_id'', arg_string args ''preimage'') of
        (Some txID, Some preimage) \<Rightarrow>
          Ok (text_result (''ZKCP escrow '' @ txID @ '' claimed with preimage '' @ preimage @ '' and zero-knowledge proof data''))
      | _ \<Rightarrow> Error (ErrMsg ''invalid arguments: tx_id and preimage required''))"

text \<open>The switch over the name of the tool; \<open>None\<close> for an unknown one.\<close>

definition call_tool :: "McpEnv \<Rightarrow> CallToolParams \<Rightarrow> MCPDaemon \<Rightarrow> (CallToolResult result \<times> MCPDaemon) option" where
  "call_tool E params d =
     (let args = Arguments params; name = Call_Name params in
      if name = ''wallet_create'' then Some (toolWalletCreate E d)
      else if name = ''wallet_balance'' then Some (toolWalletBalance E args, d)
      else if name = ''tx_send'' then Some (toolTxSend E args d)
      else if name = ''tx_escrow_create'' then Some (toolTxEscrowCreate E args d)
      else if name = ''tx_escrow_claim'' then Some (toolTxEscrowClaim args, d)
      else if name = ''tx_escrow_refund'' then Some (toolTxEscrowRefund args, d)
      else if name = ''tx_zkcp_create'' then Some (toolTxZKCPCreate E args d)
      else if name = ''tx_zkcp_claim'' then Some (toolTxZKCPClaim args, d)
      else if name = ''blockchain_height'' then Some (toolBlockchainHeight E, d)
      else if name = ''session_budget'' then Some (toolSessionBudget d, d)
      else None)"

definition handleToolsCall :: "McpEnv \<Rightarrow> Request \<Rightarrow> MCPDaemon \<Rightarrow> unit result \<times> MCPDaemon" where
  "handleToolsCall E req d =
     (case un_CallToolParams E (req_Params req) of
        Error e \<Rightarrow> sendError E (req_ID req) InvalidParams ''Invalid params'' (Some (err_text e)) d
      | Ok params \<Rightarrow>
          (case call_tool E params d of
             None \<Rightarrow> sendError E (req_ID req) MethodNotFound (''Tool '' @ Call_Name params @ '' not found'') None d
           | Some (Ok result, d) \<Rightarrow> sendResponse E (req_ID req) (CallResult result) d
           | Some (Error e, d) \<Rightarrow>
               sendResponse E (req_ID req) (CallResult ((text_result (''Error: '' @ err_text e))\<lparr>IsError := True\<rparr>)) d
           | Some (r, d) \<Rightarrow> (as_failure r, d))
      | r \<Rightarrow> (as_failure r, d))"

section \<open>mcp.go: requests\<close>

definition handleInitialize :: "McpEnv \<Rightarrow> Request \<Rightarrow> MCPDaemon \<Rightarrow> unit result \<times> MCPDaemon" where
  "handleInitialize E req d =
     (let params = un_InitializeParams E (req_Params req);
          result = \<lparr>ProtocolVersion = ''2024-11-05'', Capabilities = JObj [(''tools'', JObj [])],
                    ServerInfo_Name = ''ai-to-ai-ledger-mcp'', ServerInfo_Version = ''0.1.0''\<rparr>
      in case params of
           Ok _ \<Rightarrow> sendResponse E (req_ID req) (InitResult result) d
         | Error e \<Rightarrow>
             if length (req_Params req) > 0
             then sendError E (req_ID req) InvalidParams ''Invalid params'' (Some (err_text e)) d
             else sendResponse E (req_ID req) (InitResult result) d
         | r \<Rightarrow> (as_failure r, d))"

definition handleToolsList :: "McpEnv \<Rightarrow> Request \<Rightarrow> MCPDaemon \<Rightarrow> unit result \<times> MCPDaemon" where
  "handleToolsList E req d =
     sendResponse E (req_ID req) (ToolsResult
       [\<lparr>Tool_Name = ''wallet_create'', Tool_Description = ''Generate a new ephemeral wallet for this session'',
         Schema_Type = ''object'', Schema_Properties = [], Schema_Required = []\<rparr>,
        \<lparr>Tool_Name = ''wallet_balance'', Tool_Description = ''Query balance for an address'',
         Schema_Type = ''object'',
         Schema_Properties = [(''address'', [(''type'', ''string''), (''description'', ''Base58 encoded address'')])],
         Schema_Required = [''address'']\<rparr>,
        \<lparr>Tool_Name = ''tx_send'', Tool_Description = ''Send a standard P2PKH transaction'',
         Schema_Type = ''object'',
         Schema_Properties = [(''to'', [(''type'', ''string''), (''description'', ''Recipient address'')]),
           (''amount'', [(''type'', ''integer''), (''description'', ''Amount in micro-cents'')])],
         Schema_Required = [''to'', ''amount'']\<rparr>]) d"

definition handleMessage :: "McpEnv \<Rightarrow> bytes \<Rightarrow> MCPDaemon \<Rightarrow> unit result \<times> MCPDaemon" where
  "handleMessage E data d =
     (case un_Request E data of
        Error e \<Rightarrow> sendError E JNull ParseError ''Parse error'' (Some (err_text e)) d
      | Ok req \<Rightarrow>
          if req_JSONRPC req \<noteq> ''2.0'' \<or> req_Method req = []
          then sendError E (req_ID req) InvalidRequest ''Invalid Request'' None d
          else if \<not> initialized d \<and> req_Method req \<noteq> ''initialize'' \<and> req_Method req \<noteq> ''notifications/initialized''
          then sendError E (req_ID req) InternalError ''Server not initialized'' None d
          else if req_Method req = ''initialize'' then handleInitialize E req d
          else if req_Method req = ''notifications/initialized'' then (Ok (), d\<lparr>initialized := True\<rparr>)
          else if req_Method req = ''tools/list'' then handleToolsList E req d
          else if req_Method req = ''tools/call'' then handleToolsCall E req d
          else sendError E (req_ID req) MethodNotFound ''Method not found'' None d
      | r \<Rightarrow> (as_failure r, d))"

text \<open>What the loop meets in one round: a cancelled context, the end of the input, a read error, a line.\<close>

datatype scan_event = Cancelled | ScanEOF | ScanErr goerr | ScanLine string

fun mcp_Run :: "(McpEnv \<times> scan_event) list \<Rightarrow> MCPDaemon \<Rightarrow> unit result option \<times> MCPDaemon" where
  "mcp_Run [] d = (None, d)"
| "mcp_Run ((E, Cancelled) # evs) d = (Some (Ok ()), d)"
| "mcp_Run ((E, ScanEOF) # evs) d = (Some (Ok ()), d)"
| "mcp_Run ((E, ScanErr e) # evs) d = (Some (Error (Wrap ''read error'' e)), d)"
| "mcp_Run ((E, ScanLine line) # evs) d =
     (if TrimSpace E line = [] then mcp_Run evs d
      else case handleMessage E (string_bytes line) d of
        (Ok _, d) \<Rightarrow> mcp_Run evs d
      | (r, d) \<Rightarrow> (Some r, d))"

section \<open>What a request changes\<close>

definition kr_ok :: "Prims \<Rightarrow> Keyring \<Rightarrow> bool" where
  "kr_ok P kr \<longleftrightarrow> keyed (address_of P) (keys kr) \<and> primary kr \<in> fst ` set (keys kr)"

lemma NewKeyring_ok: "NewKeyring P gen = Ok kr \<Longrightarrow> kr_ok P kr"
  by (auto simp: NewKeyring_def kr_ok_def bind_result_eq_Ok wrap_err_eq_Ok keyed_def Let_def)

lemma GenerateNewWallet_ok:
  assumes "kr_ok P kr" and "GenerateNewWallet P gen kr = (r, kr')"
  shows "kr_ok P kr'"
proof -
  consider w where "kr' = kr\<lparr>keys := AList.update (address_of P w) w (keys kr)\<rparr>" | "kr' = kr"
    using assms(2) by (auto simp: GenerateNewWallet_def Let_def split: result.splits)
  then show ?thesis
  proof cases
    case (1 w)
    then show ?thesis using assms(1) keyed_update [of "address_of P" "keys kr" w]
      by (simp add: kr_ok_def dom_update)
  qed (use assms(1) in simp)
qed

text \<open>The part of the daemon that its answers do not touch, and the steps that keep the session safe.\<close>

definition mcp_safe :: "Prims \<Rightarrow> Policy \<Rightarrow> MCPDaemon \<Rightarrow> bool" where
  "mcp_safe P p d \<longleftrightarrow> fw_safe p (fw d) \<and> kr_ok P (keyring d)"

definition keeps_session :: "Prims \<Rightarrow> Policy \<Rightarrow> MCPDaemon \<Rightarrow> MCPDaemon \<Rightarrow> bool" where
  "keeps_session P p d d' \<longleftrightarrow> (mcp_safe P p d \<longrightarrow> mcp_safe P p d') \<and> out d' = out d \<and> initialized d' = initialized d"

lemma keeps_session_refl [simp]: "keeps_session P p d d"
  by (simp add: keeps_session_def)

lemma guarded_spend_keeps:
  assumes "guarded_spend E amount to what i res d = (r, d')"
  shows "keeps_session P p d d'"
proof -
  obtain ok m f where e: "Evaluate (eval_now E) amount to (fw d) = ((ok, m), f)" by (metis surj_pair)
  let ?f = "if ok then RecordTransaction (record_now E) amount i f else f"
  have "d' = d\<lparr>fw := ?f\<rparr>" using assms by (cases ok) (simp_all add: guarded_spend_def e)
  moreover have "fw_safe p (fw d) \<Longrightarrow> fw_safe p ?f" by (rule fw_guard.spend_safe [OF _ e])
  ultimately show ?thesis by (simp add: keeps_session_def mcp_safe_def)
qed

lemma toolWalletCreate_keeps: "toolWalletCreate E d = (r, d') \<Longrightarrow> keeps_session (mcp_prims E) p d d'"
  using GenerateNewWallet_ok [of "mcp_prims E" "keyring d" "gen_key E"]
  by (auto simp: toolWalletCreate_def keeps_session_def mcp_safe_def split: prod.splits result.splits)

lemma call_tool_keeps:
  assumes "call_tool E params d = Some (r, d')"
  shows "keeps_session (mcp_prims E) p d d'"
proof -
  have spending: "keeps_session P p d d'" if "toolTxSend E args d = (r, d') \<or> toolTxEscrowCreate E args d = (r, d') \<or>
      toolTxZKCPCreate E args d = (r, d')" for P args
    using that
    by (auto simp: toolTxSend_def toolTxEscrowCreate_def toolTxZKCPCreate_def Let_def split: option.splits
        intro: guarded_spend_keeps)
  show ?thesis using assms spending [of "Arguments params" "mcp_prims E"]
    by (auto simp: call_tool_def Let_def toolWalletCreate_keeps split: if_splits)
qed

text \<open>An answer: one line of output, if the encoder does not fail, and nothing else.\<close>

definition answered :: "McpEnv \<Rightarrow> MCPDaemon \<Rightarrow> unit result \<Rightarrow> MCPDaemon \<Rightarrow> bool" where
  "answered E d r d' \<longleftrightarrow> (\<exists>lines. d' = d\<lparr>out := out d @ lines\<rparr> \<and> length lines \<le> 1 \<and>
     ((\<forall>v. is_Ok (marshal E v)) \<longrightarrow> r = Ok () \<and> length lines = 1))"

lemma mcp_write_answered:
  assumes "mcp_write E v d = (r, d')"
  shows "answered E d r d'"
proof (cases "is_Ok (marshal E v)")
  case True
  then obtain b where "marshal E v = Ok b" by (auto simp: is_Ok_iff)
  then show ?thesis using assms
    by (auto simp: mcp_write_def answered_def intro!: exI [of _ "[b @ string_bytes [CHR 0x0A]]"])
next
  case False
  then have "d' = d" using assms by (auto simp: mcp_write_def split: result.splits)
  then show ?thesis unfolding answered_def using False by (intro exI [of _ "[]"]) auto
qed

lemmas answered_intros = mcp_write_answered [of E "NewResponse i v" d r d' for E i v d r d', folded sendResponse_def]
  mcp_write_answered [of E "NewErrorResponse i c m x" d r d' for E i c m x d r d', folded sendError_def]

text \<open>The notification that opens the session.\<close>

definition opens_session :: "McpEnv \<Rightarrow> bytes \<Rightarrow> bool" where
  "opens_session E data \<longleftrightarrow> (case un_Request E data of
     Ok req \<Rightarrow> req_JSONRPC req = ''2.0'' \<and> req_Method req = ''notifications/initialized'' | _ \<Rightarrow> False)"

lemma handleToolsCall_effect:
  assumes "handleToolsCall E req d = (r, d')"
  shows "\<exists>d1. keeps_session (mcp_prims E) p d d1 \<and> (answered E d1 r d' \<or> d' = d1 \<and> r \<noteq> Ok ())"
proof -
  consider e where "un_CallToolParams E (req_Params req) = Error e" | params where "un_CallToolParams E (req_Params req) = Ok params"
    | "\<not> is_Ok (un_CallToolParams E (req_Params req))" "handleToolsCall E req d = (as_failure (un_CallToolParams E (req_Params req)), d)"
    by (cases "un_CallToolParams E (req_Params req)") (auto simp: handleToolsCall_def)
  then show ?thesis
  proof cases
    case (1 e)
    then have "answered E d r d'" using assms by (auto simp: handleToolsCall_def intro: answered_intros)
    then show ?thesis using keeps_session_refl by blast
  next
    case (2 params)
    show ?thesis
    proof (cases "call_tool E params d")
      case None
      then have "answered E d r d'" using assms 2 by (auto simp: handleToolsCall_def intro: answered_intros)
      then show ?thesis using keeps_session_refl by blast
    next
      case (Some x)
      then obtain tr d1 where c: "call_tool E params d = Some (tr, d1)" by (cases x) auto
      then have "answered E d1 r d' \<or> d' = d1 \<and> r \<noteq> Ok ()"
        using assms 2 by (cases tr) (auto simp: handleToolsCall_def intro: answered_intros)
      then show ?thesis using call_tool_keeps [OF c] by blast
    qed
  next
    case 3
    then show ?thesis using assms by (intro exI [of _ d]) auto
  qed
qed

lemma handleMessage_effect:
  assumes "handleMessage E data d = (r, d')"
  shows "opens_session E data \<and> r = Ok () \<and> d' = d\<lparr>initialized := True\<rparr> \<or>
    \<not> opens_session E data \<and> (\<exists>d1. keeps_session (mcp_prims E) p d d1 \<and> (\<not> initialized d \<longrightarrow> d1 = d) \<and>
       (answered E d1 r d' \<or> d' = d1 \<and> r \<noteq> Ok ()))"
proof (cases "un_Request E data")
  case (Ok req)
  have ans: ?thesis if "\<not> opens_session E data" "answered E d r d' \<or> d' = d \<and> r \<noteq> Ok ()"
    using that keeps_session_refl by blast
  show ?thesis
  proof (cases "req_JSONRPC req = ''2.0'' \<and> req_Method req = ''notifications/initialized''")
    case True
    then show ?thesis using assms Ok by (auto simp: handleMessage_def opens_session_def)
  next
    case F: False
    then have o: "\<not> opens_session E data" using Ok by (simp add: opens_session_def)
    consider (call) "initialized d" "handleToolsCall E req d = (r, d')" | (init) "handleInitialize E req d = (r, d')"
      | (list) "handleToolsList E req d = (r, d')" | (err) c m x where "sendError E (req_ID req) c m x d = (r, d')"
      using assms Ok F by (fastforce simp: handleMessage_def split: if_splits)
    then show ?thesis
    proof cases
      case call
      then show ?thesis using handleToolsCall_effect [of E req d r d' p] o by blast
    next
      case init
      then have "answered E d r d' \<or> d' = d \<and> r \<noteq> Ok ()"
        by (cases "un_InitializeParams E (req_Params req)")
          (auto simp: handleInitialize_def Let_def split: if_splits intro: answered_intros)
      with o show ?thesis by (rule ans)
    next
      case list
      then show ?thesis using ans [OF o] by (auto simp: handleToolsList_def intro: answered_intros)
    next
      case err
      then show ?thesis using ans [OF o] by (auto intro: answered_intros)
    qed
  qed
next
  case (Error e)
  then have "answered E d r d'" using assms by (auto simp: handleMessage_def intro: answered_intros)
  then show ?thesis using Error by - (rule disjI2, rule conjI, (auto simp: opens_session_def intro!: exI [of _ d])[2])
qed (use assms in \<open>(intro disjI2 conjI exI [of _ d]; force simp: handleMessage_def opens_session_def)+\<close>)

lemma handleMessage_safe:
  assumes "handleMessage E data d = (r, d')" and "mcp_safe (mcp_prims E) p d"
  shows "mcp_safe (mcp_prims E) p d'"
  using handleMessage_effect [OF assms(1), of p] assms(2)
  by (auto simp: keeps_session_def answered_def mcp_safe_def)

lemma mcp_Run_safe:
  "mcp_Run evs d = (r, d') \<Longrightarrow> \<forall>(E, ev) \<in> set evs. mcp_prims E = P \<Longrightarrow> mcp_safe P p d \<Longrightarrow> mcp_safe P p d'"
proof (induction evs d arbitrary: r d' rule: mcp_Run.induct)
  case (5 E line evs d)
  show ?case
  proof (cases "TrimSpace E line = []")
    case True
    then show ?thesis using 5 by simp
  next
    case False
    obtain r1 d1 where h: "handleMessage E (string_bytes line) d = (r1, d1)" by fastforce
    then have "mcp_safe P p d1" using handleMessage_safe [OF h, of p] "5.prems"(2,3) by auto
    then show ?thesis using 5 False h by (cases r1) auto
  qed
qed auto

text \<open>The wallets of the keyring that own the output an input spends.\<close>

definition owners :: "Prims \<Rightarrow> Keyring \<Rightarrow> TXInput \<Rightarrow> TXOutput \<Rightarrow> Wallet set" where
  "owners P kr vin pout = {v \<in> snd ` set (keys kr). HashPubKey P (PublicKey v) = expected_pkh vin pout}"

lemma find_Some_mem: "find Q xs = Some x \<Longrightarrow> x \<in> set xs \<and> Q x"
  by (induction xs) (auto split: if_splits)

lemma kr_SignTransaction_eq:
  assumes "is_order ord" and sp: "spends prevTXs tx outs" and "Vin tx \<noteq> []"
  shows "owners P kr (hd (Vin tx)) (hd outs) = {} \<Longrightarrow>
      kr_SignTransaction P ord rnd kr prevTXs tx = (Error (ErrMsg ''no key found in keyring to spend input 0''), tx)"
    and "owners P kr (hd (Vin tx)) (hd outs) = {w} \<Longrightarrow> Sign P (PrivKey w) rnd prevTXs tx = (Ok (), tx') \<Longrightarrow>
      kr_SignTransaction P ord rnd kr prevTXs tx = (Ok (), tx')"
proof -
  obtain vin vins where v: "Vin tx = vin # vins" using assms(3) by (cases "Vin tx") auto
  then obtain pout outs' where out: "outs = pout # outs'" "ID (lookup_tx prevTXs (Txid vin)) \<noteq> []"
    "go_index (Vout (lookup_tx prevTXs (Txid vin))) (Vout_in vin) = Ok pout"
    using sp by (auto simp: spends_def list_all2_Cons1)
  then obtain ptx where p: "prevTXs (hex_encode (Txid vin)) = Some ptx" "go_index (Vout ptx) (Vout_in vin) = Ok pout"
    by (cases "prevTXs (hex_encode (Txid vin))") (auto simp: lookup_tx_def)
  have pk: "(if IsRefund vin \<and> ScriptType pout = ScriptTypeEscrow then BuyerPubKeyHash pout else PubKeyHash pout) = expected_pkh vin pout"
    by (simp add: expected_pkh_def)
  let ?find = "find (\<lambda>v. HashPubKey P (PublicKey v) = expected_pkh vin pout) (map snd (ord (keys kr)))"
  have mem: "v \<in> owners P kr vin pout \<longleftrightarrow> v \<in> set (map snd (ord (keys kr))) \<and> HashPubKey P (PublicKey v) = expected_pkh vin pout" for v
    using is_order_set [OF assms(1)] by (simp add: owners_def)
  show "kr_SignTransaction P ord rnd kr prevTXs tx = (Error (ErrMsg ''no key found in keyring to spend input 0''), tx)"
    if "owners P kr (hd (Vin tx)) (hd outs) = {}"
  proof -
    have "?find = None" unfolding find_None_iff using that mem by (auto simp: v out(1))
    then show ?thesis using v p by (simp add: kr_SignTransaction_def pk Let_def)
  qed
  show "kr_SignTransaction P ord rnd kr prevTXs tx = (Ok (), tx')"
    if "owners P kr (hd (Vin tx)) (hd outs) = {w}" "Sign P (PrivKey w) rnd prevTXs tx = (Ok (), tx')"
  proof -
    have "w \<in> owners P kr vin pout" using that by (simp add: v out(1))
    then have "?find \<noteq> None" unfolding find_None_iff mem by blast
    then obtain u where f: "?find = Some u" by blast
    then have "u \<in> owners P kr vin pout" unfolding mem using find_Some_mem [OF f] by blast
    then have "u = w" using that by (simp add: v out(1))
    then show ?thesis using v p f that(2) by (simp add: kr_SignTransaction_def pk Let_def)
  qed
qed

lemma session_kept:
  assumes "NewMCPDaemon P gen client (NewFirewall p) = Ok d0" and "0 \<le> sint (SessionBudget p)"
    and "\<forall>(E, ev) \<in> set evs. mcp_prims E = P" and "mcp_Run evs d0 = (r, d)"
  shows "policy (fw d) = p \<and> sint (snd (GetSessionStats (fw d))) \<le> sint (fst (GetSessionStats (fw d))) \<and>
    (\<forall>e \<in> set (rollingWindow (fw d)). sint (entry_Amount e) \<le> 10 ^ 11 \<and> sint (entry_Amount e) \<le> sint (MaxPerTransaction p)) \<and>
    (\<forall>a w. kr_GetWallet a (keyring d) = Ok w \<longrightarrow> a = address_of P w) \<and>
    is_Ok (kr_GetWallet (GetPrimaryAddress (keyring d)) (keyring d))"
proof -
  have "mcp_safe P p d0"
    using assms(1) NewKeyring_ok NewFirewall_safe [OF assms(2)]
    by (auto simp: NewMCPDaemon_def mcp_safe_def bind_result_eq_Ok)
  from mcp_Run_safe [OF assms(4,3) this] have "fw_safe p (fw d)" and k: "kr_ok P (keyring d)"
    by (simp_all add: mcp_safe_def)
  moreover have "a = address_of P w" if "kr_GetWallet a (keyring d) = Ok w" for a w
    using that k keyed_lookup [of "address_of P" "keys (keyring d)" a w]
    by (auto simp: kr_GetWallet_def kr_ok_def split: option.splits)
  moreover have "is_Ok (kr_GetWallet (GetPrimaryAddress (keyring d)) (keyring d))"
    using k by (auto simp: kr_GetWallet_def GetPrimaryAddress_def kr_ok_def dest: weak_map_of_SomeI split: option.split)
  ultimately show ?thesis by (simp add: fw_safe_def GetSessionStats_def)
qed

section \<open>Properties\<close>


text \<open>
  The handshake. Until the notification \<^verbatim>\<open>notifications/initialized\<close> arrives, no request touches
  wallets or budget, and nothing but this notification opens the session. Every message is
  answered with exactly one line, this notification with none, provided that responses can be
  encoded and that handling did not panic; lines that were written stay.
\<close>

theorem mcp_handshake:
  assumes "handleMessage E data d = (Ok (), d')"
  shows "(initialized d' \<longleftrightarrow> initialized d \<or> opens_session E data) \<and>
    (\<not> initialized d \<longrightarrow> fw d' = fw d \<and> keyring d' = keyring d) \<and>
    ((\<forall>v. is_Ok (marshal E v)) \<longrightarrow>
      (\<exists>lines. out d' = out d @ lines \<and> length lines = (if opens_session E data then 0 else 1)))"
  using handleMessage_effect [OF assms, of "policy (fw d)"]
proof
  assume "\<not> opens_session E data \<and> (\<exists>d1. keeps_session (mcp_prims E) (policy (fw d)) d d1 \<and>
      (\<not> initialized d \<longrightarrow> d1 = d) \<and> (answered E d1 (Ok ()) d' \<or> d' = d1 \<and> Ok () \<noteq> Ok ()))"
  then obtain d1 where o: "\<not> opens_session E data" and k: "out d1 = out d" "initialized d1 = initialized d"
    "\<not> initialized d \<longrightarrow> d1 = d" and a: "answered E d1 (Ok ()) d'"
    by (auto simp: keeps_session_def)
  from a obtain lines where "d' = d1\<lparr>out := out d1 @ lines\<rparr>" "(\<forall>v. is_Ok (marshal E v)) \<longrightarrow> length lines = 1"
    by (auto simp: answered_def)
  with o k show ?thesis by auto
qed auto

text \<open>
  A transaction that the keyring signs is valid. When exactly one wallet of the keyring owns the
  output that the first input spends, and the inputs all carry the public key of that wallet, spend
  known outputs whose conditions they meet, and cover the positive outputs, then signing succeeds,
  changes nothing but signatures, and the result passes \<open>Verify\<close>. When no wallet owns it, the result
  is an error and the transaction is unchanged.
\<close>

theorem keyring_sign_verifies:
  assumes o: "is_order ord" and tx: "Vin tx \<noteq> []" "\<not> IsCoinbase tx" and sp: "spends prevTXs tx outs"
    and w: "ecdsa_ok P (PrivKey w)" "\<forall>vin \<in> set (Vin tx). is_pubkey (PrivKey w) (PubKey vin)"
    and sc: "\<forall>i < length (Vin tx). script_ok P height (Vin tx ! i) (outs ! i)"
    and pos: "\<forall>out \<in> set (Vout tx). 0 < sint (Value out)"
    and sum: "sint (sum_list (map Value (Vout tx))) \<le> sint (sum_list (map Value outs))"
  shows "(owners P kr (hd (Vin tx)) (hd outs) = {w} \<longrightarrow> (\<exists>tx'. kr_SignTransaction P ord rnd kr prevTXs tx = (Ok (), tx') \<and>
       strip_sigs tx' = strip_sigs tx \<and> Verify P prevTXs height tx' = Ok True)) \<and>
    (owners P kr (hd (Vin tx)) (hd outs) = {} \<longrightarrow> (\<exists>m. kr_SignTransaction P ord rnd kr prevTXs tx = (Error (ErrMsg m), tx)))"
  using Sign_Verify_aux [OF w(1) tx(2) sp w(2) sc pos sum, of rnd] kr_SignTransaction_eq [OF o sp tx(1)] by blast

text \<open>
  The keyring cannot sign the refund of a ZKCP deposit: it looks for the seller's key instead of
  the buyer's. A buyer whose keyring does not hold the seller's key gets an error, for a
  transaction that is valid once it is signed with the buyer's key.
\<close>

theorem keyring_zkcp_refund:
  assumes o: "is_order ord" and tx: "Vin tx = [vin]" "Txid vin \<noteq> []" and sp: "spends prevTXs tx [pout]"
    and z: "ScriptType pout = ScriptTypeZKCP" "IsRefund vin" "BuyerPubKeyHash pout = HashPubKey P (PubKey vin)"
      "sint (TimeoutBlock pout) < sint height"
    and w: "ecdsa_ok P k" "is_pubkey k (PubKey vin)"
    and pos: "\<forall>out \<in> set (Vout tx). 0 < sint (Value out)" "sint (sum_list (map Value (Vout tx))) \<le> sint (Value pout)"
    and kr: "\<forall>v \<in> snd ` set (keys kr). HashPubKey P (PublicKey v) \<noteq> PubKeyHash pout"
  shows "(\<exists>m. kr_SignTransaction P ord rnd kr prevTXs tx = (Error (ErrMsg m), tx)) \<and>
    (\<exists>tx'. Sign P k rnd prevTXs tx = (Ok (), tx') \<and> Verify P prevTXs height tx' = Ok True)"
proof
  have "owners P kr (hd (Vin tx)) (hd [pout]) = {}"
    using kr z(1) tx(1) by (auto simp: owners_def expected_pkh_def)
  then show "\<exists>m. kr_SignTransaction P ord rnd kr prevTXs tx = (Error (ErrMsg m), tx)"
    using kr_SignTransaction_eq(1) [OF o sp, of P kr rnd] tx(1) by simp
  have "\<not> IsCoinbase tx" using tx by (simp add: IsCoinbase_def)
  moreover have "script_ok P height vin pout"
    using z by (simp add: script_ok_def CanRefundEscrow_iff Let_def)
  ultimately show "\<exists>tx'. Sign P k rnd prevTXs tx = (Ok (), tx') \<and> Verify P prevTXs height tx' = Ok True"
    using Sign_Verify_aux [OF w(1) _ sp, of height rnd] w(2) pos tx(1) by auto
qed

section \<open>A concrete session\<close>

text \<open>The decoder of the examples knows one request for each text.\<close>

definition sample_mcp :: McpEnv where
  "sample_mcp = \<lparr>mcp_prims = sample_prims, TrimSpace = (\<lambda>s. s),
     un_Request = (\<lambda>b. if b = string_bytes ''i'' then Ok \<lparr>req_JSONRPC = ''2.0'', req_ID = JNull, req_Method = ''notifications/initialized'', req_Params = []\<rparr>
       else Ok \<lparr>req_JSONRPC = ''2.0'', req_ID = JNum 1, req_Method = ''tools/call'', req_Params = b\<rparr>),
     un_InitializeParams = (\<lambda>_. Ok ()),
     un_CallToolParams = (\<lambda>_. Ok \<lparr>Call_Name = ''tx_send'', Arguments = [(''to'', JStr ''a''), (''amount'', JNum (15 / 2))]\<rparr>),
     marshal = (\<lambda>_. Ok []), far_int64 = (\<lambda>_. 0), gen_key = Ok (sample_key 5), eval_now = 0, record_now = 0,
     api_GetBalance = (\<lambda>_. Ok 0), api_GetBestHeight = Ok 0\<rparr>"

lemma sample_mcp_sel [simp]: "mcp_prims sample_mcp = sample_prims" by (simp add: sample_mcp_def)


theorem mcp_handshake_witness:
  "\<exists>d'. handleMessage sample_mcp (string_bytes ''t'') \<lparr>fw = NewFirewall sample_policy, keyring = \<lparr>keys = [], primary = []\<rparr>, initialized = False, out = []\<rparr> = (Ok (), d') \<and>
     \<not> initialized d' \<and> fw d' = NewFirewall sample_policy \<and> length (out d') = 1"
proof -
  let ?d = "\<lparr>fw = NewFirewall sample_policy, keyring = \<lparr>keys = [], primary = []\<rparr>, initialized = False, out = []\<rparr>"
  have n: "\<not> opens_session sample_mcp (string_bytes ''t'')" by (simp add: opens_session_def sample_mcp_def)
  have m: "\<forall>v. is_Ok (marshal sample_mcp v)" by (simp add: sample_mcp_def)
  obtain d' where h: "handleMessage sample_mcp (string_bytes ''t'') ?d = (Ok (), d')"
    by (auto simp: handleMessage_def sample_mcp_def sendError_def mcp_write_def)
  from mcp_handshake [OF this] n m have "\<not> initialized d' \<and> fw d' = NewFirewall sample_policy \<and> length (out d') = 1" by auto
  with h show ?thesis by blast
qed

theorem keyring_sign_verifies_witness:
  "\<exists>tx'. kr_SignTransaction sample_prims (\<lambda>x. x) (\<lambda>_. 0) \<lparr>keys = [(''a'', \<lparr>PrivKey = sample_key 5, PublicKey = sample_pk\<rparr>)], primary = ''a''\<rparr>
       (sample_prev 0) sample_tx = (Ok (), tx') \<and> Verify sample_prims (sample_prev 0) 0 tx' = Ok True"
proof -
  let ?kr = "\<lparr>keys = [(''a'', \<lparr>PrivKey = sample_key 5, PublicKey = sample_pk\<rparr>)], primary = ''a''\<rparr>"
  have "owners sample_prims ?kr (hd (Vin sample_tx)) (hd [sample_out 10 0]) = {\<lparr>PrivKey = sample_key 5, PublicKey = sample_pk\<rparr>}"
    by (auto simp: owners_def expected_pkh_def sample_out_def)
  moreover have "spends (sample_prev 0) sample_tx [sample_out 10 0]" by simp
  ultimately show ?thesis
    using keyring_sign_verifies [OF is_order_id, of sample_tx "sample_prev 0" "[sample_out 10 0]" sample_prims
        "\<lparr>PrivKey = sample_key 5, PublicKey = sample_pk\<rparr>" 0 ?kr "\<lambda>_. 0"] by auto
qed

end
