(* ===== verification/AgentMain.thy ===== *)
theory AgentMain
  imports ServerProps Mcp
begin

text \<open>
  The two programs around the agent daemon: \<^verbatim>\<open>cmd/sign-policy/main.go\<close>, which signs a policy with
  the limits of its flags and writes it to a file, and \<^verbatim>\<open>cmd/mcp-daemon/main.go\<close>, which reads such a
  file and runs the daemon under it. \<^verbatim>\<open>log.Fatalf\<close> ends the program with a message: an error. Parsing
  of flags and the handling of signals are left to the library; a signal is the event \<open>Cancelled\<close> of
  the loop.
\<close>

section \<open>cmd/sign-policy\<close>

record SignFlags =
  flag_output :: string
  flag_session_budget :: int64
  flag_max_per_tx :: int64
  flag_rolling_24h :: int64
  flag_max_tx_per_hour :: int64
  flag_node_address :: string
  flag_persistent_key :: string

definition flag_policy :: "SignFlags \<Rightarrow> Policy" where
  "flag_policy f =
     \<lparr>Version = 1, SessionBudget = flag_session_budget f, MaxPerTransaction = flag_max_per_tx f,
      Rolling24hBudget = flag_rolling_24h f, MaxTxPerHour = flag_max_tx_per_hour f, AllowedRecipients = [],
      NodeGRPCAddress = flag_node_address f, PersistentKeyPath = flag_persistent_key f,
      PolicySignature = [], SignaturePublicKey = []\<rparr>"

text \<open>
  \<open>gen\<close> is the generated key, \<open>indent\<close> is \<^verbatim>\<open>json.MarshalIndent\<close>, \<open>write_err\<close> a failed write with what it left
  of the files.
\<close>

definition sign_policy_main ::
    "Prims \<Rightarrow> JPrims \<Rightarrow> (Policy \<Rightarrow> bytes result) \<Rightarrow> PrivateKey result \<Rightarrow> nat \<Rightarrow> (goerr \<times> files) option \<Rightarrow> SignFlags \<Rightarrow>
      files \<Rightarrow> string list result \<times> files" where
  "sign_policy_main P J indent gen rnd write_err f fs =
     (case bind_result (wrap_err ''Failed to generate signing key'' gen) (\<lambda>privKey.
           let (r, pol) = SignPolicy P J rnd privKey (flag_policy f) in
           bind_result (wrap_err ''Failed to sign policy'' r) (\<lambda>_.
           bind_result (wrap_err ''Failed to verify generated signature'' (VerifyPolicySignature P J pol)) (\<lambda>_.
           bind_result (wrap_err ''Failed to marshal policy'' (indent pol)) (\<lambda>data. Ok (pol, data))))) of
        Ok (pol, data) \<Rightarrow>
          (case write_err of
             Some (e, left) \<Rightarrow> (Error (Wrap ''Failed to write policy file'' e), left)
           | None \<Rightarrow>
               (Ok [''Successfully generated signed policy at '' @ flag_output f,
                    ''Public Key: '' @ SignaturePublicKey pol, ''Signature:  '' @ PolicySignature pol],
                fs(flag_output f \<mapsto> data)))
      | r \<Rightarrow> (as_failure r, fs))"

section \<open>cmd/mcp-daemon\<close>

text \<open>
  The outcome of the program, \<open>None\<close> while it is running, and the daemon once it was set up.
\<close>

definition mcp_daemon_main ::
    "Prims \<Rightarrow> JPrims \<Rightarrow> PrivateKey result \<Rightarrow> unit result \<Rightarrow> string \<Rightarrow> (McpEnv \<times> scan_event) list \<Rightarrow>
      unit result option \<times> MCPDaemon option" where
  "mcp_daemon_main P J gen client policyPath evs =
     (case bind_result (wrap_err ''FATAL: Failed to load policy'' (LoadAndVerify P J policyPath)) (\<lambda>policy.
           let fw = NewFirewall policy in
           wrap_err ''FATAL: Failed to initialize MCP daemon'' (NewMCPDaemon P gen client fw)) of
        Ok daemon \<Rightarrow>
          (case mcp_Run evs daemon of
             (r, daemon) \<Rightarrow> (map_option (wrap_err ''Daemon exited with error'') r, Some daemon))
      | r \<Rightarrow> (Some (as_failure r), None))"

text \<open>\<^verbatim>\<open>os.ReadFile\<close> on these files.\<close>

definition read_in :: "files \<Rightarrow> JPrims \<Rightarrow> JPrims" where
  "read_in fs J = J\<lparr>ReadFile := (\<lambda>path. case fs path of Some d \<Rightarrow> Ok d | None \<Rightarrow> Error ErrNotExist)\<rparr>"

section \<open>Lemmas\<close>

text \<open>
  What is used of the JSON library: a policy without signature can be encoded, and decoding an
  indented policy gives it back, whatever its signature. It is stated for one policy, as the library
  replaces invalid UTF-8 in the strings of others.
\<close>

definition json_ok :: "JPrims \<Rightarrow> (Policy \<Rightarrow> bytes result) \<Rightarrow> Policy \<Rightarrow> bool" where
  "json_ok J indent p \<longleftrightarrow>
     is_Ok (json_Marshal J (p\<lparr>PolicySignature := [], SignaturePublicKey := []\<rparr>)) \<and>
     (\<forall>sg pub. let q = p\<lparr>PolicySignature := sg, SignaturePublicKey := pub\<rparr> in
        is_Ok (bind_result (indent q) (json_Decode J)) \<and> bind_result (indent q) (json_Decode J) = Ok q)"

lemma read_in_sel [simp]:
  "json_Marshal (read_in fs J) = json_Marshal J" "json_Decode (read_in fs J) = json_Decode J"
  "ReadFile (read_in fs J) path = (case fs path of Some d \<Rightarrow> Ok d | None \<Rightarrow> Error ErrNotExist)"
  by (simp_all add: read_in_def)

lemma VerifyPolicySignature_read_in [simp]: "VerifyPolicySignature P (read_in fs J) p = VerifyPolicySignature P J p"
proof -
  have "CanonicalHash P (read_in fs J) p = CanonicalHash P J p" by (simp add: CanonicalHash_def)
  then show ?thesis by (simp only: VerifyPolicySignature_def)
qed

lemma flag_policy_sel [simp]:
  "SessionBudget (flag_policy f) = flag_session_budget f" "MaxPerTransaction (flag_policy f) = flag_max_per_tx f"
  by (simp_all add: flag_policy_def)

text \<open>The file that the first program writes is accepted by the second one.\<close>

lemma sign_policy_main_Ok:
  assumes "ecdsa_ok P k" and J: "json_ok J indent (flag_policy f)"
  shows "\<exists>ls fs' sg pub. sign_policy_main P J indent (Ok k) rnd None f fs = (Ok ls, fs') \<and>
    LoadAndVerify P (read_in fs' J) (flag_output f) = Ok ((flag_policy f)\<lparr>PolicySignature := sg, SignaturePublicKey := pub\<rparr>) \<and>
    (\<forall>path. path \<noteq> flag_output f \<longrightarrow> fs' path = fs path)"
proof -
  obtain d where d: "json_Marshal J ((flag_policy f)\<lparr>PolicySignature := [], SignaturePublicKey := []\<rparr>) = Ok d"
    using J by (auto simp: json_ok_def is_Ok_iff)
  then obtain p' where p': "SignPolicy P J rnd k (flag_policy f) = (Ok (), p')" "VerifyPolicySignature P J p' = Ok ()"
    "p'\<lparr>PolicySignature := [], SignaturePublicKey := []\<rparr> = (flag_policy f)\<lparr>PolicySignature := [], SignaturePublicKey := []\<rparr>"
    using SignPolicy_verifies [OF assms(1) d, of rnd] by blast
  have q: "p' = (flag_policy f)\<lparr>PolicySignature := PolicySignature p', SignaturePublicKey := SignaturePublicKey p'\<rparr>"
    using arg_cong [OF p'(3), of "\<lambda>p. p\<lparr>PolicySignature := PolicySignature p', SignaturePublicKey := SignaturePublicKey p'\<rparr>"] by simp
  have "bind_result (indent p') (json_Decode J) = Ok p'" using J q unfolding json_ok_def Let_def by metis
  then obtain data where data: "indent p' = Ok data" "json_Decode J data = Ok p'" by (auto simp: bind_result_eq_Ok)
  define fs' where "fs' = fs(flag_output f \<mapsto> data)"
  have "\<exists>ls. sign_policy_main P J indent (Ok k) rnd None f fs = (Ok ls, fs')"
    using p'(1,2) data(1) by (simp add: sign_policy_main_def fs'_def)
  moreover have "PolicySignature p' \<noteq> []" "SignaturePublicKey p' \<noteq> []"
    using p'(2) by (auto simp: VerifyPolicySignature_def split: if_splits)
  then have "LoadAndVerify P (read_in fs' J) (flag_output f) = Ok p'"
    using p'(2) data(2) by (simp add: LoadAndVerify_def fs'_def)
  ultimately obtain ls where "sign_policy_main P J indent (Ok k) rnd None f fs = (Ok ls, fs')"
    "LoadAndVerify P (read_in fs' J) (flag_output f) = Ok p'" by blast
  then show ?thesis unfolding q [symmetric]
    by (intro exI [of _ ls] exI [of _ fs'] exI [of _ "PolicySignature p'"] exI [of _ "SignaturePublicKey p'"])
      (simp add: q [symmetric] fs'_def)
qed

section \<open>A concrete JSON\<close>

definition sample_flags :: SignFlags where
  "sample_flags = \<lparr>flag_output = ''policy.json'', flag_session_budget = 10, flag_max_per_tx = 10, flag_rolling_24h = 100,
     flag_max_tx_per_hour = 5, flag_node_address = [], flag_persistent_key = []\<rparr>"

definition sample_indent :: "Policy \<Rightarrow> bytes result" where
  "sample_indent p = Ok (enc_str (PolicySignature p) @ enc_str (SignaturePublicKey p))"

definition sample_codec :: JPrims where
  "sample_codec = \<lparr>json_Marshal = (\<lambda>p. Ok []),
     json_Decode = (\<lambda>d. case dec_str d of
        Some (sg, r) \<Rightarrow> (case dec_str r of Some (pub, _) \<Rightarrow> Ok ((flag_policy sample_flags)\<lparr>PolicySignature := sg, SignaturePublicKey := pub\<rparr>)
                        | None \<Rightarrow> Error (ErrMsg []))
      | None \<Rightarrow> Error (ErrMsg [])), ReadFile = (\<lambda>_. Error ErrNotExist)\<rparr>"

lemma sample_codec_ok: "json_ok sample_codec sample_indent (flag_policy sample_flags)"
  by (simp add: json_ok_def sample_codec_def sample_indent_def is_Ok_iff)

section \<open>Properties\<close>



end
