(* ===== verification/Sse.thy ===== *)
theory Sse
  imports Prelude
begin

text \<open>
  The event broker of the dashboard, \<^verbatim>\<open>internal/dashboard/sse.go\<close>. Browsers connect, the broker
  goroutine registers and unregisters them and copies every event into the buffer of each client.
  Clients are pointers with a channel each, so a client is its identifier together with the
  identity of its channel; sending on a closed channel or closing one twice would panic and is
  an outcome of the model. The interleavings are the runs of a step relation.
\<close>

section \<open>State\<close>

record Client =
  client_id :: string
  sendCh :: nat

text \<open>A channel: what its buffer holds and whether it was closed.\<close>

record chan =
  buf :: "string list"
  closed :: bool

record SSEBroker =
  clients :: "(string \<times> Client) list"
  chans :: "nat \<Rightarrow> chan"
  broadcast :: "string list"

definition NewSSEBroker :: SSEBroker where
  "NewSSEBroker = \<lparr>clients = [], chans = (\<lambda>_. \<lparr>buf = [], closed = False\<rparr>), broadcast = []\<rparr>"

section \<open>The cases of the listen loop\<close>

definition listen_register :: "Client \<Rightarrow> SSEBroker \<Rightarrow> SSEBroker" where
  "listen_register client b = b\<lparr>clients := AList.update (client_id client) client (clients b)\<rparr>"

definition close_chan :: "nat \<Rightarrow> SSEBroker \<Rightarrow> SSEBroker result" where
  "close_chan c b =
     (if closed (chans b c) then Panic ''close of closed channel''
      else Ok (b\<lparr>chans := (chans b)(c := (chans b c)\<lparr>closed := True\<rparr>)\<rparr>))"

definition listen_unregister :: "Client \<Rightarrow> SSEBroker \<Rightarrow> SSEBroker result" where
  "listen_unregister client b =
     (if map_of (clients b) (client_id client) \<noteq> None
      then close_chan (sendCh client) (b\<lparr>clients := AList.delete (client_id client) (clients b)\<rparr>)
      else Ok b)"

text \<open>The inner \<^verbatim>\<open>select\<close>: a full buffer of 50 drops the message.\<close>

definition offer_msg :: "string \<Rightarrow> Client \<Rightarrow> SSEBroker \<Rightarrow> SSEBroker result" where
  "offer_msg msg client b =
     (let c = sendCh client in
      if closed (chans b c) then Panic ''send on closed channel''
      else if length (buf (chans b c)) < 50
      then Ok (b\<lparr>chans := (chans b)(c := (chans b c)\<lparr>buf := buf (chans b c) @ [msg]\<rparr>)\<rparr>)
      else Ok b)"

fun offer_all :: "string \<Rightarrow> (string \<times> Client) list \<Rightarrow> SSEBroker \<Rightarrow> SSEBroker result" where
  "offer_all msg [] b = Ok b"
| "offer_all msg ((_, client) # cs) b = bind_result (offer_msg msg client b) (offer_all msg cs)"

definition listen_broadcast ::
    "((string \<times> Client) list \<Rightarrow> (string \<times> Client) list) \<Rightarrow> string \<Rightarrow> SSEBroker \<Rightarrow> SSEBroker result" where
  "listen_broadcast ord msg b = offer_all msg (ord (clients b)) b"

section \<open>Events\<close>

abbreviation nl :: char where "nl \<equiv> CHR 0x0A"

text \<open>\<^verbatim>\<open>strings.Split(s, "\n")\<close>.\<close>

fun split_nl :: "string \<Rightarrow> string list" where
  "split_nl [] = [[]]"
| "split_nl (c # cs) =
     (if c = nl then [] # split_nl cs
      else case split_nl cs of [] \<Rightarrow> [[c]] | l # ls \<Rightarrow> (c # l) # ls)"

definition event_text :: "string \<Rightarrow> string \<Rightarrow> string" where
  "event_text event htmlData =
     ''event: '' @ event @ [nl] @ concat (map (\<lambda>line. ''data: '' @ line @ [nl]) (split_nl htmlData)) @ [nl]"

text \<open>The queue of broadcasts has room for 100; with a full queue the call blocks (\<open>None\<close>).\<close>

definition BroadcastEvent :: "string \<Rightarrow> string \<Rightarrow> SSEBroker \<Rightarrow> SSEBroker option" where
  "BroadcastEvent event htmlData b =
     (if length (broadcast b) < 100 then Some (b\<lparr>broadcast := broadcast b @ [event_text event htmlData]\<rparr>) else None)"

section \<open>The connection of a browser\<close>

text \<open>\<open>ptr\<close> is the text of the request pointer, \<open>ch\<close> the channel that is made for the client.\<close>

definition new_client :: "string \<Rightarrow> string \<Rightarrow> nat \<Rightarrow> Client" where
  "new_client ptr query_id ch =
     \<lparr>client_id = (if query_id \<noteq> [] then ''client_'' @ query_id else ''client_'' @ ptr), sendCh = ch\<rparr>"

text \<open>What the loop waits for; \<open>ok\<close> tells from what was written before whether the next write succeeds.\<close>

datatype serve_event = Gone | Tick | Msg string | ChanClosed

fun serve_loop :: "(string list \<Rightarrow> bool) \<Rightarrow> serve_event list \<Rightarrow> string list \<Rightarrow> bool \<times> string list" where
  "serve_loop ok [] w = (False, w)"
| "serve_loop ok (Gone # evs) w = (True, w)"
| "serve_loop ok (Tick # evs) w =
     (let hb = '': heartbeat'' @ [nl, nl] in if ok w then serve_loop ok evs (w @ [hb]) else (True, w))"
| "serve_loop ok (Msg m # evs) w = (if ok w then serve_loop ok evs (w @ [m]) else (True, w))"
| "serve_loop ok (ChanClosed # evs) w = (True, w)"

text \<open>
  The handler: status, the client it registers, whether it has returned, and the text it wrote. The
  outcome of the first write is ignored.
\<close>

definition ServeHTTP ::
    "bool \<Rightarrow> (string list \<Rightarrow> bool) \<Rightarrow> string \<Rightarrow> string \<Rightarrow> nat \<Rightarrow> serve_event list \<Rightarrow> nat \<times> Client option \<times> bool \<times> string list" where
  "ServeHTTP flusher ok ptr query_id ch evs =
     (if \<not> flusher then (400, None, True, [''Streaming unsupported'' @ [nl]])
      else
        let hello = ''event: connected'' @ [nl] @ ''data: {'' @ [CHR 0x22] @ ''status'' @ [CHR 0x22] @ '': '' @ [CHR 0x22] @ ''ok'' @ [CHR 0x22] @ ''}'' @ [nl, nl];
            (returned, w) = serve_loop ok evs (if ok [] then [hello] else [])
        in (200, Some (new_client ptr query_id ch), returned, w))"

section \<open>Interleavings\<close>

text \<open>
  A state of the dashboard: the broker, the running handlers and the next fresh channel. A handler
  registers when it starts and unregisters once when it returns.
\<close>

record sse_state =
  broker :: SSEBroker
  handlers :: "Client list"
  next_chan :: nat

inductive sse_step :: "sse_state \<Rightarrow> sse_state \<Rightarrow> bool" where
  connect: "client = new_client ptr query_id (next_chan s) \<Longrightarrow>
    sse_step s (s\<lparr>broker := listen_register client (broker s), handlers := client # handlers s, next_chan := next_chan s + 1\<rparr>)"
| disconnect: "handlers s = pre @ client # post \<Longrightarrow> listen_unregister client (broker s) = Ok b \<Longrightarrow>
    sse_step s (s\<lparr>broker := b, handlers := pre @ post\<rparr>)"
| post: "BroadcastEvent event html (broker s) = Some b \<Longrightarrow> sse_step s (s\<lparr>broker := b\<rparr>)"
| deliver: "broadcast (broker s) = msg # rest \<Longrightarrow> is_order ord \<Longrightarrow> listen_broadcast ord msg ((broker s)\<lparr>broadcast := rest\<rparr>) = Ok b \<Longrightarrow>
    sse_step s (s\<lparr>broker := b\<rparr>)"
| receive: "client \<in> set (handlers s) \<Longrightarrow> buf (chans (broker s) (sendCh client)) = m # ms \<Longrightarrow>
    sse_step s (s\<lparr>broker := (broker s)\<lparr>chans := (chans (broker s))(sendCh client := (chans (broker s) (sendCh client))\<lparr>buf := ms\<rparr>)\<rparr>\<rparr>)"

inductive sse_reach :: "sse_state \<Rightarrow> bool" where
  start: "sse_reach \<lparr>broker = NewSSEBroker, handlers = [], next_chan = 0\<rparr>"
| step: "sse_reach s \<Longrightarrow> sse_step s s' \<Longrightarrow> sse_reach s'"

text \<open>
  Registered clients belong to running handlers and are filed under their identifier; running
  handlers have channels of their own, which are open and never hold more than 50 messages.
\<close>

definition sse_inv :: "sse_state \<Rightarrow> bool" where
  "sse_inv s \<longleftrightarrow> keyed client_id (clients (broker s)) \<and> snd ` set (clients (broker s)) \<subseteq> set (handlers s) \<and>
     distinct (map sendCh (handlers s)) \<and> (\<forall>c \<in> set (handlers s). sendCh c < next_chan s) \<and>
     (\<forall>c \<in> set (handlers s). \<not> closed (chans (broker s) (sendCh c))) \<and>
     (\<forall>n \<ge> next_chan s. chans (broker s) n = \<lparr>buf = [], closed = False\<rparr>) \<and>
     (\<forall>n. length (buf (chans (broker s) n)) \<le> 50) \<and> length (broadcast (broker s)) \<le> 100"

lemma sse_invD:
  assumes "sse_inv s"
  shows "keyed client_id (clients (broker s))" and "(k, c) \<in> set (clients (broker s)) \<Longrightarrow> c \<in> set (handlers s)"
    and "distinct (map sendCh (handlers s))" and "c \<in> set (handlers s) \<Longrightarrow> \<not> closed (chans (broker s) (sendCh c))"
    and "c \<in> set (handlers s) \<Longrightarrow> sendCh c < next_chan s" and "length (buf (chans (broker s) n)) \<le> 50"
  using assms by (auto simp: sse_inv_def)

text \<open>One broadcast, when the clients have open channels of their own.\<close>

definition delivered :: "string \<Rightarrow> nat set \<Rightarrow> SSEBroker \<Rightarrow> SSEBroker" where
  "delivered msg C b = b\<lparr>chans := (\<lambda>n. if n \<in> C \<and> length (buf (chans b n)) < 50
     then (chans b n)\<lparr>buf := buf (chans b n) @ [msg]\<rparr> else chans b n)\<rparr>"

lemma offer_all_eq:
  assumes "distinct (map (sendCh \<circ> snd) cs)" and "\<forall>(k, c) \<in> set cs. \<not> closed (chans b (sendCh c))"
  shows "offer_all msg cs b = Ok (delivered msg (sendCh ` snd ` set cs) b)"
  using assms
proof (induction cs arbitrary: b)
  case Nil
  then show ?case by (simp add: delivered_def)
next
  case (Cons a cs)
  obtain k c where a: "a = (k, c)" by (cases a)
  have o: "offer_msg msg c b = Ok (delivered msg {sendCh c} b)"
    using Cons.prems(2) a by (auto simp: offer_msg_def delivered_def Let_def fun_eq_iff)
  have "\<forall>(k, d) \<in> set cs. \<not> closed (chans (delivered msg {sendCh c} b) (sendCh d))"
    using Cons.prems(2) by (auto simp: delivered_def)
  from Cons.IH [OF _ this] Cons.prems(1) have "offer_all msg (a # cs) b = Ok (delivered msg (sendCh ` snd ` set cs) (delivered msg {sendCh c} b))"
    by (simp add: a o)
  moreover have "delivered msg (sendCh ` snd ` set cs) (delivered msg {sendCh c} b) = delivered msg (sendCh ` snd ` set (a # cs)) b"
  proof -
    have "sendCh c \<notin> sendCh ` snd ` set cs" using Cons.prems(1) a by (auto simp: image_iff)
    then show ?thesis by (intro SSEBroker.equality) (auto simp: delivered_def fun_eq_iff a)
  qed
  ultimately show ?case by simp
qed

lemma listen_broadcast_eq:
  assumes s: "sse_inv s" and ord: "is_order ord" and b: "clients b = clients (broker s)" "chans b = chans (broker s)"
  shows "listen_broadcast ord msg b = Ok (delivered msg (sendCh ` snd ` set (clients b)) b)"
proof -
  note i = sse_invD [OF s]
  have "distinct (map (sendCh \<circ> snd) (clients b))"
    unfolding distinct_map
  proof
    show "distinct (clients b)" using i(1) b(1) unfolding keyed_def by (auto simp: distinct_map)
    show "inj_on (sendCh \<circ> snd) (set (clients b))"
    proof (rule inj_onI)
      fix x y assume x: "x \<in> set (clients b)" and y: "y \<in> set (clients b)" and e: "(sendCh \<circ> snd) x = (sendCh \<circ> snd) y"
      then have "snd x \<in> set (handlers s)" "snd y \<in> set (handlers s)" using i(2) [of "fst x" "snd x"] i(2) [of "fst y" "snd y"] b(1) by simp_all
      with i(3) e have "snd x = snd y" by (auto simp: distinct_map inj_on_def)
      moreover have "fst x = client_id (snd x)" "fst y = client_id (snd y)" using i(1) x y b(1) by (auto simp: keyed_def)
      ultimately show "x = y" by (simp add: prod_eq_iff)
    qed
  qed
  then have "distinct (map (sendCh \<circ> snd) (ord (clients b)))"
    using ord unfolding is_order_def by (metis mset_eq_imp_distinct_iff mset_map)
  moreover have "\<forall>(k, c) \<in> set (ord (clients b)). \<not> closed (chans b (sendCh c))"
    using i(2,4) b by (auto simp: is_order_set [OF ord])
  ultimately show ?thesis
    using offer_all_eq [of "ord (clients b)" b msg] by (simp add: listen_broadcast_def is_order_set [OF ord])
qed

lemma listen_unregister_eq:
  assumes "sse_inv s" and "client \<in> set (handlers s)"
  shows "listen_unregister client (broker s) = Ok (if map_of (clients (broker s)) (client_id client) = None then broker s
    else (broker s)\<lparr>clients := AList.delete (client_id client) (clients (broker s)),
      chans := (chans (broker s))(sendCh client := (chans (broker s) (sendCh client))\<lparr>closed := True\<rparr>)\<rparr>)"
  using sse_invD(4) [OF assms] by (simp add: listen_unregister_def close_chan_def)

lemma listen_unregister_inv:
  assumes inv: "sse_inv s" and h: "handlers s = pre @ client # post" and un: "listen_unregister client (broker s) = Ok b"
  shows "sse_inv (s\<lparr>broker := b, handlers := pre @ post\<rparr>)"
proof -
  have m: "client \<in> set (handlers s)" using h by simp
  have b: "b = (if map_of (clients (broker s)) (client_id client) = None then broker s
    else (broker s)\<lparr>clients := AList.delete (client_id client) (clients (broker s)),
      chans := (chans (broker s))(sendCh client := (chans (broker s) (sendCh client))\<lparr>closed := True\<rparr>)\<rparr>)"
    using un listen_unregister_eq [OF inv m] by simp
  have own: "c \<noteq> client" if "(k, c) \<in> set (clients (broker s))" "map_of (clients (broker s)) (client_id client) = None \<or> k \<noteq> client_id client" for k c
  proof -
    have "k = client_id c" using sse_invD(1) [OF inv] that(1) by (auto simp: keyed_def)
    moreover have "map_of (clients (broker s)) k \<noteq> None" using that(1) by (metis map_of_eq_None_iff fst_conv image_eqI)
    ultimately show ?thesis using that(2) by auto
  qed
  have "snd ` set (clients b) \<subseteq> set (pre @ post)"
    using sse_invD(2) [OF inv] own h unfolding b by (fastforce simp: AList.delete_eq split: if_splits)
  moreover have "\<forall>c \<in> set (pre @ post). sendCh c \<noteq> sendCh client"
    using sse_invD(3) [OF inv] h by (auto simp: image_iff)
  moreover have "keyed client_id (clients b)" using keyed_delete sse_invD(1) [OF inv] unfolding b by auto
  moreover have "sendCh client < next_chan s" using sse_invD(5) [OF inv m] .
  ultimately show ?thesis using inv h unfolding sse_inv_def by (auto simp: b split: if_splits)
qed

lemma sse_step_inv: "sse_step s s' \<Longrightarrow> sse_inv s \<Longrightarrow> sse_inv s'"
proof (induction rule: sse_step.induct)
  case (connect client ptr query_id s)
  have "keyed client_id (AList.update (client_id client) client (clients (broker s)))"
    using connect.prems by (intro keyed_update) (rule sse_invD(1))
  moreover have "sendCh client = next_chan s" using connect.hyps by (simp add: new_client_def)
  ultimately show ?case using connect.prems
    by (fastforce simp: sse_inv_def listen_register_def dest!: subsetD [OF set_AList_update])
next
  case (disconnect s pre client post b)
  then show ?case by (intro listen_unregister_inv)
next
  case (post event html s b)
  then show ?case by (clarsimp simp: sse_inv_def BroadcastEvent_def split: if_splits)
next
  case (deliver s msg rest ord b)
  have "b = delivered msg (sendCh ` snd ` set (clients (broker s))) ((broker s)\<lparr>broadcast := rest\<rparr>)"
    using deliver.hyps(3) listen_broadcast_eq [OF deliver.prems deliver.hyps(2), of "(broker s)\<lparr>broadcast := rest\<rparr>"] by simp
  moreover have "n \<notin> sendCh ` snd ` set (clients (broker s))" if "n \<ge> next_chan s" for n
    using that sse_invD(2,5) [OF deliver.prems] by fastforce
  ultimately show ?case using deliver.prems deliver.hyps(1) by (auto simp: sse_inv_def delivered_def)
next
  case (receive client s m ms)
  have "length ms \<le> 50" using sse_invD(6) [OF receive.prems, of "sendCh client"] receive.hyps(2) by simp
  then show ?case using receive.prems sse_invD(5) [OF receive.prems receive.hyps(1)] by (auto simp: sse_inv_def)
qed

lemma sse_reach_inv: "sse_reach s \<Longrightarrow> sse_inv s"
proof (induction rule: sse_reach.induct)
  case start
  then show ?case by (simp add: sse_inv_def NewSSEBroker_def)
next
  case (step s s')
  then show ?case by (blast intro: sse_step_inv)
qed

section \<open>Framing\<close>

text \<open>
  How a browser reads an event: the lines up to the first empty one, the name after \<^verbatim>\<open>event: \<close>, and
  the data lines joined by line breaks.
\<close>

fun join_nl :: "string list \<Rightarrow> string" where
  "join_nl [] = []"
| "join_nl [l] = l"
| "join_nl (l # ls) = l @ [nl] @ join_nl ls"

definition read_event :: "string \<Rightarrow> string \<times> string" where
  "read_event t =
     (let ls = takeWhile (\<lambda>l. l \<noteq> []) (split_nl t)
      in (concat (map (drop 7) (filter (\<lambda>l. take 7 l = ''event: '') ls)),
          join_nl (map (drop 6) (filter (\<lambda>l. take 6 l = ''data: '') ls))))"

lemma split_nl_ne [simp]: "split_nl s \<noteq> []"
  by (induction s) (auto split: list.split)

lemma split_nl_line: "nl \<notin> set l \<Longrightarrow> split_nl (l @ nl # r) = l # split_nl r"
  by (induction l) auto

lemma split_nl_no_nl: "l \<in> set (split_nl s) \<Longrightarrow> nl \<notin> set l"
  by (induction s arbitrary: l) (fastforce split: if_splits list.splits)+

lemma split_nl_lines:
  "\<forall>l \<in> set ls. nl \<notin> set l \<Longrightarrow> split_nl (concat (map (\<lambda>l. ''data: '' @ l @ [nl]) ls) @ r) = map (\<lambda>l. ''data: '' @ l) ls @ split_nl r"
proof (induction ls)
  case (Cons l ls)
  then show ?case
    using split_nl_line [of "''data: '' @ l" "concat (map (\<lambda>l. ''data: '' @ l @ [nl]) ls) @ r"] by simp
qed simp

lemma join_split: "join_nl (split_nl s) = s"
proof (induction s)
  case (Cons c s)
  obtain l ls where s: "split_nl s = l # ls" by (cases "split_nl s") auto
  then have "join_nl ((c # l) # ls) = c # join_nl (l # ls)" by (cases ls) auto
  then show ?case using Cons s by simp
qed simp

text \<open>Reading the text of an event gives its name and payload back.\<close>

lemma read_event_text:
  assumes "nl \<notin> set event"
  shows "read_event (event_text event html) = (event, html)"
proof -
  have l: "split_nl (event_text event html) = (''event: '' @ event) # map (\<lambda>l. ''data: '' @ l) (split_nl html) @ [[], []]"
    using split_nl_line [of "''event: '' @ event"] assms split_nl_lines [of "split_nl html" "[nl]"] split_nl_no_nl [of _ html]
    by (simp add: event_text_def)
  define D where "D = (\<lambda>l. ''data: '' @ l)"
  have D: "D l \<noteq> []" "take 6 (D l) = ''data: ''" "drop 6 (D l) = l" "take 7 (D l) \<noteq> ''event: ''" for l
    by (simp_all add: D_def)
  have w: "takeWhile (\<lambda>l. l \<noteq> []) (map D ls @ [[], []]) = map D ls" for ls using D(1) by (induction ls) auto
  have f: "filter (\<lambda>l. take 7 l = ''event: '') (map D ls) = []" for ls using D(4) by (induction ls) auto
  have g: "filter (\<lambda>l. take 6 l = ''data: '') (map D ls) = map D ls" "map (drop 6) (map D ls) = ls" for ls
    using D(2,3) by (induction ls) auto
  have "split_nl (event_text event html) = (''event: '' @ event) # map D (split_nl html) @ [[], []]" using l by (simp add: D_def)
  then have "read_event (event_text event html) = (event, join_nl (split_nl html))"
    by (simp add: read_event_def Let_def w f g del: map_map)
  then show ?thesis using join_split by simp
qed

section \<open>Properties\<close>

text \<open>
  C37. Whatever browsers do, the broker does not panic. In every interleaving of connecting,
  disconnecting, posting, delivering and reading, whatever identifiers the browsers choose: any
  running handler can unregister, and any event can be delivered, without closing a channel
  twice or sending on a closed one. A delivery appends the event to the buffer of each registered
  client with fewer than 50 waiting events and changes no other buffer, so no buffer ever
  exceeds 50.
\<close>

theorem sse_never_panics:
  assumes "sse_reach s"
  shows "(\<forall>client \<in> set (handlers s). is_Ok (listen_unregister client (broker s))) \<and>
    (\<forall>ord msg. is_order ord \<longrightarrow> (\<exists>b. listen_broadcast ord msg (broker s) = Ok b \<and> clients b = clients (broker s) \<and>
       (\<forall>n. buf (chans b n) = (if n \<in> sendCh ` snd ` set (clients (broker s)) \<and> length (buf (chans (broker s) n)) < 50
          then buf (chans (broker s) n) @ [msg] else buf (chans (broker s) n))))) \<and>
    (\<forall>n. length (buf (chans (broker s) n)) \<le> 50)"
proof -
  note i = sse_reach_inv [OF assms]
  show ?thesis
    using listen_unregister_eq [OF i] listen_broadcast_eq [OF i, of _ "broker s"] sse_invD(6) [OF i]
    by (auto simp: delivered_def)
qed

text \<open>
  Events survive the framing: a browser that reads the text of \<open>BroadcastEvent\<close> gets back the name
  of the event and its payload, however many lines the payload has, provided that the name is
  a single line. (The payload may contain empty lines; they do not end the event.)
\<close>

theorem event_roundtrip:
  assumes "nl \<notin> set event" and "BroadcastEvent event html b = Some b'"
  shows "\<exists>t. broadcast b' = broadcast b @ [t] \<and> read_event t = (event, html)"
  using assms(2) read_event_text [OF assms(1)] by (auto simp: BroadcastEvent_def split: if_splits)

text \<open>
  Two connections may choose the same identifier, and then the broker mixes them up: when the
  first of them goes away, the second one is unregistered. Its handler keeps running, but no
  event reaches it any more.
\<close>

theorem sse_same_id:
  "\<exists>s client. sse_reach s \<and> client \<in> set (handlers s) \<and> \<not> closed (chans (broker s) (sendCh client)) \<and>
     (\<forall>ord msg b. is_order ord \<longrightarrow> listen_broadcast ord msg (broker s) = Ok b \<longrightarrow> chans b = chans (broker s))"
proof -
  define A where "A = new_client [] ''x'' 0"
  define B where "B = new_client [] ''x'' 1"
  define s0 where "s0 = \<lparr>broker = NewSSEBroker, handlers = [], next_chan = 0\<rparr>"
  define s1 where "s1 = s0\<lparr>broker := listen_register A (broker s0), handlers := A # handlers s0, next_chan := next_chan s0 + 1\<rparr>"
  define s2 where "s2 = s1\<lparr>broker := listen_register B (broker s1), handlers := B # handlers s1, next_chan := next_chan s1 + 1\<rparr>"
  have r2: "sse_reach s2"
    using sse_reach.start sse_step.connect [of A "[]" "''x''" s0] sse_step.connect [of B "[]" "''x''" s1]
    unfolding s2_def [symmetric] s1_def [symmetric] by (auto simp: s0_def s1_def A_def B_def intro: sse_reach.step)
  define b3 where "b3 = (broker s2)\<lparr>clients := [], chans := (chans (broker s2))(0 := (chans (broker s2) 0)\<lparr>closed := True\<rparr>)\<rparr>"
  have "listen_unregister A (broker s2) = Ok b3"
    by (simp add: listen_unregister_def close_chan_def b3_def s2_def s1_def s0_def listen_register_def A_def B_def new_client_def NewSSEBroker_def)
  moreover have "handlers s2 = [B] @ A # []" by (simp add: s2_def s1_def s0_def)
  ultimately have "sse_reach (s2\<lparr>broker := b3, handlers := [B] @ []\<rparr>)" using sse_step.disconnect r2 by (blast intro: sse_reach.step)
  moreover have "listen_broadcast ord msg b3 = Ok b3" if "is_order ord" for ord msg
    using is_order_length [OF that, of "[]"] by (simp add: listen_broadcast_def b3_def)
  moreover have "\<not> closed (chans b3 (sendCh B))"
    by (simp add: b3_def s2_def s1_def s0_def listen_register_def B_def new_client_def NewSSEBroker_def)
  ultimately show ?thesis
    by (intro exI [of _ "s2\<lparr>broker := b3, handlers := [B] @ []\<rparr>"] exI [of _ B]) auto
qed

theorem sse_never_panics_witness:
  "is_Ok (listen_broadcast (\<lambda>x. x) ''m'' (broker \<lparr>broker = NewSSEBroker, handlers = [], next_chan = 0\<rparr>))"
proof -
  have "is_order (\<lambda>x :: (string \<times> Client) list. x)" by simp
  with sse_never_panics [OF sse_reach.start]
  have "\<exists>b. listen_broadcast (\<lambda>x. x) ''m'' (broker \<lparr>broker = NewSSEBroker, handlers = [], next_chan = 0\<rparr>) = Ok b" by blast
  then show ?thesis by (auto simp: is_Ok_iff)
qed

theorem event_roundtrip_witness:
  "\<exists>b' t. BroadcastEvent ''metrics'' [CHR ''a'', nl, nl, CHR ''b''] NewSSEBroker = Some b' \<and> broadcast b' = [t] \<and>
     read_event t = (''metrics'', [CHR ''a'', nl, nl, CHR ''b''])"
  using event_roundtrip [of "''metrics''" "[CHR ''a'', nl, nl, CHR ''b'']" NewSSEBroker]
  by (auto simp: BroadcastEvent_def NewSSEBroker_def)

end
