(* ===== verification/Pages.thy ===== *)
theory Pages
  imports Sse
begin

text \<open>
  The markup of the dashboard, the format strings of \<^verbatim>\<open>internal/dashboard/templates.go\<close>. A format
  string is the list of the texts between its verbs, with \<^verbatim>\<open>%%\<close> read as a percent sign, and
  \<open>Sprintf\<close> puts the formatted arguments between them. In the literals \<^verbatim>\<open>`\<close> stands for the
  double quote, \<^verbatim>\<open>~\<close> for the single quote and \<^verbatim>\<open>^\<close> for the two bytes of the letter mu, none of which
  occur in the source as themselves; \<open>line n\<close> starts a line that is indented by \<open>n\<close> tabs.
\<close>

definition html :: "string \<Rightarrow> string" where
  "html s = concat (map (\<lambda>c. if c = CHR 0x60 then [CHR 0x22] else if c = CHR 0x7E then [CHR 0x27]
     else if c = CHR 0x5E then [CHR 0xCE, CHR 0xBC] else [c]) s)"

definition line :: "nat \<Rightarrow> string \<Rightarrow> string" where
  "line n s = nl # replicate n (CHR 0x09) @ s"

fun Sprintf :: "string list \<Rightarrow> string list \<Rightarrow> string" where
  "Sprintf [] args = []"
| "Sprintf (text # texts) [] = text"
| "Sprintf (text # texts) (arg # args) = text @ arg @ Sprintf texts args"

text \<open>The markup of the four cards of the header.\<close>

definition metrics_tpl :: "string list" where
  "metrics_tpl =
     [html (line 1 ''<div class=`glass-card p-5 rounded-2xl border-l-4 border-[#D99B73] flex items-center justify-between`>'' @
        line 2 ''<div class=`space-y-1`>'' @
        line 3 ''<span class=`text-slate-400 text-xs font-semibold uppercase tracking-wider block`>Blocks Indexed</span>'' @
        line 3 ''<div class=`text-3xl font-extrabold font-outfit text-white tracking-tight`>''),
      html (''</div>'' @
        line 3 ''<span class=`text-[11px] text-emerald-400 flex items-center gap-1 font-medium`>'' @
        line 4 ''<span class=`w-1.5 h-1.5 rounded-full bg-emerald-400 animate-pulse`></span>'' @
        line 4 ''Verified Chain Height'' @
        line 3 ''</span>'' @
        line 2 ''</div>'' @
        line 2 ''<div class=`p-3 rounded-2xl bg-[#D99B73]/15 text-[#E2A984] border border-[#D99B73]/30 shadow-lg shadow-[#D99B73]/10`>'' @
        line 3 ''<svg class=`w-6 h-6` fill=`none` stroke=`currentColor` viewBox=`0 0 24 24`><path stroke-linecap=`round` stroke-linejoin=`round` stroke-width=`2` d=`M19 11H5m14 0a2 2 0 012 2v6a2 2 0 01-2 2H5a2 2 0 01-2-2v-6a2 2 0 012-2m14 0V9a2 2 0 00-2-2M5 11V9a2 2 0 012-2m0 0V5a2 2 0 012-2h6a2 2 0 012 2v2M7 7h10`/></svg>'' @
        line 2 ''</div>'' @
        line 1 ''</div>'' @
        line 0 [] @
        line 1 ''<div class=`glass-card p-5 rounded-2xl border-l-4 border-cyan-500 flex items-center justify-between`>'' @
        line 2 ''<div class=`space-y-1`>'' @
        line 3 ''<span class=`text-slate-400 text-xs font-semibold uppercase tracking-wider block`>Total Transactions</span>'' @
        line 3 ''<div class=`text-3xl font-extrabold font-outfit text-white tracking-tight`>''),
      html (''</div>'' @
        line 3 ''<span class=`text-[11px] text-cyan-400 font-mono font-medium`>100% Validated UTXOs</span>'' @
        line 2 ''</div>'' @
        line 2 ''<div class=`p-3 rounded-2xl bg-cyan-500/15 text-cyan-400 border border-cyan-500/30 shadow-lg shadow-cyan-500/10`>'' @
        line 3 ''<svg class=`w-6 h-6` fill=`none` stroke=`currentColor` viewBox=`0 0 24 24`><path stroke-linecap=`round` stroke-linejoin=`round` stroke-width=`2` d=`M8 7h12m0 0l-4-4m4 4l-4 4m0 6H4m0 0l4 4m-4-4l4-4`/></svg>'' @
        line 2 ''</div>'' @
        line 1 ''</div>'' @
        line 0 [] @
        line 1 ''<div class=`glass-card p-5 rounded-2xl border-l-4 border-purple-500 flex items-center justify-between`>'' @
        line 2 ''<div class=`space-y-1`>'' @
        line 3 ''<span class=`text-slate-400 text-xs font-semibold uppercase tracking-wider block`>Active Escrows</span>'' @
        line 3 ''<div class=`text-3xl font-extrabold font-outfit text-white tracking-tight`>''),
      html (''</div>'' @
        line 3 ''<span class=`text-[11px] text-purple-400 font-medium`>HTLC & ZKCP Contracts</span>'' @
        line 2 ''</div>'' @
        line 2 ''<div class=`p-3 rounded-2xl bg-purple-500/15 text-purple-400 border border-purple-500/30 shadow-lg shadow-purple-500/10`>'' @
        line 3 ''<svg class=`w-6 h-6` fill=`none` stroke=`currentColor` viewBox=`0 0 24 24`><path stroke-linecap=`round` stroke-linejoin=`round` stroke-width=`2` d=`M12 15v2m-6 4h12a2 2 0 002-2v-6a2 2 0 00-2-2H6a2 2 0 00-2 2v6a2 2 0 002 2zm10-10V7a4 4 0 00-8 0v4h8z`/></svg>'' @
        line 2 ''</div>'' @
        line 1 ''</div>'' @
        line 0 [] @
        line 1 ''<div class=`glass-card p-5 rounded-2xl border-l-4 border-amber-500 flex items-center justify-between`>'' @
        line 2 ''<div class=`space-y-1`>'' @
        line 3 ''<span class=`text-slate-400 text-xs font-semibold uppercase tracking-wider block`>Settlement Volume</span>'' @
        line 3 ''<div class=`text-3xl font-extrabold font-outfit text-white tracking-tight`>''),
      html ('' <span class=`text-xs font-mono text-[#E2A984] font-semibold`>^c</span></div>'' @
        line 3 ''<span class=`text-[11px] text-amber-400 font-medium`>Micro-Payment Ledger</span>'' @
        line 2 ''</div>'' @
        line 2 ''<div class=`p-3 rounded-2xl bg-amber-500/15 text-amber-400 border border-amber-500/30 shadow-lg shadow-amber-500/10`>'' @
        line 3 ''<svg class=`w-6 h-6` fill=`none` stroke=`currentColor` viewBox=`0 0 24 24`><path stroke-linecap=`round` stroke-linejoin=`round` stroke-width=`2` d=`M13 10V3L4 14h7v7l9-11h-7z`/></svg>'' @
        line 2 ''</div>'' @
        line 1 ''</div>'' @
        line 1 [])]"

text \<open>The markup of no escrow to show.\<close>

definition no_escrows_tpl :: "string list" where
  "no_escrows_tpl =
     [html ''<div class=`p-8 text-center text-slate-500 text-sm rounded-2xl bg-slate-900/40 border border-slate-800/80`>No active HTLC or ZKCP escrows currently pending settlement.</div>'']"

text \<open>The markup of the card of one escrow.\<close>

definition escrow_tpl :: "string list" where
  "escrow_tpl =
     [html (line 2 ''<div class=`p-4 rounded-2xl bg-slate-900/60 border border-slate-800/80 hover:border-[#D99B73]/40 transition-all space-y-3`>'' @
        line 3 ''<div class=`flex flex-col sm:flex-row sm:items-center justify-between gap-2`>'' @
        line 4 ''<div class=`flex items-center gap-2 flex-wrap`>'' @
        line 5 ''<button @click=`copyToClipboard(~''),
      html ''~)` title=`Click to copy TX ID` class=`font-mono text-xs text-[#E2A984] bg-[#D99B73]/15 px-2.5 py-1 rounded-lg border border-[#D99B73]/30 font-semibold hover:bg-[#D99B73]/25 transition-all`>TX '',
      html (''...</button>'' @
        line 5 ''<span class=`px-2.5 py-1 rounded-lg text-xs font-semibold border ''),
      html ''`>'',
      html (''</span>'' @
        line 5 ''<span class=`px-2 py-0.5 rounded-md text-[10px] font-semibold bg-purple-500/10 text-purple-300 border border-purple-500/30 flex items-center gap-1 font-mono`>'' @
        line 6 ''<svg class=`w-3 h-3 text-purple-400` fill=`none` stroke=`currentColor` viewBox=`0 0 24 24`><path stroke-linecap=`round` stroke-linejoin=`round` stroke-width=`2` d=`M9 12l2 2 4-4m5.618-4.016A11.955 11.955 0 0112 2.944a11.955 11.955 0 01-8.618 3.04A12.02 12.02 0 003 9c0 5.591 3.824 10.29 9 11.622 5.176-1.332 9-6.03 9-11.622 0-1.042-.133-2.052-.382-3.016z`/></svg>'' @
        line 6 ''ZKCP Proof Valid'' @
        line 5 ''</span>'' @
        line 4 ''</div>'' @
        line 4 ''<div class=`text-right`>'' @
        line 5 ''<span class=`text-base font-extrabold font-outfit text-white`>''),
      html ('' ^-cents</span>'' @
        line 4 ''</div>'' @
        line 3 ''</div>'' @
        line 3 [] @
        line 3 ''<div class=`grid grid-cols-1 sm:grid-cols-2 gap-2 text-xs text-slate-400 pt-2 border-t border-slate-800/50`>'' @
        line 4 ''<div>'' @
        line 5 ''<span class=`text-slate-500`>Buyer:</span> '' @
        line 5 ''<code @click=`copyToClipboard(~''),
      html ''~)` title=`Click to copy address` class=`font-mono text-slate-300 bg-slate-950 px-1.5 py-0.5 rounded border border-slate-800 hover:border-slate-600 cursor-pointer`>'',
      html (''...</code>'' @
        line 4 ''</div>'' @
        line 4 ''<div class=`sm:text-right`>'' @
        line 5 ''<span class=`text-slate-500`>Seller:</span> '' @
        line 5 ''<code @click=`copyToClipboard(~''),
      html ''~)` title=`Click to copy address` class=`font-mono text-slate-300 bg-slate-950 px-1.5 py-0.5 rounded border border-slate-800 hover:border-slate-600 cursor-pointer`>'',
      html (''...</code>'' @
        line 4 ''</div>'' @
        line 3 ''</div>'' @
        line 0 [] @
        line 3 ''<div class=`flex items-center justify-between text-xs text-slate-400 pt-1`>'' @
        line 4 ''<span class=`flex items-center gap-1 text-slate-400`>'' @
        line 5 ''<svg class=`w-3.5 h-3.5 text-[#E2A984]` fill=`none` stroke=`currentColor` viewBox=`0 0 24 24`><path stroke-linecap=`round` stroke-linejoin=`round` stroke-width=`2` d=`M12 8v4l3 3m6-3a9 9 0 11-18 0 9 9 0 0118 0z`/></svg>'' @
        line 5 ''Timeout Target: <strong class=`text-slate-200 font-mono`>Block #''),
      html (''</strong>'' @
        line 4 ''</span>'' @
        line 4 ''<span class=`font-mono text-slate-500`>Created @ Height #''),
      html (''</span>'' @
        line 3 ''</div>'' @
        line 2 ''</div>'' @
        line 2 [])]"

text \<open>The markup of no service to show.\<close>

definition no_services_tpl :: "string list" where
  "no_services_tpl =
     [html ''<div class=`p-8 text-center text-slate-500 text-sm col-span-2 rounded-2xl bg-slate-900/40 border border-slate-800/80`>No AI agent services registered yet. Register services via CLI or API.</div>'']"

text \<open>The markup of the card of one service.\<close>

definition service_tpl :: "string list" where
  "service_tpl =
     [html (line 2 ''<div class=`p-5 rounded-2xl bg-slate-900/60 border border-slate-800/80 hover:border-[#D99B73]/40 transition-all flex flex-col justify-between space-y-4`>'' @
        line 3 ''<div class=`space-y-2`>'' @
        line 4 ''<div class=`flex items-start justify-between gap-3`>'' @
        line 5 ''<h3 class=`font-outfit font-bold text-slate-100 text-base`>''),
      html (''</h3>'' @
        line 5 ''<span class=`px-2.5 py-1 bg-[#D99B73]/15 text-[#E2A984] border border-[#D99B73]/30 text-xs font-extrabold font-outfit rounded-xl shadow-sm`>'' @
        line 6 []),
      html ('' ^c / call'' @
        line 5 ''</span>'' @
        line 4 ''</div>'' @
        line 4 ''<p class=`text-xs text-slate-400 line-clamp-2 leading-relaxed`>''),
      html (''</p>'' @
        line 3 ''</div>'' @
        line 3 [] @
        line 3 ''<div class=`space-y-2.5 pt-3 border-t border-slate-800/60 text-xs`>'' @
        line 4 ''<div class=`flex items-center justify-between text-slate-400`>'' @
        line 5 ''<span class=`text-slate-500`>Agent:</span>'' @
        line 5 ''<code @click=`copyToClipboard(~''),
      html ''~)` class=`font-mono text-[#F0B892] bg-slate-950 px-2 py-0.5 rounded border border-slate-800 hover:border-[#D99B73]/50 cursor-pointer`>'',
      html (''</code>'' @
        line 4 ''</div>'' @
        line 4 ''<div class=`flex items-center justify-between text-slate-400`>'' @
        line 5 ''<span class=`text-slate-500`>Endpoint:</span>'' @
        line 5 ''<span class=`font-mono text-cyan-400 hover:underline cursor-pointer truncate max-w-[180px]`>''),
      html (''</span>'' @
        line 4 ''</div>'' @
        line 3 ''</div>'' @
        line 2 ''</div>'' @
        line 2 [])]"

text \<open>The markup of the budget of the session.\<close>

definition firewall_tpl :: "string list" where
  "firewall_tpl =
     [html (line 1 ''<div class=`glass-card rounded-3xl p-6 border border-slate-800/80 relative overflow-hidden group`>'' @
        line 2 ''<div class=`absolute -right-10 -bottom-10 w-40 h-40 bg-[#D99B73]/10 rounded-full blur-3xl group-hover:bg-[#D99B73]/20 transition-all`></div>'' @
        line 2 [] @
        line 2 ''<div class=`flex items-center justify-between mb-4`>'' @
        line 3 ''<div class=`flex items-center gap-3`>'' @
        line 4 ''<div class=`w-10 h-10 rounded-2xl bg-[#D99B73]/15 border border-[#D99B73]/30 flex items-center justify-center text-[#E2A984]`>'' @
        line 5 ''<svg class=`w-5 h-5` fill=`none` stroke=`currentColor` viewBox=`0 0 24 24`><path stroke-linecap=`round` stroke-linejoin=`round` stroke-width=`2` d=`M12 8c-1.657 0-3 .895-3 2s1.343 2 3 2 3 .895 3 2-1.343 2-3 2m0-8c1.11 0 2.08.402 2.599 1M12 8V7m0 1v8m0 0v1m0-1c-1.11 0-2.08-.402-2.599-1M21 12a9 9 0 11-18 0 9 9 0 0118 0z`/></svg>'' @
        line 4 ''</div>'' @
        line 4 ''<div>'' @
        line 5 ''<h3 class=`text-sm font-bold text-slate-200`>Session Budget Limit</h3>'' @
        line 5 ''<p class=`text-xs text-slate-400`>Policy Agent AI Micro-payments</p>'' @
        line 4 ''</div>'' @
        line 3 ''</div>'' @
        line 3 ''<span class=`px-3 py-1 rounded-full text-xs font-semibold bg-[#D99B73]/15 text-[#E2A984] border border-[#D99B73]/30`>'' @
        line 4 []),
      html (''% Used'' @
        line 3 ''</span>'' @
        line 2 ''</div>'' @
        line 0 [] @
        line 2 ''<div class=`space-y-2 mb-4`>'' @
        line 3 ''<div class=`flex justify-between text-xs font-medium`>'' @
        line 4 ''<span class=`text-slate-400`>Spent: <strong class=`text-slate-200`>''),
      html ('' ^c</strong></span>'' @
        line 4 ''<span class=`text-slate-400`>Budget: <strong class=`text-slate-200`>''),
      html ('' ^c</strong></span>'' @
        line 3 ''</div>'' @
        line 3 ''<div class=`w-full bg-slate-900 rounded-full h-2.5 overflow-hidden p-0.5 border border-slate-800`>'' @
        line 4 ''<div class=`bg-gradient-to-r from-[#D99B73] via-[#E2A984] to-[#F0B892] h-1.5 rounded-full transition-all duration-500 shadow-md shadow-[#D99B73]/30` style=`width: ''),
      html (''%`></div>'' @
        line 3 ''</div>'' @
        line 2 ''</div>'' @
        line 0 [] @
        line 2 ''<div class=`grid grid-cols-2 gap-3 pt-3 border-t border-slate-800/60`>'' @
        line 3 ''<div class=`p-3 rounded-xl bg-slate-950/60 border border-slate-800`>'' @
        line 4 ''<span class=`text-slate-500 block text-[11px]`>Available Budget</span>'' @
        line 4 ''<strong class=`text-emerald-400 font-outfit text-sm font-bold`>''),
      html ('' ^c</strong>'' @
        line 3 ''</div>'' @
        line 3 ''<div class=`p-3 rounded-xl bg-slate-950/60 border border-slate-800`>'' @
        line 4 ''<span class=`text-slate-500 block text-[11px]`>Passkey Firewall</span>'' @
        line 4 ''<strong class=`text-[#E2A984] font-outfit text-sm font-bold flex items-center gap-1`>'' @
        line 5 ''<svg class=`w-3.5 h-3.5 text-[#E2A984]` fill=`none` stroke=`currentColor` viewBox=`0 0 24 24`><path stroke-linecap=`round` stroke-linejoin=`round` stroke-width=`2` d=`M12 15v2m-6 4h12a2 2 0 002-2v-6a2 2 0 00-2-2H6a2 2 0 00-2 2v6a2 2 0 002 2zm10-10V7a4 4 0 00-8 0v4h8z`/></svg>'' @
        line 5 ''ACTIVE'' @
        line 4 ''</strong>'' @
        line 3 ''</div>'' @
        line 2 ''</div>'' @
        line 1 ''</div>'' @
        line 1 [])]"

text \<open>The markup of no block to show.\<close>

definition no_blocks_tpl :: "string list" where
  "no_blocks_tpl =
     [html ''<div class=`p-6 text-center text-slate-500 text-sm rounded-2xl bg-slate-900/40 border border-slate-800/80`>No recent blocks indexed yet.</div>'']"

text \<open>The markup of the row of one block.\<close>

definition block_tpl :: "string list" where
  "block_tpl =
     [html (line 2 ''<div class=`p-3.5 rounded-2xl bg-slate-900/60 border border-slate-800/80 hover:border-[#D99B73]/40 transition-all flex items-center justify-between gap-3 text-xs`>'' @
        line 3 ''<div class=`flex items-center gap-3`>'' @
        line 4 ''<span class=`px-2.5 py-1 rounded-xl bg-[#D99B73]/15 text-[#E2A984] border border-[#D99B73]/30 font-extrabold font-outfit text-xs`>'' @
        line 5 ''#''),
      html (line 4 ''</span>'' @
        line 4 ''<div>'' @
        line 5 ''<div class=`font-mono text-slate-200 font-semibold`>''),
      html (''...</div>'' @
        line 5 ''<div class=`text-[11px] text-slate-500 mt-0.5`>''),
      html ('' transactions</div>'' @
        line 4 ''</div>'' @
        line 3 ''</div>'' @
        line 3 ''<div class=`text-right`>'' @
        line 4 ''<span class=`text-slate-400 font-mono text-[11px] block`>''),
      html (''</span>'' @
        line 4 ''<span class=`text-[10px] text-emerald-400 font-medium bg-emerald-500/10 px-1.5 py-0.5 rounded border border-emerald-500/20 inline-block mt-0.5`>CONFIRMED</span>'' @
        line 3 ''</div>'' @
        line 2 ''</div>'' @
        line 2 [])]"

end
