(* ===== verification/IndexPage.thy ===== *)
theory IndexPage
  imports Prelude
begin

text \<open>
  The text of the index page, the constant \<^verbatim>\<open>indexHTML\<close> of \<^verbatim>\<open>internal/dashboard/templates.go\<close>, line by
  line, and what the page asks its server for: the panels that fetch their content, and when.
\<close>

section \<open>The text\<close>

text \<open>The head with the libraries and their configuration.\<close>

definition index_scripts :: "string list" where \<open>
  index_scripts =
    [''<!DOCTYPE html>'',
     ''<html lang="en" class="dark">'',
     ''<head>'',
     ''    <meta charset="UTF-8">'',
     ''    <meta name="viewport" content="width=device-width, initial-scale=1.0">'',
     ''    <title>Obol | AI Micro-payment Settlement Engine</title>'',
     ''    <link rel="icon" type="image/png" href="/assets/icon.png">'',
     ''    <!-- Premium Fonts -->'',
     ''    <link rel="preconnect" href="https://fonts.googleapis.com">'',
     ''    <link rel="preconnect" href="https://fonts.gstatic.com" crossorigin>'',
     ''    <link href="https://fonts.googleapis.com/css2?family=Inter:wght@300;400;500;600;700&family=JetBrains+Mono:ital,wght@0,400;0,500;0,600;1,400&family=Outfit:wght@500;600;700;800&display=swap" rel="stylesheet">'',
     ''    <!-- Tailwind CSS -->'',
     ''    <script src="https://cdn.tailwindcss.com"></script>'',
     ''    <!-- HTMX & HTMX SSE extension -->'',
     ''    <script src="https://unpkg.com/htmx.org@1.9.10"></script>'',
     ''    <script src="https://unpkg.com/htmx.org@1.9.10/dist/ext/sse.js"></script>'',
     ''    <!-- Alpine.js -->'',
     ''    <script defer src="https://unpkg.com/alpinejs@3.x.x/dist/cdn.min.js"></script>'',
     ''    <script>'',
     ''        tailwind.config = {'',
     ''            darkMode: 'class','',
     ''            theme: {'',
     ''                extend: {'',
     ''                    fontFamily: {'',
     ''                        sans: ['Inter', 'sans-serif'],'',
     ''                        outfit: ['Outfit', 'sans-serif'],'',
     ''                        mono: ['JetBrains Mono', 'monospace'],'',
     ''                    },'',
     ''                    colors: {'',
     ''                        darkBg: '#0A0A0E','',
     ''                        panelBg: 'rgba(18, 18, 24, 0.78)','',
     ''                        copper: {'',
     ''                            300: '#F0B892','',
     ''                            400: '#E2A984','',
     ''                            500: '#D99B73','',
     ''                            600: '#C8835A','',
     ''                        }'',
     ''                    }'',
     ''                }'',
     ''            }'',
     ''        }'',
     ''    </script>'']\<close>

text \<open>The style sheet.\<close>

definition index_style :: "string list" where \<open>
  index_style =
    [''    <style>'',
     ''        body {'',
     ''            background-color: #0A0A0E;'',
     ''            background-image: '',
     ''                radial-gradient(circle at 15% 15%, rgba(217, 155, 115, 0.13) 0%, transparent 40%),'',
     ''                radial-gradient(circle at 85% 25%, rgba(200, 131, 90, 0.1) 0%, transparent 45%),'',
     ''                radial-gradient(circle at 50% 85%, rgba(240, 184, 146, 0.06) 0%, transparent 50%);'',
     ''            background-attachment: fixed;'',
     ''            color: #F8FAFC;'',
     ''            min-height: 100vh;'',
     ''        }'',
     ''        .glass-card {'',
     ''            background: rgba(18, 18, 24, 0.78);'',
     ''            backdrop-filter: blur(20px);'',
     ''            -webkit-backdrop-filter: blur(20px);'',
     ''            border: 1px solid rgba(217, 155, 115, 0.16);'',
     ''            box-shadow: 0 20px 40px -15px rgba(0, 0, 0, 0.7), inset 0 1px 0 rgba(255, 255, 255, 0.08);'',
     ''            transition: all 0.25s cubic-bezier(0.4, 0, 0.2, 1);'',
     ''        }'',
     ''        .glass-card:hover {'',
     ''            border-color: rgba(226, 169, 132, 0.4);'',
     ''            box-shadow: 0 25px 50px -12px rgba(217, 155, 115, 0.18), inset 0 1px 0 rgba(255, 255, 255, 0.15);'',
     ''        }'',
     ''        .glow-copper {'',
     ''            filter: drop-shadow(0 0 10px rgba(217, 155, 115, 0.35));'',
     ''        }'',
     ''        /* Custom Scrollbar */'',
     ''        ::-webkit-scrollbar {'',
     ''            width: 6px;'',
     ''            height: 6px;'',
     ''        }'',
     ''        ::-webkit-scrollbar-track {'',
     ''            background: rgba(10, 10, 14, 0.95);'',
     ''        }'',
     ''        ::-webkit-scrollbar-thumb {'',
     ''            background: rgba(217, 155, 115, 0.25);'',
     ''            border-radius: 9999px;'',
     ''        }'',
     ''        ::-webkit-scrollbar-thumb:hover {'',
     ''            background: rgba(226, 169, 132, 0.6);'',
     ''        }'',
     ''    </style>'',
     ''</head>'']\<close>

text \<open>The top of the body, with the connection to the stream of events.\<close>

definition index_header :: "string list" where \<open>
  index_header =
    [''<body class="font-sans antialiased p-4 md:p-8" hx-ext="sse" sse-connect="/events" x-data="{ activeTab: 'overview', toast: '' @ [CHR 0x27] @ [CHR 0x27] @ '', copyToClipboard(text) { navigator.clipboard.writeText(text); this.toast = 'Copied to clipboard!'; setTimeout(() => this.toast = '' @ [CHR 0x27] @ [CHR 0x27] @ '', 2500); } }">'',
     ''    '',
     ''    <!-- Toast Notification -->'',
     ''    <div x-show="toast" x-transition:enter="transition ease-out duration-300 transform" x-transition:enter-start="opacity-0 translate-y-3 scale-95" x-transition:enter-end="opacity-100 translate-y-0 scale-100" x-transition:leave="transition ease-in duration-200" class="fixed bottom-6 right-6 z-50 px-4 py-3 rounded-2xl bg-slate-900/95 border border-[#E2A984]/40 text-[#F0B892] text-xs font-semibold shadow-2xl flex items-center gap-3 backdrop-blur-xl" style="display: none;">'',
     ''        <div class="p-1 rounded-lg bg-[#D99B73]/20 text-[#E2A984]">'',
     ''            <svg class="w-4 h-4" fill="none" stroke="currentColor" viewBox="0 0 24 24"><path stroke-linecap="round" stroke-linejoin="round" stroke-width="2" d="M5 13l4 4L19 7"/></svg>'',
     ''        </div>'',
     ''        <span x-text="toast"></span>'',
     ''    </div>'',
     [],
     ''    <!-- Main Container -->'',
     ''    <div class="max-w-7xl mx-auto space-y-8">'',
     ''        '',
     ''        <!-- Header Bar with Official Obol Logo & Icon -->'',
     ''        <header class="flex flex-col lg:flex-row lg:items-center justify-between gap-6 pb-6 border-b border-[#D99B73]/20">'',
     ''            <div class="flex items-center gap-5">'',
     ''                <div class="relative flex items-center justify-center w-14 h-14 rounded-2xl bg-gradient-to-br from-[#E2A984] via-[#D99B73] to-[#C8835A] p-0.5 shadow-xl shadow-[#D99B73]/20 overflow-hidden">'',
     ''                    <img src="/assets/icon.png" alt="Obol Icon" class="w-full h-full object-cover rounded-[14px]">'',
     ''                </div>'',
     ''                <div>'',
     ''                    <div class="flex items-center gap-3">'',
     ''                        <img src="/assets/logo.png" alt="Obol Logo" class="h-8 w-auto object-contain glow-copper">'',
     ''                        <span class="px-2.5 py-0.5 rounded-full text-[11px] font-extrabold bg-[#D99B73]/15 text-[#E2A984] border border-[#D99B73]/30 tracking-wider uppercase font-mono">'',
     ''                            Settlement Core'',
     ''                        </span>'',
     ''                    </div>'',
     ''                    <p class="text-xs md:text-sm text-slate-400 flex items-center gap-2 mt-1.5 font-medium">'',
     ''                        <span class="inline-block w-2 h-2 rounded-full bg-emerald-400 shadow-sm shadow-emerald-400"></span>'',
     ''                        Autonomous Agent Coordination Mesh & Financial Firewall'',
     ''                    </p>'',
     ''                </div>'',
     ''            </div>'',
     [],
     ''            <!-- Network Status Badges -->'',
     ''            <div class="flex items-center gap-3">'',
     ''                <div class="flex items-center gap-2 px-3.5 py-1.5 rounded-full bg-emerald-500/10 border border-emerald-500/30 text-emerald-400 text-xs font-semibold tracking-wide">'',
     ''                    <span class="relative flex h-2 w-2">'',
     ''                        <span class="animate-ping absolute inline-flex h-full w-full rounded-full bg-emerald-400 opacity-75"></span>'',
     ''                        <span class="relative inline-flex rounded-full h-2 w-2 bg-emerald-500"></span>'',
     ''                    </span>'',
     ''                    gRPC :50051 ONLINE'',
     ''                </div>'',
     ''                <div class="flex items-center gap-2 px-3.5 py-1.5 rounded-full bg-[#D99B73]/10 border border-[#D99B73]/30 text-[#E2A984] text-xs font-semibold tracking-wide">'',
     ''                    <span class="relative flex h-2 w-2">'',
     ''                        <span class="animate-ping absolute inline-flex h-full w-full rounded-full bg-[#E2A984] opacity-75"></span>'',
     ''                        <span class="relative inline-flex rounded-full h-2 w-2 bg-[#D99B73]"></span>'',
     ''                    </span>'',
     ''                    SSE LIVE STREAM'',
     ''                </div>'',
     ''            </div>'',
     ''        </header>'',
     []]\<close>

text \<open>The tabs.\<close>

definition index_tabs :: "string list" where \<open>
  index_tabs =
    [''        <!-- Navigation Tabs -->'',
     ''        <nav class="flex items-center gap-2 overflow-x-auto pb-2 border-b border-[#D99B73]/15 text-sm font-medium">'',
     ''            <button @click="activeTab = 'overview'" :class="activeTab === 'overview' ? 'bg-[#D99B73]/20 text-[#F0B892] border-[#D99B73]/50 shadow-lg shadow-[#D99B73]/10' : 'text-slate-400 hover:text-slate-200 hover:bg-slate-800/40 border-transparent'" class="flex items-center gap-2 px-4 py-2 rounded-xl border transition-all">'',
     ''                <svg class="w-4 h-4" fill="none" stroke="currentColor" viewBox="0 0 24 24"><path stroke-linecap="round" stroke-linejoin="round" stroke-width="2" d="M4 6a2 2 0 012-2h2a2 2 0 012 2v2a2 2 0 01-2 2H6a2 2 0 01-2-2V6zM14 6a2 2 0 012-2h2a2 2 0 012 2v2a2 2 0 01-2 2h-2a2 2 0 01-2-2V6zM4 16a2 2 0 012-2h2a2 2 0 012 2v2a2 2 0 01-2 2H6a2 2 0 01-2-2v-2zM14 16a2 2 0 012-2h2a2 2 0 012 2v2a2 2 0 01-2 2h-2a2 2 0 01-2-2v-2z"/></svg>'',
     ''                Overview'',
     ''            </button>'',
     ''            <button @click="activeTab = 'escrows'" :class="activeTab === 'escrows' ? 'bg-[#D99B73]/20 text-[#F0B892] border-[#D99B73]/50 shadow-lg shadow-[#D99B73]/10' : 'text-slate-400 hover:text-slate-200 hover:bg-slate-800/40 border-transparent'" class="flex items-center gap-2 px-4 py-2 rounded-xl border transition-all">'',
     ''                <svg class="w-4 h-4" fill="none" stroke="currentColor" viewBox="0 0 24 24"><path stroke-linecap="round" stroke-linejoin="round" stroke-width="2" d="M12 15v2m-6 4h12a2 2 0 002-2v-6a2 2 0 00-2-2H6a2 2 0 00-2 2v6a2 2 0 002 2zm10-10V7a4 4 0 00-8 0v4h8z"/></svg>'',
     ''                HTLC / ZKCP Escrows'',
     ''            </button>'',
     ''            <button @click="activeTab = 'marketplace'" :class="activeTab === 'marketplace' ? 'bg-[#D99B73]/20 text-[#F0B892] border-[#D99B73]/50 shadow-lg shadow-[#D99B73]/10' : 'text-slate-400 hover:text-slate-200 hover:bg-slate-800/40 border-transparent'" class="flex items-center gap-2 px-4 py-2 rounded-xl border transition-all">'',
     ''                <svg class="w-4 h-4" fill="none" stroke="currentColor" viewBox="0 0 24 24"><path stroke-linecap="round" stroke-linejoin="round" stroke-width="2" d="M19 11H5m14 0a2 2 0 012 2v6a2 2 0 01-2 2H5a2 2 0 01-2-2v-6a2 2 0 012-2m14 0V9a2 2 0 00-2-2M5 11V9a2 2 0 012-2m0 0V5a2 2 0 012-2h6a2 2 0 012 2v2M7 7h10"/></svg>'',
     ''                Agent Marketplace'',
     ''            </button>'',
     ''            <button @click="activeTab = 'firewall'" :class="activeTab === 'firewall' ? 'bg-[#D99B73]/20 text-[#F0B892] border-[#D99B73]/50 shadow-lg shadow-[#D99B73]/10' : 'text-slate-400 hover:text-slate-200 hover:bg-slate-800/40 border-transparent'" class="flex items-center gap-2 px-4 py-2 rounded-xl border transition-all">'',
     ''                <svg class="w-4 h-4" fill="none" stroke="currentColor" viewBox="0 0 24 24"><path stroke-linecap="round" stroke-linejoin="round" stroke-width="2" d="M9 12l2 2 4-4m5.618-4.016A11.955 11.955 0 0112 2.944a11.955 11.955 0 01-8.618 3.04A12.02 12.02 0 003 9c0 5.591 3.824 10.29 9 11.622 5.176-1.332 9-6.03 9-11.622 0-1.042-.133-2.052-.382-3.016z"/></svg>'',
     ''                Financial Firewall'',
     ''            </button>'',
     ''            <button @click="activeTab = 'blocks'" :class="activeTab === 'blocks' ? 'bg-[#D99B73]/20 text-[#F0B892] border-[#D99B73]/50 shadow-lg shadow-[#D99B73]/10' : 'text-slate-400 hover:text-slate-200 hover:bg-slate-800/40 border-transparent'" class="flex items-center gap-2 px-4 py-2 rounded-xl border transition-all">'',
     ''                <svg class="w-4 h-4" fill="none" stroke="currentColor" viewBox="0 0 24 24"><path stroke-linecap="round" stroke-linejoin="round" stroke-width="2" d="M20 7l-8-4-8 4m16 0l-8 4m8-4v10l-8 4m0-10L4 7m8 4v10M4 7v10l8 4"/></svg>'',
     ''                Block Stream'',
     ''            </button>'',
     ''        </nav>'',
     []]\<close>

text \<open>The metrics, the escrows and the services.\<close>

definition index_left :: "string list" where \<open>
  index_left =
    [''        <!-- Stats Top Telemetry Grid -->'',
     ''        <div id="metrics-bar" hx-get="/partials/metrics" hx-trigger="load, sse:metrics" class="grid grid-cols-1 sm:grid-cols-2 lg:grid-cols-4 gap-5">'',
     ''            <!-- Rendered dynamically -->'',
     ''        </div>'',
     [],
     ''        <!-- Main Content Area -->'',
     ''        <div class="grid grid-cols-1 lg:grid-cols-3 gap-8">'',
     ''            '',
     ''            <!-- Left Column: Active Escrows & Peer Marketplace (2 cols) -->'',
     ''            <div class="lg:col-span-2 space-y-8">'',
     ''                '',
     ''                <!-- HTLC Escrows Section -->'',
     ''                <section x-show="activeTab === 'overview' || activeTab === 'escrows'" class="glass-card rounded-3xl p-6 space-y-5">'',
     ''                    <div class="flex items-center justify-between">'',
     ''                        <div class="flex items-center gap-3">'',
     ''                            <div class="p-2.5 rounded-2xl bg-[#D99B73]/15 text-[#E2A984] border border-[#D99B73]/30">'',
     ''                                <svg class="w-5 h-5" fill="none" stroke="currentColor" viewBox="0 0 24 24"><path stroke-linecap="round" stroke-linejoin="round" stroke-width="2" d="M12 15v2m-6 4h12a2 2 0 002-2v-6a2 2 0 00-2-2H6a2 2 0 00-2 2v6a2 2 0 002 2zm10-10V7a4 4 0 00-8 0v4h8z"/></svg>'',
     ''                            </div>'',
     ''                            <div>'',
     ''                                <h2 class="font-outfit text-lg font-bold text-slate-100">Active HTLC & ZKCP Escrows</h2>'',
     ''                                <p class="text-xs text-slate-400">Cryptographically locked micro-settlement contracts</p>'',
     ''                            </div>'',
     ''                        </div>'',
     ''                        <span class="flex items-center gap-1.5 text-xs text-slate-400 font-mono bg-slate-900/80 px-3 py-1 rounded-xl border border-slate-800">'',
     ''                            <span class="w-2 h-2 rounded-full bg-[#E2A984] animate-ping"></span>'',
     ''                            Live Ledger'',
     ''                        </span>'',
     ''                    </div>'',
     [],
     ''                    <div id="escrow-list" hx-get="/partials/escrows" hx-trigger="load, sse:escrows" class="space-y-3.5">'',
     ''                        <div class="p-8 text-center text-slate-500 text-sm">Loading escrows...</div>'',
     ''                    </div>'',
     ''                </section>'',
     [],
     ''                <!-- AI Marketplace Catalog Section -->'',
     ''                <section x-show="activeTab === 'overview' || activeTab === 'marketplace'" class="glass-card rounded-3xl p-6 space-y-5">'',
     ''                    <div class="flex flex-col sm:flex-row sm:items-center justify-between gap-4">'',
     ''                        <div class="flex items-center gap-3">'',
     ''                            <div class="p-2.5 rounded-2xl bg-emerald-500/15 text-emerald-400 border border-emerald-500/30">'',
     ''                                <svg class="w-5 h-5" fill="none" stroke="currentColor" viewBox="0 0 24 24"><path stroke-linecap="round" stroke-linejoin="round" stroke-width="2" d="M21 13.255A23.931 23.931 0 0112 15c-3.183 0-6.22-.62-9-1.745M16 6V4a2 2 0 00-2-2h-4a2 2 0 00-2 2v2m4 6h.01M5 20h14a2 2 0 002-2V8a2 2 0 00-2-2H5a2 2 0 00-2 2v10a2 2 0 002 2z"/></svg>'',
     ''                            </div>'',
     ''                            <div>'',
     ''                                <h2 class="font-outfit text-lg font-bold text-slate-100">AI Peer Marketplace Catalog</h2>'',
     ''                                <p class="text-xs text-slate-400">Off-chain & On-chain agent services requiring micro-settlement</p>'',
     ''                            </div>'',
     ''                        </div>'',
     ''                    </div>'',
     [],
     ''                    <div id="service-list" hx-get="/partials/services" hx-trigger="load" class="grid grid-cols-1 md:grid-cols-2 gap-4">'',
     ''                        <div class="p-8 text-center text-slate-500 text-sm col-span-2">Loading marketplace services...</div>'',
     ''                    </div>'',
     ''                </section>'',
     ''            </div>'',
     []]\<close>

text \<open>The firewall and the blocks.\<close>

definition index_right :: "string list" where \<open>
  index_right =
    [''            <!-- Right Column: Financial Firewall & Block Stream (1 col) -->'',
     ''            <div class="space-y-8">'',
     ''                '',
     ''                <!-- Financial Firewall Meter -->'',
     ''                <section x-show="activeTab === 'overview' || activeTab === 'firewall'" class="glass-card rounded-3xl p-6 space-y-5 border-l-4 border-[#D99B73]">'',
     ''                    <div class="flex items-center gap-3">'',
     ''                        <div class="p-2.5 rounded-2xl bg-[#D99B73]/15 text-[#E2A984] border border-[#D99B73]/30">'',
     ''                            <svg class="w-5 h-5" fill="none" stroke="currentColor" viewBox="0 0 24 24"><path stroke-linecap="round" stroke-linejoin="round" stroke-width="2" d="M9 12l2 2 4-4m5.618-4.016A11.955 11.955 0 0112 2.944a11.955 11.955 0 01-8.618 3.04A12.02 12.02 0 003 9c0 5.591 3.824 10.29 9 11.622 5.176-1.332 9-6.03 9-11.622 0-1.042-.133-2.052-.382-3.016z"/></svg>'',
     ''                        </div>'',
     ''                        <div>'',
     ''                            <h2 class="font-outfit text-lg font-bold text-slate-100">Financial Firewall</h2>'',
     ''                            <p class="text-xs text-slate-400">Session Expenditure Guard</p>'',
     ''                        </div>'',
     ''                    </div>'',
     [],
     ''                    <div id="firewall-meter" hx-get="/partials/firewall" hx-trigger="load, sse:firewall" class="space-y-4">'',
     ''                        <div class="p-4 text-center text-slate-500 text-sm">Loading budget telemetry...</div>'',
     ''                    </div>'',
     ''                </section>'',
     [],
     ''                <!-- Recent Blocks Feed -->'',
     ''                <section x-show="activeTab === 'overview' || activeTab === 'blocks'" class="glass-card rounded-3xl p-6 space-y-5">'',
     ''                    <div class="flex items-center justify-between">'',
     ''                        <div class="flex items-center gap-3">'',
     ''                            <div class="p-2.5 rounded-2xl bg-amber-500/15 text-amber-400 border border-amber-500/30">'',
     ''                                <svg class="w-5 h-5" fill="none" stroke="currentColor" viewBox="0 0 24 24"><path stroke-linecap="round" stroke-linejoin="round" stroke-width="2" d="M20 7l-8-4-8 4m16 0l-8 4m8-4v10l-8 4m0-10L4 7m8 4v10M4 7v10l8 4"/></svg>'',
     ''                            </div>'',
     ''                            <div>'',
     ''                                <h2 class="font-outfit text-lg font-bold text-slate-100">Block Stream Feed</h2>'',
     ''                                <p class="text-xs text-slate-400">Real-time ledger block feed</p>'',
     ''                            </div>'',
     ''                        </div>'',
     ''                    </div>'',
     [],
     ''                    <div id="block-list" hx-get="/partials/blocks" hx-trigger="load, sse:blocks" class="space-y-3">'',
     ''                        <div class="p-4 text-center text-slate-500 text-sm">Listening for blocks...</div>'',
     ''                    </div>'',
     ''                </section>'',
     ''            </div>'',
     ''        </div>'',
     ''    </div>'',
     ''</body>'',
     ''</html>'']\<close>

definition index_lines :: "string list" where
  "index_lines = index_scripts @ index_style @ index_header @ index_tabs @ index_left @ index_right"

definition indexHTML :: string where
  "indexHTML = tl (concat (map (Cons (CHR 0x0A)) index_lines))"

section \<open>What the page fetches\<close>

text \<open>The value of an attribute, the first one in the text that is written like \<open>key\<close>.\<close>

fun strip_prefix :: "string \<Rightarrow> string \<Rightarrow> string option" where
  "strip_prefix [] s = Some s"
| "strip_prefix (c # cs) [] = None"
| "strip_prefix (c # cs) (d # ds) = (if c = d then strip_prefix cs ds else None)"

fun attr :: "string \<Rightarrow> string \<Rightarrow> string option" where
  "attr key [] = None"
| "attr key (c # cs) =
     (case strip_prefix key (c # cs) of
        Some v \<Rightarrow> Some (takeWhile (\<lambda>x. x \<noteq> CHR 0x22) v)
      | None \<Rightarrow> attr key cs)"

text \<open>
  A panel is an element of \<^verbatim>\<open>htmx\<close> that fetches its content from a path whenever it is triggered. The
  elements of the page are written on one line each.
\<close>

definition panel_of :: "string \<Rightarrow> (string \<times> string) list" where
  \<open>panel_of l =
     (case attr ''hx-get="'' l of
        None \<Rightarrow> []
      | Some path \<Rightarrow> (case attr ''hx-trigger="'' l of None \<Rightarrow> [] | Some trigger \<Rightarrow> [(path, trigger)]))\<close>

definition page_panels :: "(string \<times> string) list" where
  "page_panels = concat (map panel_of index_lines)"

text \<open>Where the page listens for events: an attribute of the body.\<close>

definition page_stream :: "string option" where
  \<open>page_stream = attr ''sse-connect="'' (hd index_header)\<close>

lemma panels_rest:
  "concat (map panel_of index_scripts) = []" "concat (map panel_of index_style) = []" "concat (map panel_of index_header) = []"
  by code_simp+

lemma panels_tabs: "concat (map panel_of index_tabs) = []"
  by code_simp

lemma panels_left:
  "concat (map panel_of index_left) =
     [(''/partials/metrics'', ''load, sse:metrics''), (''/partials/escrows'', ''load, sse:escrows''), (''/partials/services'', ''load'')]"
  by code_simp

lemma panels_right:
  "concat (map panel_of index_right) = [(''/partials/firewall'', ''load, sse:firewall''), (''/partials/blocks'', ''load, sse:blocks'')]"
  by code_simp

lemma page_panels_eq:
  "page_panels =
     [(''/partials/metrics'', ''load, sse:metrics''), (''/partials/escrows'', ''load, sse:escrows''), (''/partials/services'', ''load''),
      (''/partials/firewall'', ''load, sse:firewall''), (''/partials/blocks'', ''load, sse:blocks'')]"
  unfolding page_panels_def index_lines_def map_append concat_append panels_rest panels_tabs panels_left panels_right by simp

lemma page_stream_eq: "page_stream = Some ''/events''"
  by code_simp

end
