(* ===== verification/Dashboard.thy ===== *)
theory Dashboard
  imports Pages IndexPage Float64 Firewall Indexer
begin

text \<open>
  The web dashboard of the indexer: the partial pages of \<^verbatim>\<open>internal/dashboard/templates.go\<close>, over the
  markup of \<open>Pages\<close>, and the handlers and notifications of \<^verbatim>\<open>internal/dashboard/dashboard.go\<close>. What
  \<^verbatim>\<open>html/template\<close> makes of the text of the index page is a parameter, and so are the readings of the clock and the order in which maps are ranged over. Starting and stopping the HTTP server
  belong to the library.
\<close>

section \<open>templates.go\<close>

definition truncate_str :: "string \<Rightarrow> nat \<Rightarrow> string" where
  "truncate_str s l = (if length s \<le> l then s else take l s)"

definition status_text :: "EscrowStatus \<Rightarrow> string" where
  "status_text st =
     (case st of EscrowStatusPending \<Rightarrow> ''PENDING'' | EscrowStatusClaimed \<Rightarrow> ''CLAIMED''
      | EscrowStatusRefunded \<Rightarrow> ''REFUNDED'' | EscrowStatusExpired \<Rightarrow> ''EXPIRED'')"

definition RenderMetricsPartial :: "Metrics \<Rightarrow> string" where
  "RenderMetricsPartial m =
     Sprintf metrics_tpl [fmt_d (sint (TotalBlocksIndexed m)), fmt_d (sint (TotalTxCount m)),
       fmt_d (sint (TotalEscrowsCount m)), fmt_d (sint (TotalVolume m))]"

definition statusBadge :: "EscrowStatus \<Rightarrow> string" where
  "statusBadge st =
     (case st of
        EscrowStatusClaimed \<Rightarrow> ''bg-emerald-500/10 text-emerald-300 border-emerald-500/30''
      | EscrowStatusRefunded \<Rightarrow> ''bg-rose-500/10 text-rose-300 border-rose-500/30''
      | EscrowStatusExpired \<Rightarrow> ''bg-slate-500/10 text-slate-300 border-slate-500/30''
      | EscrowStatusPending \<Rightarrow> ''bg-[#D99B73]/15 text-[#E2A984] border-[#D99B73]/30'')"

definition escrow_card :: "IndexedEscrow \<Rightarrow> string" where
  "escrow_card e =
     Sprintf escrow_tpl [ie_TxID e, truncate_str (ie_TxID e) 12, statusBadge (ie_Status e), status_text (ie_Status e),
       fmt_d (sint (ie_Amount e)), ie_BuyerPubKeyHash e, truncate_str (ie_BuyerPubKeyHash e) 10,
       ie_SellerPubKeyHash e, truncate_str (ie_SellerPubKeyHash e) 10,
       fmt_d (sint (ie_TimeoutBlock e)), fmt_d (sint (ie_CreatedAtHeight e))]"

definition RenderEscrowsPartial :: "IndexedEscrow list \<Rightarrow> string" where
  "RenderEscrowsPartial es =
     (if length es = 0 then Sprintf no_escrows_tpl [] else concat (map escrow_card es))"

definition service_card :: "AgentService \<Rightarrow> string" where
  "service_card s =
     Sprintf service_tpl [as_Name s, fmt_d (sint (as_PricePerCall s)), as_Description s, as_AgentAddress s,
       truncate_str (as_AgentAddress s) 14, as_EndpointURL s]"

definition RenderServicesPartial :: "AgentService list \<Rightarrow> string" where
  "RenderServicesPartial ss =
     (if length ss = 0 then Sprintf no_services_tpl [] else concat (map service_card ss))"

text \<open>The two numbers that are computed for the gauge: the used share, in floating point, and the rest.\<close>

definition gauge_pct :: "(rat \<Rightarrow> int64) \<Rightarrow> int64 \<Rightarrow> int64 \<Rightarrow> int64" where
  "gauge_pct far sessionBudget spent =
     (if sint sessionBudget > 0 then
        let pct = trunc_int64 far (fl64 (fl64 (fl64 (of_int (sint spent)) / fl64 (of_int (sint sessionBudget))) * 100))
        in if sint pct > 100 then 100 else pct
      else 0)"

definition gauge_remaining :: "int64 \<Rightarrow> int64 \<Rightarrow> int64" where
  "gauge_remaining sessionBudget spent =
     (let remaining = sessionBudget - spent in if sint remaining < 0 then 0 else remaining)"

definition RenderFirewallPartial :: "(rat \<Rightarrow> int64) \<Rightarrow> int64 \<Rightarrow> int64 \<Rightarrow> string" where
  "RenderFirewallPartial far sessionBudget spent =
     (let pct = gauge_pct far sessionBudget spent; remaining = gauge_remaining sessionBudget spent in
      Sprintf firewall_tpl [fmt_d (sint pct), fmt_d (sint spent), fmt_d (sint sessionBudget), fmt_d (sint pct),
        fmt_d (sint remaining)])"

text \<open>
  \<^verbatim>\<open>time.Since\<close> of \<^verbatim>\<open>time.Unix(ts, 0)\<close> in nanoseconds, limited to the range of a duration; the seconds of a
  Go time count from the year 1 and wrap around. \<open>duration_text\<close> is \<^verbatim>\<open>Truncate(time.Second).String()\<close>.
\<close>

definition time_since :: "int \<Rightarrow> int64 \<Rightarrow> int" where
  "time_since now ts =
     (let d = now - (sint (ts + 62135596800) - 62135596800) * 10 ^ 9
      in max (- (2 ^ 63)) (min (2 ^ 63 - 1) d))"

definition duration_text :: "int \<Rightarrow> string" where
  "duration_text d =
     (let u = \<bar>d\<bar> div 10 ^ 9; m = u div 60; h = m div 60 in
      (if d < 0 \<and> u > 0 then ''-'' else []) @
      (if h > 0 then fmt_d h @ ''h'' else []) @
      (if m > 0 then fmt_d (m mod 60) @ ''m'' else []) @ fmt_d (u mod 60) @ ''s'')"

definition time_ago :: "int \<Rightarrow> int \<Rightarrow> int64 \<Rightarrow> string" where
  "time_ago now now' ts =
     (if time_since now' ts < 2 * 10 ^ 9 then ''Just now'' else duration_text (time_since now ts) @ '' ago'')"

text \<open>\<open>clock i\<close> are the two readings for the block at position \<open>i\<close>.\<close>

definition block_row :: "(nat \<Rightarrow> int \<times> int) \<Rightarrow> nat \<Rightarrow> RecentBlock \<Rightarrow> string" where
  "block_row clock i b =
     (let timeAgo = time_ago (fst (clock i)) (snd (clock i)) (rb_Timestamp b) in
      Sprintf block_tpl [fmt_d (sint (rb_Height b)), truncate_str (rb_Hash b) 14, fmt_d (sint (rb_TxCount b)), timeAgo])"

definition RenderBlocksPartial :: "(nat \<Rightarrow> int \<times> int) \<Rightarrow> RecentBlock list \<Rightarrow> string" where
  "RenderBlocksPartial clock bs =
     (if length bs = 0 then Sprintf no_blocks_tpl [] else concat (map (\<lambda>(i, b). block_row clock i b) (enumerate 0 bs)))"

section \<open>dashboard.go\<close>

record Dash =
  dash_store :: IndexStore
  dash_fw :: "Firewall option"
  dash_broker :: SSEBroker

text \<open>\<open>parse\<close> is the parser of the template library.\<close>

definition NewTemplateRenderer :: "(string \<Rightarrow> unit result) \<Rightarrow> unit result" where
  "NewTemplateRenderer parse = wrap_err ''failed to parse index html template'' (parse indexHTML)"

definition NewDashboard :: "IndexStore \<Rightarrow> Firewall option \<Rightarrow> (string \<Rightarrow> unit result) \<Rightarrow> Dash result" where
  "NewDashboard store fw parse =
     bind_result (NewTemplateRenderer parse) (\<lambda>_.
       Ok \<lparr>dash_store = store, dash_fw = fw, dash_broker = NewSSEBroker\<rparr>)"

text \<open>What a handler or a notification takes from outside.\<close>

record DashEnv =
  escrow_order :: "(string \<times> IndexedEscrow) list \<Rightarrow> (string \<times> IndexedEscrow) list"
  service_order :: "(string \<times> AgentService) list \<Rightarrow> (string \<times> AgentService) list"
  dash_clock :: "nat \<Rightarrow> int \<times> int"
  far_pct :: "rat \<Rightarrow> int64"
  execute_html :: "string \<Rightarrow> string"

text \<open>The events of one notification: name and text.\<close>

definition notify_events :: "DashEnv \<Rightarrow> Dash \<Rightarrow> (string \<times> string) list" where
  "notify_events E s =
     [(''metrics'', RenderMetricsPartial (GetMetrics (dash_store s))),
      (''escrows'', RenderEscrowsPartial (map snd (GetActiveEscrows (escrow_order E) (dash_store s)))),
      (''blocks'', RenderBlocksPartial (dash_clock E) (GetRecentBlocks (dash_store s)))] @
     (case dash_fw s of
        None \<Rightarrow> []
      | Some fw \<Rightarrow> (let (budget, spent) = GetSessionStats fw in [(''firewall'', RenderFirewallPartial (far_pct E) budget spent)]))"

text \<open>
  Before each event the goroutine of the broker may have taken earlier ones (\<open>others\<close>); with a full
  queue that nobody empties the call does not return.
\<close>

fun post_events :: "(nat \<Rightarrow> SSEBroker \<Rightarrow> SSEBroker) \<Rightarrow> nat \<Rightarrow> (string \<times> string) list \<Rightarrow> SSEBroker \<Rightarrow> SSEBroker option" where
  "post_events others i [] b = Some b"
| "post_events others i ((event, text) # evs) b =
     Option.bind (BroadcastEvent event text (others i b)) (post_events others (Suc i) evs)"

definition NotifyBlockProcessed :: "DashEnv \<Rightarrow> (nat \<Rightarrow> SSEBroker \<Rightarrow> SSEBroker) \<Rightarrow> Dash \<Rightarrow> Dash option" where
  "NotifyBlockProcessed E others s =
     map_option (\<lambda>b. s\<lparr>dash_broker := b\<rparr>) (post_events others 0 (notify_events E s) (dash_broker s))"

text \<open>A response: the status, the content type, and the text.\<close>

record page =
  page_status :: nat
  page_type :: string
  page_body :: string

definition html_page :: "string \<Rightarrow> page" where
  "html_page t = \<lparr>page_status = 200, page_type = ''text/html; charset=utf-8'', page_body = t\<rparr>"

definition RenderIndex :: "DashEnv \<Rightarrow> string" where
  "RenderIndex E = execute_html E indexHTML"

definition handleIndex :: "DashEnv \<Rightarrow> string \<Rightarrow> page" where
  "handleIndex E path =
     (if path \<noteq> ''/'' then \<lparr>page_status = 404, page_type = ''text/plain; charset=utf-8'', page_body = ''404 page not found'' @ [nl]\<rparr>
      else html_page (RenderIndex E))"

definition handlePartialMetrics :: "Dash \<Rightarrow> page" where
  "handlePartialMetrics s = html_page (RenderMetricsPartial (GetMetrics (dash_store s)))"

definition handlePartialEscrows :: "DashEnv \<Rightarrow> Dash \<Rightarrow> page" where
  "handlePartialEscrows E s = html_page (RenderEscrowsPartial (map snd (GetActiveEscrows (escrow_order E) (dash_store s))))"

definition handlePartialServices :: "DashEnv \<Rightarrow> Dash \<Rightarrow> page" where
  "handlePartialServices E s = html_page (RenderServicesPartial (ListServices (service_order E) (dash_store s)))"

definition handlePartialFirewall :: "DashEnv \<Rightarrow> Dash \<Rightarrow> page" where
  "handlePartialFirewall E s =
     (let (budget, spent) = (case dash_fw s of Some fw \<Rightarrow> GetSessionStats fw | None \<Rightarrow> (50000, 0))
      in html_page (RenderFirewallPartial (far_pct E) budget spent))"

definition handlePartialBlocks :: "DashEnv \<Rightarrow> Dash \<Rightarrow> page" where
  "handlePartialBlocks E s = html_page (RenderBlocksPartial (dash_clock E) (GetRecentBlocks (dash_store s)))"

text \<open>The routes; the stream of events and the embedded files are handled elsewhere (\<open>None\<close>).\<close>

definition dash_route :: "DashEnv \<Rightarrow> string \<Rightarrow> Dash \<Rightarrow> page option" where
  "dash_route E path s =
     (if path = ''/events'' \<or> take 8 path = ''/assets/'' then None
      else if path = ''/partials/metrics'' then Some (handlePartialMetrics s)
      else if path = ''/partials/escrows'' then Some (handlePartialEscrows E s)
      else if path = ''/partials/services'' then Some (handlePartialServices E s)
      else if path = ''/partials/firewall'' then Some (handlePartialFirewall E s)
      else if path = ''/partials/blocks'' then Some (handlePartialBlocks E s)
      else Some (handleIndex E path))"

section \<open>Lemmas\<close>

text \<open>The broker goroutine only takes events from the front of the queue.\<close>

definition takes_front :: "(nat \<Rightarrow> SSEBroker \<Rightarrow> SSEBroker) \<Rightarrow> bool" where
  "takes_front others \<longleftrightarrow> (\<forall>i b. \<exists>k. broadcast (others i b) = drop k (broadcast b))"

lemma post_events_queue:
  assumes "takes_front others" and "length (broadcast b) + length evs \<le> 100"
  shows "\<exists>b' k. post_events others i evs b = Some b' \<and>
    broadcast b' = drop k (broadcast b @ map (\<lambda>(event, h). event_text event h) evs)"
  using assms(2)
proof (induction evs arbitrary: i b)
  case (Cons ev evs)
  obtain event h where ev: "ev = (event, h)" by (cases ev)
  obtain k where k: "broadcast (others i b) = drop k (broadcast b)" using assms(1) by (auto simp: takes_front_def)
  define b1 where "b1 = (others i b)\<lparr>broadcast := broadcast (others i b) @ [event_text event h]\<rparr>"
  have b1: "BroadcastEvent event h (others i b) = Some b1"
    using Cons.prems k by (simp add: BroadcastEvent_def b1_def)
  have "length (broadcast b1) + length evs \<le> 100" using Cons.prems k by (simp add: b1_def)
  from Cons.IH [OF this] obtain b' m where b': "post_events others (Suc i) evs b1 = Some b'"
    "broadcast b' = drop m (broadcast b1 @ map (\<lambda>(event, h). event_text event h) evs)" by blast
  let ?rest = "event_text event h # map (\<lambda>(event, h). event_text event h) evs"
  have "broadcast b1 @ map (\<lambda>(event, h). event_text event h) evs = drop (min k (length (broadcast b))) (broadcast b @ ?rest)"
    by (cases "k \<le> length (broadcast b)") (simp_all add: b1_def k)
  then have "broadcast b' = drop (m + min k (length (broadcast b))) (broadcast b @ ?rest)"
    using b'(2) by (simp add: drop_drop)
  then show ?case using b1 b'(1) ev by auto
qed (auto intro: exI [of _ 0])

lemma notify_events_names: "nl \<notin> set event" if "(event, h) \<in> set (notify_events E s)"
  using that by (auto simp: notify_events_def split: option.splits prod.splits)

lemma Sprintf_first: "texts \<noteq> [] \<Longrightarrow> \<exists>pre post. Sprintf texts (arg # args) = pre @ arg @ post"
  by (cases texts) auto

lemma in_concat_map: "x \<in> set xs \<Longrightarrow> \<exists>pre post. concat (map f xs) = pre @ f x @ post"
  by (induction xs) (auto, metis append.assoc)

text \<open>The share of the budget before it is truncated.\<close>

lemma gauge_error:
  assumes "0 \<le> s" and "s \<le> b" and "0 < b"
  shows "100 * (s / b) - 1 / 2 ^ 40 \<le> fl64 (fl64 (fl64 s / fl64 b) * 100)"
    and "fl64 (fl64 (fl64 s / fl64 b) * 100) \<le> 100 * (s / b) + 1 / 2 ^ 40"
proof -
  let ?e = "1 / 2 ^ 53 :: rat" and ?r = "s / b"
  have r: "0 \<le> ?r" "?r \<le> 1" using assms by simp_all
  note s = fl64_bounds [OF assms(1)] and b = fl64_bounds [of b]
  have "0 < b * (1 - ?e)" using assms(3) by simp
  also have "\<dots> \<le> fl64 b" using b(1) assms(3) by simp
  finally have b0: "0 < fl64 b" .
  define q where "q = fl64 s / fl64 b"
  have "q \<le> s * (1 + ?e) / (b * (1 - ?e))"
    unfolding q_def using s b assms b0 by (intro frac_le) simp_all
  also have "\<dots> \<le> ?r * (1 + 3 * ?e)"
    using assms by (simp add: field_simps)
  finally have q1: "q \<le> ?r * (1 + 3 * ?e)" .
  have "?r * (1 - 2 * ?e) \<le> s * (1 - ?e) / (b * (1 + ?e))"
    using assms by (simp add: field_simps)
  also have "\<dots> \<le> q"
    unfolding q_def using s b assms b0 by (intro frac_le) simp_all
  finally have q2: "?r * (1 - 2 * ?e) \<le> q" .
  have q0: "0 \<le> q" unfolding q_def using fl64_nonneg [OF assms(1)] b0 by simp
  note q' = fl64_bounds [OF q0]
  have p0: "0 \<le> fl64 q * 100" using fl64_nonneg [OF q0] by simp
  note v = fl64_bounds [OF p0]
  note v(2)
  also have "fl64 q * 100 * (1 + ?e) \<le> q * (1 + ?e) * 100 * (1 + ?e)"
    using q'(2) by (intro mult_right_mono) simp_all
  also have "\<dots> \<le> ?r * (1 + 3 * ?e) * (1 + ?e) * 100 * (1 + ?e)"
    using q1 by (intro mult_right_mono) simp_all
  also have "\<dots> \<le> 100 * ?r + 1 / 2 ^ 40"
    using r by simp
  finally show "fl64 (fl64 (fl64 s / fl64 b) * 100) \<le> 100 * ?r + 1 / 2 ^ 40" unfolding q_def .
  have "100 * ?r - 1 / 2 ^ 40 \<le> ?r * (1 - 2 * ?e) * (1 - ?e) * 100 * (1 - ?e)"
    using r by simp
  also have "\<dots> \<le> q * (1 - ?e) * 100 * (1 - ?e)"
    using q2 by (intro mult_right_mono) simp_all
  also have "\<dots> \<le> fl64 q * 100 * (1 - ?e)"
    using q'(1) by (intro mult_right_mono) simp_all
  also note v(1)
  finally show "100 * ?r - 1 / 2 ^ 40 \<le> fl64 (fl64 (fl64 s / fl64 b) * 100)" unfolding q_def .
qed

section \<open>Properties\<close>

definition quiet_env :: DashEnv where
  "quiet_env = \<lparr>escrow_order = (\<lambda>x. x), service_order = (\<lambda>x. x), dash_clock = (\<lambda>_. (0, 0)), far_pct = (\<lambda>_. 0), execute_html = (\<lambda>t. t)\<rparr>"

definition empty_dash :: Dash where
  "empty_dash = \<lparr>dash_store = NewIndexStore, dash_fw = None, dash_broker = NewSSEBroker\<rparr>"

text \<open>The events are the partial pages.\<close>

lemma notify_events_pages:
  "notify_events E s = [(''metrics'', page_body (handlePartialMetrics s)), (''escrows'', page_body (handlePartialEscrows E s)),
     (''blocks'', page_body (handlePartialBlocks E s))] @
    (if dash_fw s = None then [] else [(''firewall'', page_body (handlePartialFirewall E s))])"
  by (cases "dash_fw s") (simp_all add: notify_events_def handlePartialMetrics_def handlePartialEscrows_def handlePartialBlocks_def
      handlePartialFirewall_def html_page_def GetSessionStats_def)

text \<open>
  C38. What browsers are told after a block. When the queue of the broker has room for the events,
  whatever the broker takes from it in between, the notification returns; it has queued, behind
  what was there, the metrics, the active escrows, the recent blocks and, with a firewall, its
  gauge, and a browser that reads the queued texts gets back exactly the partial pages that the
  handlers would serve at that moment. Store and firewall are not changed.
\<close>

theorem dashboard_update:
  assumes "takes_front others" and "length (broadcast (dash_broker s)) \<le> 96"
  shows "\<exists>b k ts. NotifyBlockProcessed E others s = Some (s\<lparr>dash_broker := b\<rparr>) \<and>
    broadcast b = drop k (broadcast (dash_broker s) @ ts) \<and>
    map read_event ts =
      [(''metrics'', page_body (handlePartialMetrics s)), (''escrows'', page_body (handlePartialEscrows E s)),
       (''blocks'', page_body (handlePartialBlocks E s))] @
      (if dash_fw s = None then [] else [(''firewall'', page_body (handlePartialFirewall E s))])"
proof -
  let ?evs = "notify_events E s" and ?ts = "map (\<lambda>(event, h). event_text event h) (notify_events E s)"
  have "length ?evs \<le> 4" by (simp add: notify_events_def split: option.split prod.split)
  then obtain b k where p: "post_events others 0 ?evs (dash_broker s) = Some b" "broadcast b = drop k (broadcast (dash_broker s) @ ?ts)"
    using post_events_queue [OF assms(1), of "dash_broker s" ?evs 0] assms(2) by auto
  have r: "map read_event ?ts = ?evs"
    using notify_events_names [of _ _ E s] by (intro map_idI [of ?evs "read_event \<circ> (\<lambda>(event, h). event_text event h)", simplified map_map [symmetric]])
      (auto simp: read_event_text)
  show ?thesis
  proof (intro exI conjI)
    show "NotifyBlockProcessed E others s = Some (s\<lparr>dash_broker := b\<rparr>)" using p(1) by (simp add: NotifyBlockProcessed_def)
  qed (rule p(2), rule trans [OF r notify_events_pages])
qed

theorem dashboard_update_witness:
  "\<exists>b ts. NotifyBlockProcessed quiet_env (\<lambda>_ b. b) empty_dash = Some (empty_dash\<lparr>dash_broker := b\<rparr>) \<and> length ts = 3 \<and>
     hd (map read_event ts) = (''metrics'', page_body (handlePartialMetrics empty_dash))"
proof -
  have "takes_front (\<lambda>_ b. b)" by (auto simp: takes_front_def intro: exI [of _ 0])
  moreover have "length (broadcast (dash_broker empty_dash)) \<le> 96" by (simp add: empty_dash_def NewSSEBroker_def)
  ultimately obtain b k ts where d: "NotifyBlockProcessed quiet_env (\<lambda>_ b. b) empty_dash = Some (empty_dash\<lparr>dash_broker := b\<rparr>)"
    "map read_event ts = [(''metrics'', page_body (handlePartialMetrics empty_dash)), (''escrows'', page_body (handlePartialEscrows quiet_env empty_dash)),
       (''blocks'', page_body (handlePartialBlocks quiet_env empty_dash))] @
      (if dash_fw empty_dash = None then [] else [(''firewall'', page_body (handlePartialFirewall quiet_env empty_dash))])"
    using dashboard_update [of "\<lambda>_ b. b" empty_dash quiet_env] by blast
  moreover have "dash_fw empty_dash = None" by (simp add: empty_dash_def)
  ultimately have "length (map read_event ts) = 3" unfolding d(2) by simp
  then have "length ts = 3" by simp
  then show ?thesis using d by (intro exI [of _ b] exI [of _ ts]) simp
qed

text \<open>
  The gauge of the budget is right to one percent. As long as no more than the budget is spent, the
  share that is shown lies between 0 and 100 and differs from the true share, rounded down, by at
  most one, in spite of the floating-point arithmetic; the rest that is shown is exact.
\<close>

theorem gauge_accurate:
  assumes "0 \<le> sint spent" and "sint spent \<le> sint budget" and "0 < sint budget"
  shows "0 \<le> sint (gauge_pct far budget spent) \<and> sint (gauge_pct far budget spent) \<le> 100 \<and>
    \<bar>sint (gauge_pct far budget spent) - 100 * sint spent div sint budget\<bar> \<le> 1 \<and>
    sint (gauge_remaining budget spent) = sint budget - sint spent"
proof -
  let ?s = "of_int (sint spent) :: rat" and ?b = "of_int (sint budget) :: rat"
  let ?v = "fl64 (fl64 (fl64 ?s / fl64 ?b) * 100)"
  have sb: "0 \<le> ?s" "?s \<le> ?b" "0 < ?b" using assms by (simp_all del: of_int_sint)
  have "(1 :: rat) / 2 ^ 40 < 1" by simp
  note err = this gauge_error [OF sb]
  have "?s / ?b \<le> 1" using sb by (simp del: of_int_sint)
  then have v: "?v < 102" using err(1,3) by linarith
  have "0 \<le> ?v" using sb by (simp add: fl64_nonneg del: of_int_sint)
  note v = this v
  have t: "sint (trunc_int64 far ?v) = \<lfloor>?v\<rfloor>" using v by (intro sint_trunc_int64) simp_all
  have e: "\<lfloor>100 * (?s / ?b)\<rfloor> = 100 * sint spent div sint budget"
    using floor_divide_of_int_eq [of "100 * sint spent" "sint budget"] by (simp del: of_int_sint)
  have "\<bar>\<lfloor>?v\<rfloor> - \<lfloor>100 * (?s / ?b)\<rfloor>\<bar> \<le> 1" using err by linarith
  moreover have "\<lfloor>100 * (?s / ?b)\<rfloor> \<le> 100" using \<open>?s / ?b \<le> 1\<close> by linarith
  moreover have "sint (gauge_pct far budget spent) = min 100 (sint (trunc_int64 far ?v))"
    using assms(3) by (simp add: gauge_pct_def Let_def min_def del: of_int_sint)
  then have "sint (gauge_pct far budget spent) = min 100 \<lfloor>?v\<rfloor>" unfolding t .
  moreover have "sint (budget - spent) = sint budget - sint spent"
    using assms sint_lt [of budget] by (subst sint_sub64) auto
  then have "sint (gauge_remaining budget spent) = sint budget - sint spent"
    using assms by (simp add: gauge_remaining_def)
  moreover have "0 \<le> \<lfloor>?v\<rfloor>" using v(1) by simp
  ultimately show ?thesis using e by linarith
qed

theorem gauge_accurate_witness:
  "\<bar>sint (gauge_pct (\<lambda>_. 0) 100 29) - 29\<bar> \<le> 1"
  using gauge_accurate [of 29 100 "\<lambda>_. 0"] by simp

text \<open>The error occurs: 29 of 100 is shown as 28 percent.\<close>

theorem gauge_off_by_one: "gauge_pct far 100 29 = 28"
proof -
  have "\<lfloor>fl64 (fl64 (fl64 29 / fl64 100) * 100)\<rfloor> = 28" by code_simp
  moreover have "0 \<le> fl64 (fl64 (fl64 29 / fl64 100) * 100)" by code_simp
  ultimately show ?thesis by (simp add: gauge_pct_def trunc_int64_def)
qed

text \<open>
  Names of services reach the browser as they are. Whoever registers a service chooses markup that
  the dashboard serves unchanged: the page of services contains the name, whatever characters it has,
  for every registration that is accepted.
\<close>

theorem service_markup:
  assumes "RegisterServiceOffer P lower nano now agent name desc url price st = (Ok srv, st')"
    and "is_order (service_order E)" and "dash_store s = st'"
  shows "\<exists>pre post. dash_route E ''/partials/services'' s = Some (html_page (pre @ name @ post))"
proof -
  have r: "as_Name srv = name" "as_Active srv" "st' = SaveService srv st"
    using assms(1) by (auto simp: RegisterServiceOffer_def Let_def split: if_splits)
  have "map_of (services st') (as_ID srv) = Some srv" by (simp add: r(3) SaveService_def update_conv')
  then have "srv \<in> snd ` set (services st')" by (force dest: map_of_SomeD)
  then have l: "srv \<in> set (ListServices (service_order E) st')"
    using r(2) is_order_set [OF assms(2)] by (simp add: ListServices_def)
  obtain pre post where "concat (map service_card (ListServices (service_order E) st')) = pre @ service_card srv @ post"
    using in_concat_map [OF l, of service_card] by blast
  moreover have "service_tpl \<noteq> []" unfolding service_tpl_def by (rule list.distinct(2))
  then obtain pre' post' where "service_card srv = pre' @ name @ post'"
    using Sprintf_first r(1) unfolding service_card_def by metis
  ultimately have "RenderServicesPartial (ListServices (service_order E) st') = (pre @ pre') @ name @ post' @ post"
    using l by (auto simp: RenderServicesPartial_def)
  then show ?thesis using assms(3)
    by (intro exI [of _ "pre @ pre'"] exI [of _ "post' @ post"]) (simp add: dash_route_def handlePartialServices_def)
qed

theorem service_markup_witness:
  "\<exists>srv st' pre post. RegisterServiceOffer sample_prims (\<lambda>s. s) 0 0 (address_of sample_prims \<lparr>PrivKey = sample_key 5, PublicKey = [5]\<rparr>)
       ''<script>'' [] ''u'' 1 NewIndexStore = (Ok srv, st') \<and>
     dash_route quiet_env ''/partials/services'' (empty_dash\<lparr>dash_store := st'\<rparr>) = Some (html_page (pre @ ''<script>'' @ post))"
proof -
  let ?a = "address_of sample_prims \<lparr>PrivKey = sample_key 5, PublicKey = [5]\<rparr>"
  obtain srv st' where r: "RegisterServiceOffer sample_prims (\<lambda>s. s) 0 0 ?a ''<script>'' [] ''u'' 1 NewIndexStore = (Ok srv, st')"
    using ValidateAddress_of_wallet [OF sample_sha256_ok] by (auto simp: RegisterServiceOffer_def Let_def)
  have "is_order (service_order quiet_env)" by (simp add: quiet_env_def)
  then show ?thesis using service_markup [OF r, of quiet_env "empty_dash\<lparr>dash_store := st'\<rparr>"] r by auto
qed

section \<open>The index page\<close>

text \<open>
  The page and its server fit together. The page listens to the stream that the server offers, and each
  of its panels is fetched from a path that serves a partial page. Of the events of a notification each one is the
  trigger of a panel, and what that panel then fetches is what the event has brought. With a firewall these are
  all panels but the list of services, which is fetched only once.
\<close>

theorem page_wired:
  "(\<exists>path. page_stream = Some path \<and> dash_route E path s = None) \<and>
   (\<forall>(path, trigger) \<in> set page_panels. \<exists>p. dash_route E path s = Some p \<and> page_status p = 200 \<and> path \<noteq> ''/'') \<and>
   (\<forall>(event, t) \<in> set (notify_events E s). \<exists>path. (path, ''load, sse:'' @ event) \<in> set page_panels \<and>
      map_option page_body (dash_route E path s) = Some t) \<and>
   (dash_fw s \<noteq> None \<longrightarrow> snd ` set page_panels = (\<lambda>(event, t). ''load, sse:'' @ event) ` set (notify_events E s) \<union> {''load''})"
proof -
  have r: "dash_route E ''/partials/metrics'' s = Some (handlePartialMetrics s)" "dash_route E ''/partials/escrows'' s = Some (handlePartialEscrows E s)"
    "dash_route E ''/partials/services'' s = Some (handlePartialServices E s)" "dash_route E ''/partials/firewall'' s = Some (handlePartialFirewall E s)"
    "dash_route E ''/partials/blocks'' s = Some (handlePartialBlocks E s)" "dash_route E ''/events'' s = None"
    by (simp_all add: dash_route_def)
  note h = handlePartialMetrics_def handlePartialEscrows_def handlePartialServices_def handlePartialFirewall_def handlePartialBlocks_def html_page_def
  have st: "page_status (handlePartialMetrics s) = 200" "page_status (handlePartialEscrows E s) = 200" "page_status (handlePartialServices E s) = 200"
    "page_status (handlePartialFirewall E s) = 200" "page_status (handlePartialBlocks E s) = 200"
    by (simp_all add: h split: option.split prod.split)
  have "\<forall>(path, trigger) \<in> set page_panels. \<exists>p. dash_route E path s = Some p \<and> page_status p = 200 \<and> path \<noteq> ''/''"
    by (simp add: page_panels_eq r st)
  moreover have "\<forall>(event, t) \<in> set (notify_events E s). \<exists>path. (path, ''load, sse:'' @ event) \<in> set page_panels \<and>
      map_option page_body (dash_route E path s) = Some t"
    unfolding notify_events_pages page_panels_eq by (simp add: r)
  moreover have "snd ` set page_panels = (\<lambda>(event, t). ''load, sse:'' @ event) ` set (notify_events E s) \<union> {''load''}" if "dash_fw s \<noteq> None"
    unfolding notify_events_pages page_panels_eq if_not_P [OF that] by (auto simp: insert_commute)
  ultimately show ?thesis using r(6) page_stream_eq by blast
qed

end
