(* ===== verification/Proto.thy ===== *)
theory Proto
  imports TxBuild
begin

text \<open>
  The conversions between the structs of the core and the protobuf messages of the gRPC API,
  \<^verbatim>\<open>internal/network/proto_converter.go\<close>. The protobuf fields are narrower: output indices, nonces,
  heights and difficulty bits are 32 bits there, so the conversions truncate, and back again they
  extend the sign. A nil pointer is \<open>None\<close>; the elements of a repeated field of a decoded message are
  never nil.
\<close>

section \<open>Messages\<close>

record ProtoTXInput =
  p_Txid :: bytes
  p_Vout_in :: int32
  p_Signature :: bytes
  p_PubKey :: bytes
  p_EscrowWitness :: bytes
  p_IsRefund :: bool

record ProtoTXOutput =
  p_Value :: int64
  p_PubKeyHash :: bytes
  p_ScriptType :: "32 word"
  p_DataHashLock :: bytes
  p_TimeoutBlock :: int64
  p_BuyerPubKeyHash :: bytes

record ProtoTransaction =
  p_Id :: bytes
  p_Vin :: "ProtoTXInput list"
  p_Vout :: "ProtoTXOutput list"

record ProtoBlock =
  p_Timestamp :: int64
  p_Transactions :: "ProtoTransaction list"
  p_PrevBlockHash :: bytes
  p_Hash :: bytes
  p_Nonce :: int32
  p_Height :: int32
  p_Bits :: int32
  p_AuthoritySignature :: bytes
  p_AuthorityPubKey :: bytes

text \<open>\<^verbatim>\<open>int32(x)\<close> keeps the low bits, \<^verbatim>\<open>int(y)\<close> extends the sign.\<close>

definition to_int32 :: "int64 \<Rightarrow> int32" where "to_int32 x = ucast x"
definition of_int32 :: "int32 \<Rightarrow> int64" where "of_int32 y = scast y"

section \<open>Conversions\<close>

definition in_to_proto :: "TXInput \<Rightarrow> ProtoTXInput" where
  "in_to_proto i = \<lparr>p_Txid = Txid i, p_Vout_in = to_int32 (Vout_in i), p_Signature = Signature i,
     p_PubKey = PubKey i, p_EscrowWitness = EscrowWitness i, p_IsRefund = IsRefund i\<rparr>"

definition out_to_proto :: "TXOutput \<Rightarrow> ProtoTXOutput" where
  "out_to_proto out = \<lparr>p_Value = Value out, p_PubKeyHash = PubKeyHash out, p_ScriptType = ucast (ScriptType out),
     p_DataHashLock = DataHashLock out, p_TimeoutBlock = TimeoutBlock out, p_BuyerPubKeyHash = BuyerPubKeyHash out\<rparr>"

definition tx_to_proto :: "Transaction \<Rightarrow> ProtoTransaction" where
  "tx_to_proto tx = \<lparr>p_Id = ID tx, p_Vin = map in_to_proto (Vin tx), p_Vout = map out_to_proto (Vout tx)\<rparr>"

definition CoreTxToProto :: "Transaction option \<Rightarrow> ProtoTransaction option" where
  "CoreTxToProto tx = (case tx of None \<Rightarrow> None | Some tx \<Rightarrow> Some (tx_to_proto tx))"

definition in_of_proto :: "ProtoTXInput \<Rightarrow> TXInput" where
  "in_of_proto i = \<lparr>Txid = p_Txid i, Vout_in = of_int32 (p_Vout_in i), Signature = p_Signature i,
     PubKey = p_PubKey i, EscrowWitness = p_EscrowWitness i, IsRefund = p_IsRefund i\<rparr>"

definition out_of_proto :: "ProtoTXOutput \<Rightarrow> TXOutput" where
  "out_of_proto out = \<lparr>Value = p_Value out, PubKeyHash = p_PubKeyHash out, ScriptType = ucast (p_ScriptType out),
     DataHashLock = p_DataHashLock out, TimeoutBlock = p_TimeoutBlock out, BuyerPubKeyHash = p_BuyerPubKeyHash out\<rparr>"

definition tx_of_proto :: "ProtoTransaction \<Rightarrow> Transaction" where
  "tx_of_proto ptx = \<lparr>ID = p_Id ptx, Vin = map in_of_proto (p_Vin ptx), Vout = map out_of_proto (p_Vout ptx)\<rparr>"

definition ProtoTxToCore :: "ProtoTransaction option \<Rightarrow> Transaction option result" where
  "ProtoTxToCore ptx = (case ptx of None \<Rightarrow> Ok None | Some ptx \<Rightarrow> Ok (Some (tx_of_proto ptx)))"

definition CoreBlockToProto :: "Block option \<Rightarrow> ProtoBlock option" where
  "CoreBlockToProto b = (case b of None \<Rightarrow> None | Some b \<Rightarrow>
     Some \<lparr>p_Timestamp = Timestamp b, p_Transactions = map tx_to_proto (Transactions b),
       p_PrevBlockHash = PrevBlockHash b, p_Hash = Hash b, p_Nonce = to_int32 (Nonce b), p_Height = to_int32 (Height b),
       p_Bits = to_int32 (Bits b), p_AuthoritySignature = AuthoritySignature b, p_AuthorityPubKey = AuthorityPubKey b\<rparr>)"

definition ProtoBlockToCore :: "ProtoBlock option \<Rightarrow> Block option result" where
  "ProtoBlockToCore pb = (case pb of None \<Rightarrow> Ok None | Some pb \<Rightarrow>
     Ok (Some \<lparr>Timestamp = p_Timestamp pb, Transactions = map tx_of_proto (p_Transactions pb),
       PrevBlockHash = p_PrevBlockHash pb, Hash = p_Hash pb, Nonce = of_int32 (p_Nonce pb), Height = of_int32 (p_Height pb),
       Bits = of_int32 (p_Bits pb), AuthoritySignature = p_AuthoritySignature pb, AuthorityPubKey = p_AuthorityPubKey pb\<rparr>))"

section \<open>What survives\<close>

definition fits32 :: "int64 \<Rightarrow> bool" where
  "fits32 x \<longleftrightarrow> - (2 ^ 31) \<le> sint x \<and> sint x < 2 ^ 31"

lemma sint_of_int32: "sint (of_int32 y) = sint y"
proof -
  have r: "- (2 ^ 31) \<le> sint y" "sint y < 2 ^ 31" using sint_ge [of y] sint_lt [of y] by simp_all
  have "of_int32 y = word_of_int (sint y)" by (simp add: of_int32_def)
  then show ?thesis using sint_of_int64 [of "sint y"] r by simp
qed

lemma to_int32_eq: "to_int32 x = word_of_int (sint x)"
proof -
  have "to_int32 (word_of_int (sint x)) = word_of_int (sint x)"
    unfolding to_int32_def by (intro ucast_down_wi) (simp add: is_down)
  then show ?thesis by simp
qed

lemma of_to_int32: "of_int32 (to_int32 x) = x \<longleftrightarrow> fits32 x"
proof
  assume "of_int32 (to_int32 x) = x"
  then have "sint x = sint (to_int32 x)" using sint_of_int32 by metis
  then show "fits32 x" using sint_ge [of "to_int32 x"] sint_lt [of "to_int32 x"] by (simp add: fits32_def)
next
  assume "fits32 x"
  then have "sint (to_int32 x) = sint x"
    unfolding to_int32_eq sint_sbintrunc' fits32_def by (intro signed_take_bit_int_eq_self) simp_all
  then show "of_int32 (to_int32 x) = x" by (metis sint_of_int32 signed_word_eqI)
qed

lemma in_roundtrip: "in_of_proto (in_to_proto i) = i \<longleftrightarrow> fits32 (Vout_in i)"
  using of_to_int32 [of "Vout_in i"] by (cases i) (simp add: in_of_proto_def in_to_proto_def)

lemma out_roundtrip [simp]: "out_of_proto (out_to_proto out) = out"
  by (cases out) (simp add: out_of_proto_def out_to_proto_def ucast_up_ucast_id is_up)

definition tx_fits :: "Transaction \<Rightarrow> bool" where
  "tx_fits tx \<longleftrightarrow> (\<forall>i \<in> set (Vin tx). fits32 (Vout_in i))"

lemma tx_roundtrip: "tx_of_proto (tx_to_proto tx) = tx \<longleftrightarrow> tx_fits tx"
proof -
  have "map (in_of_proto \<circ> in_to_proto) (Vin tx) = Vin tx \<longleftrightarrow> tx_fits tx"
    using map_idI [of "Vin tx"] map_eq_conv [of "in_of_proto \<circ> in_to_proto" "Vin tx" "\<lambda>x. x"]
    by (simp add: tx_fits_def in_roundtrip)
  then show ?thesis by (cases tx) (simp add: tx_of_proto_def tx_to_proto_def map_idI comp_def)
qed

definition block_fits :: "Block \<Rightarrow> bool" where
  "block_fits b \<longleftrightarrow> (\<forall>t \<in> set (Transactions b). tx_fits t) \<and> fits32 (Nonce b) \<and> fits32 (Height b) \<and> fits32 (Bits b)"

lemma block_roundtrip: "ProtoBlockToCore (CoreBlockToProto (Some b)) = Ok (Some b) \<longleftrightarrow> block_fits b"
proof -
  have "map (tx_of_proto \<circ> tx_to_proto) (Transactions b) = Transactions b \<longleftrightarrow> (\<forall>t \<in> set (Transactions b). tx_fits t)"
    using map_eq_conv [of "tx_of_proto \<circ> tx_to_proto" "Transactions b" "\<lambda>x. x"] by (simp add: tx_roundtrip)
  then show ?thesis
    unfolding block_fits_def of_to_int32 [symmetric]
    by (cases b) (auto simp: ProtoBlockToCore_def CoreBlockToProto_def comp_def)
qed

text \<open>
  C40. What survives the gRPC API. A transaction that is converted to protobuf and back is the same
  transaction exactly when the output indices of its inputs fit 32 bits, and a block exactly when
  in addition its nonce, height and bits do. Values, time-outs and scripts always survive.
\<close>

theorem proto_roundtrip:
  "(ProtoTxToCore (CoreTxToProto (Some tx)) = Ok (Some tx) \<longleftrightarrow>
     (\<forall>i \<in> set (Vin tx). fits32 (Vout_in i))) \<and>
   (ProtoBlockToCore (CoreBlockToProto (Some b)) = Ok (Some b) \<longleftrightarrow>
     (\<forall>t \<in> set (Transactions b). \<forall>i \<in> set (Vin t). fits32 (Vout_in i)) \<and>
     fits32 (Nonce b) \<and> fits32 (Height b) \<and> fits32 (Bits b))"
proof
  show "ProtoTxToCore (CoreTxToProto (Some tx)) = Ok (Some tx) \<longleftrightarrow> (\<forall>i \<in> set (Vin tx). fits32 (Vout_in i))"
    using tx_roundtrip [of tx] by (simp add: ProtoTxToCore_def CoreTxToProto_def tx_fits_def)
  show "ProtoBlockToCore (CoreBlockToProto (Some b)) = Ok (Some b) \<longleftrightarrow>
     (\<forall>t \<in> set (Transactions b). \<forall>i \<in> set (Vin t). fits32 (Vout_in i)) \<and>
     fits32 (Nonce b) \<and> fits32 (Height b) \<and> fits32 (Bits b)"
    unfolding block_roundtrip by (simp add: block_fits_def tx_fits_def)
qed

theorem proto_roundtrip_witness:
  "ProtoBlockToCore (CoreBlockToProto (Some (sample_block []))) = Ok (Some (sample_block [])) \<and>
   ProtoBlockToCore (CoreBlockToProto (Some (sample_block [] \<lparr>Nonce := 2 ^ 31\<rparr>))) \<noteq> Ok (Some (sample_block [] \<lparr>Nonce := 2 ^ 31\<rparr>))"
  using proto_roundtrip [of sample_tx "sample_block []"] proto_roundtrip [of sample_tx "sample_block [] \<lparr>Nonce := 2 ^ 31\<rparr>"]
  by (simp add: fits32_def sample_block_def)

end
