(* ===== verification/Grpc.thy ===== *)
theory Grpc
  imports ServerProps Proto Firewall
begin

text \<open>
  The gRPC service of \<^verbatim>\<open>internal/network/grpc_server.go\<close> on top of the peer-to-peer server: one
  function per remote procedure. A procedure returns its response and the server it leaves; an
  error of the transport is an \<open>Error\<close>. Listening and stopping are left to the gRPC library.
\<close>

section \<open>Responses\<close>

record api_response =
  Success :: bool
  TxId :: string
  Err :: string

abbreviation refused :: "string \<Rightarrow> api_response" where
  "refused m \<equiv> \<lparr>Success = False, TxId = [], Err = m\<rparr>"

definition MaxTransactionSizeLimitBytes :: nat where "MaxTransactionSizeLimitBytes = 1024 * 1024"

text \<open>A call whose error becomes an unsuccessful response.\<close>

definition or_refuse ::
    "'b result \<Rightarrow> 'a \<Rightarrow> (goerr \<Rightarrow> string) \<Rightarrow> ('b \<Rightarrow> api_response result \<times> 'a) \<Rightarrow> api_response result \<times> 'a" where
  "or_refuse r s msg f =
     (case r of Ok x \<Rightarrow> f x | Error e \<Rightarrow> (Ok (refused (msg e)), s) | _ \<Rightarrow> (as_failure r, s))"

section \<open>Procedures\<close>

definition grpc_SubmitTransaction ::
    "'s Env \<Rightarrow> ('s Server \<Rightarrow> 's Server) \<Rightarrow> ProtoTransaction option \<Rightarrow> 's Server \<Rightarrow> api_response result \<times> 's Server" where
  "grpc_SubmitTransaction E others req s =
     (if req = None then (Ok (refused ''empty transaction in request''), s)
      else or_refuse (ProtoTxToCore req) s (\<lambda>e. ''failed to parse transaction: '' @ err_text e) (\<lambda>tx.
        let tx = the tx; serialized = Serialize_tx (prims E) tx in
        if length serialized > MaxTransactionSizeLimitBytes
        then (Ok (refused (''transaction size '' @ fmt_d (int (length serialized)) @ '' bytes exceeds maximum limit of '' @
                fmt_d (int MaxTransactionSizeLimitBytes) @ '' bytes'')), s)
        else
          case find (\<lambda>out. sint (Value out) > sint MaxTransactionValueLimit) (Vout tx) of
            Some out \<Rightarrow>
              (Ok (refused (''transaction output value '' @ fmt_d (sint (Value out)) @ '' exceeds maximum limit of '' @
                fmt_d (sint MaxTransactionValueLimit))), s)
          | None \<Rightarrow>
              (case SubmitTransaction E others tx s of
                 (r, s) \<Rightarrow> or_refuse r s err_text (\<lambda>_. (Ok \<lparr>Success = True, TxId = hex_encode (ID tx), Err = []\<rparr>, s)))))"

text \<open>What a stream waits for: the end of the call, a closed channel, or a block.\<close>

datatype stream_event = CtxDone | ChClosed | Recv Block

text \<open>
  Sending stops at the first failure; \<open>ok\<close> tells, from what was sent before, whether the next
  message goes through.
\<close>

fun send_blocks :: "(ProtoBlock list \<Rightarrow> goerr option) \<Rightarrow> Block list \<Rightarrow> ProtoBlock list \<Rightarrow> unit result \<times> ProtoBlock list" where
  "send_blocks ok [] sent = (Ok (), sent)"
| "send_blocks ok (b # bs) sent =
     (case ok sent of
        Some e \<Rightarrow> (Error e, sent)
      | None \<Rightarrow> send_blocks ok bs (sent @ [the (CoreBlockToProto (Some b))]))"

text \<open>The live part; \<open>None\<close> while the stream is still open.\<close>

fun stream_loop ::
    "int64 \<Rightarrow> (ProtoBlock list \<Rightarrow> goerr option) \<Rightarrow> stream_event list \<Rightarrow> ProtoBlock list \<Rightarrow> unit result option \<times> ProtoBlock list" where
  "stream_loop start ok [] sent = (None, sent)"
| "stream_loop start ok (CtxDone # evs) sent = (Some (Ok ()), sent)"
| "stream_loop start ok (ChClosed # evs) sent = (Some (Ok ()), sent)"
| "stream_loop start ok (Recv b # evs) sent =
     (if sint (Height b) < sint start then stream_loop start ok evs sent
      else case ok sent of
        Some e \<Rightarrow> (Some (Error e), sent)
      | None \<Rightarrow> stream_loop start ok evs (sent @ [the (CoreBlockToProto (Some b))]))"

text \<open>The blocks of the chain from a height on, newest first, as the walk collects them.\<close>

definition historical :: "'s Env \<Rightarrow> int64 \<Rightarrow> 's Blockchain \<Rightarrow> Block list result" where
  "historical E start bc =
     Blocks (prims E) (store E) bc (\<lambda>b hist. (if sint (Height b) \<ge> sint start then hist @ [b] else hist, True)) []"

definition StreamNewBlocks ::
    "'s Env \<Rightarrow> (ProtoBlock list \<Rightarrow> goerr option) \<Rightarrow> int64 \<Rightarrow> stream_event list \<Rightarrow> 's Server \<Rightarrow>
      (unit result option \<times> ProtoBlock list) \<times> 's Server" where
  "StreamNewBlocks E ok start evs s =
     (case (if sint start > 0 then bind_result (historical E start (srv_bc s)) (\<lambda>hist. Ok (rev hist)) else Ok []) of
        Ok old \<Rightarrow>
          (case send_blocks ok old [] of
             (Ok _, sent) \<Rightarrow>
               (let (ch, s) = SubscribeBlocks s;
                    (r, sent) = stream_loop start ok evs sent
                in ((r, sent), if r = None then s else UnsubscribeBlocks ch s))
           | (r, sent) \<Rightarrow> ((Some r, sent), s))
      | r \<Rightarrow> ((Some (as_failure r), []), s))"

definition mint_tx :: "Prims \<Rightarrow> int64 \<Rightarrow> string \<Rightarrow> Transaction result" where
  "mint_tx P amount address =
     (let txin = \<lparr>Txid = [], Vout_in = -1, Signature = [],
                  PubKey = string_bytes (''Mint '' @ fmt_d (sint amount) @ '' coins to '' @ address),
                  EscrowWitness = [], IsRefund = False\<rparr>
      in bind_result (NewTXOutput amount address) (\<lambda>txout.
         let tx = \<lparr>ID = [], Vin = [txin], Vout = [txout]\<rparr> in Ok (tx\<lparr>ID := Hash_tx P tx\<rparr>)))"

definition MintStableBalance ::
    "'s Env \<Rightarrow> PrivateKey option \<Rightarrow> int64 \<Rightarrow> nat \<Rightarrow> int64 \<Rightarrow> string \<Rightarrow> 's Server \<Rightarrow> api_response result \<times> 's Server" where
  "MintStableBalance E authorityKey now rnd amount address s =
     (case authorityKey of
        None \<Rightarrow> (Ok (refused ''node is not configured with an authority key for PoA mining''), s)
      | Some k \<Rightarrow>
          if sint amount \<le> 0 then (Ok (refused ''mint amount must be positive''), s)
          else if sint amount > sint MaxTransactionValueLimit
          then (Ok (refused ''mint amount exceeds maximum allowed limit''), s)
          else if \<not> ValidateAddress (prims E) address then (Ok (refused ''invalid target address''), s)
          else
            (case mint_tx (prims E) amount address of
               Ok tx \<Rightarrow>
                 or_refuse (GetTip (store E) (db (srv_bc s))) s (\<lambda>e. ''failed to retrieve blockchain tip: '' @ err_text e) (\<lambda>lastHash.
                 or_refuse (GetBlock (store E) lastHash (db (srv_bc s))) s (\<lambda>e. ''failed to retrieve last block: '' @ err_text e) (\<lambda>lastBlockData.
                 or_refuse (DeserializeBlock (prims E) lastBlockData) s (\<lambda>e. ''failed to deserialize last block: '' @ err_text e) (\<lambda>lastBlock.
                 or_refuse (NewBlockPoA (prims E) now rnd [tx] lastHash (Height lastBlock + 1) (Bits lastBlock) k) s
                   (\<lambda>e. ''failed to produce PoA block: '' @ err_text e) (\<lambda>newBlock.
                 case AddBlock (prims E) (store E) (authority_keys E) newBlock (srv_bc s) of
                   (r, bc) \<Rightarrow>
                     or_refuse r (s\<lparr>srv_bc := bc\<rparr>) (\<lambda>e. ''failed to add PoA block: '' @ err_text e) (\<lambda>_.
                     let s = notifyBlock newBlock (s\<lparr>srv_bc := bc\<rparr>) in
                     case Reindex (prims E) (store E) (utxo_order E) (srv_bc s) of
                       (r, bc) \<Rightarrow>
                         or_refuse r (s\<lparr>srv_bc := bc\<rparr>) (\<lambda>e. ''failed to reindex UTXO set: '' @ err_text e) (\<lambda>_.
                         case for_each (\<lambda>node. sendInv E node ''block'' [Hash newBlock])
                                (GetKnownNodes (s\<lparr>srv_bc := bc\<rparr>)) (s\<lparr>srv_bc := bc\<rparr>) of
                           (Ok _, s) \<Rightarrow> (Ok \<lparr>Success = True, TxId = hex_encode (ID tx), Err = []\<rparr>, s)
                         | (r, s) \<Rightarrow> (as_failure r, s)))))))
             | r \<Rightarrow> (as_failure r, s)))"

record UTXOOutputItem =
  u_Txid :: bytes
  u_Vout :: int32
  u_Value :: int64
  u_PubKeyHash :: bytes
  u_ScriptType :: "32 word"
  u_DataHashLock :: bytes
  u_TimeoutBlock :: int64
  u_BuyerPubKeyHash :: bytes

text \<open>The hash inside an address, for the addresses that passed validation.\<close>

definition request_hash :: "string \<Rightarrow> bytes" where
  "request_hash address =
     (let pubKeyHash = Base58Decode (string_bytes address)
      in if length pubKeyHash > 4 then slice 1 (length pubKeyHash - addressChecksumLen) pubKeyHash else pubKeyHash)"

definition utxo_item :: "UTXOItem \<Rightarrow> UTXOOutputItem" where
  "utxo_item item = \<lparr>u_Txid = item_TxID item, u_Vout = to_int32 (item_Vout item), u_Value = Value (item_Output item),
     u_PubKeyHash = PubKeyHash (item_Output item), u_ScriptType = ucast (ScriptType (item_Output item)),
     u_DataHashLock = DataHashLock (item_Output item), u_TimeoutBlock = TimeoutBlock (item_Output item),
     u_BuyerPubKeyHash = BuyerPubKeyHash (item_Output item)\<rparr>"

definition GetUTXOs :: "'s Env \<Rightarrow> string \<Rightarrow> 's Server \<Rightarrow> UTXOOutputItem list result" where
  "GetUTXOs E address s =
     (if address = [] \<or> \<not> ValidateAddress (prims E) address then Error (ErrMsg ''invalid address'')
      else bind_result (wrap_err ''failed to fetch utxo items''
             (FindUTXOItems (prims E) (store E) (srv_bc s) (request_hash address)))
             (\<lambda>items. Ok (map utxo_item items)))"

definition GetBlockByHash :: "'s Env \<Rightarrow> bytes \<Rightarrow> 's Server \<Rightarrow> ProtoBlock option result" where
  "GetBlockByHash E hash s =
     (if length hash = 0 then Ok None
      else case GetBlock (store E) hash (db (srv_bc s)) of
        Error e \<Rightarrow> Ok None
      | Ok blockData \<Rightarrow>
          bind_result (wrap_err ''failed to deserialize block'' (DeserializeBlock (prims E) blockData))
            (\<lambda>block. Ok (CoreBlockToProto (Some block)))
      | r \<Rightarrow> as_failure r)"

definition grpc_GetBestHeight :: "'s Env \<Rightarrow> 's Server \<Rightarrow> int32 result" where
  "grpc_GetBestHeight E s =
     bind_result (wrap_err ''failed to get best height'' (GetBestHeight (prims E) (store E) (srv_bc s)))
       (\<lambda>height. Ok (to_int32 height))"

definition GetBalance :: "'s Env \<Rightarrow> string \<Rightarrow> 's Server \<Rightarrow> int64 result" where
  "GetBalance E address s =
     (if address = [] \<or> \<not> ValidateAddress (prims E) address then Ok 0
      else bind_result (wrap_err ''failed to query balance''
             (UTXOSet_FindUTXO (prims E) (store E) (srv_bc s) (request_hash address)))
             (\<lambda>utxos. Ok (fold (\<lambda>out balance. if ScriptType out \<noteq> ScriptTypeEscrow then balance + Value out else balance) utxos 0)))"

section \<open>Streams\<close>

definition proto_of :: "Block \<Rightarrow> ProtoBlock" where
  "proto_of b = the (CoreBlockToProto (Some b))"

lemma send_blocks_ok:
  "(\<And>sent. ok sent = None) \<Longrightarrow> send_blocks ok bs sent = (Ok (), sent @ map proto_of bs)"
  by (induction bs arbitrary: sent) (simp_all add: proto_of_def)

text \<open>The blocks that arrive before the call ends.\<close>

fun received :: "stream_event list \<Rightarrow> Block list" where
  "received (Recv b # evs) = b # received evs"
| "received evs = []"

lemma stream_loop_ok:
  "(\<And>sent. ok sent = None) \<Longrightarrow>
     snd (stream_loop start ok evs sent) = sent @ map proto_of (filter (\<lambda>b. sint (Height b) \<ge> sint start) (received evs))"
  by (induction evs arbitrary: sent rule: received.induct) (auto simp: proto_of_def)

lemma historical_chain:
  assumes "chain (BC_GetBlock (prims E) (store E) (db bc)) (tip bc) bs"
  shows "historical E start bc = Ok (filter (\<lambda>b. sint (Height b) \<ge> sint start) bs)"
proof -
  have "fold (\<lambda>b hist. if Q b then hist @ [b] else hist) bs acc = acc @ filter Q bs" for Q acc
    by (induction bs arbitrary: acc) auto
  then show ?thesis
    unfolding historical_def Blocks_chain [OF assms] run_blocks_fold by simp
qed

lemma StreamNewBlocks_run:
  assumes "chain (BC_GetBlock (prims E) (store E) (db (srv_bc s))) (tip (srv_bc s)) bs"
    and "0 < sint start" and "\<And>sent. ok sent = None"
  obtains r where "StreamNewBlocks E ok start evs s =
    (let above = filter (\<lambda>b. sint (Height b) \<ge> sint start); (ch, s') = SubscribeBlocks s
     in ((r, map proto_of (rev (above bs) @ above (received evs))), if r = None then s' else UnsubscribeBlocks ch s'))"
proof -
  let ?old = "rev (filter (\<lambda>b. sint (Height b) \<ge> sint start) bs)"
  obtain r sent where l: "stream_loop start ok evs (map proto_of ?old) = (r, sent)" by fastforce
  have sent: "sent = map proto_of ?old @ map proto_of (filter (\<lambda>b. sint (Height b) \<ge> sint start) (received evs))"
    using stream_loop_ok [of ok start evs "map proto_of ?old", OF assms(3)] l by simp
  have "StreamNewBlocks E ok start evs s =
      (let (ch, s) = SubscribeBlocks s; (r, sent) = stream_loop start ok evs (map proto_of ?old)
       in ((r, sent), if r = None then s else UnsubscribeBlocks ch s))"
    using assms(2) historical_chain [OF assms(1), of start] send_blocks_ok [of ok ?old "[]", OF assms(3)]
    by (simp add: StreamNewBlocks_def)
  then show ?thesis unfolding l sent by (intro that [of r]) (simp add: Let_def case_prod_unfold)
qed

text \<open>
  A stream of blocks from a positive height, as long as its messages go through: first the blocks
  of the chain from that height on, oldest first, then every block the subscription delivers,
  as it arrives, except those below the height. When the call is over its subscription is removed.
\<close>

theorem StreamNewBlocks_spec:
  assumes "chain (BC_GetBlock (prims E) (store E) (db (srv_bc s))) (tip (srv_bc s)) bs"
    and "0 < sint start" and "\<And>sent. ok sent = None"
    and "\<forall>c \<in> set (blockSubscribers s). ch_id c < next_ch s"
  shows "let ((r, sent), s') = StreamNewBlocks E ok start evs s; above = filter (\<lambda>b. sint (Height b) \<ge> sint start) in
    sent = map (\<lambda>b. the (CoreBlockToProto (Some b))) (rev (above bs) @ above (received evs)) \<and>
    blockSubscribers s' = blockSubscribers s @ (if r = None then [\<lparr>ch_id = next_ch s, ch_buf = []\<rparr>] else [])"
proof -
  have rm: "remove_sub n (cs @ [\<lparr>ch_id = n, ch_buf = []\<rparr>]) = cs" if "\<forall>c \<in> set cs. ch_id c < n" for n cs
    using that by (induction cs) auto
  obtain r where "StreamNewBlocks E ok start evs s =
    (let above = filter (\<lambda>b. sint (Height b) \<ge> sint start); (ch, s') = SubscribeBlocks s
     in ((r, map proto_of (rev (above bs) @ above (received evs))), if r = None then s' else UnsubscribeBlocks ch s'))"
    by (rule StreamNewBlocks_run [OF assms(1,2,3)])
  then show ?thesis
    using rm [OF assms(4)] by (simp add: Let_def SubscribeBlocks_def UnsubscribeBlocks_def proto_of_def [abs_def])
qed

section \<open>Balances\<close>

lemma find_utxo_run:
  assumes "list_all2 (\<lambda>(k, v) (k', outs). k' = k \<and> DeserializeOutputs P v = Ok \<lparr>Outputs = outs\<rparr>) kvs es"
  shows "run_yield (\<lambda>k v UTXOs. bind_result (DeserializeOutputs P v) (\<lambda>outs.
      Ok (UTXOs @ filter (\<lambda>out. IsLockedWithKey out pkh) (Outputs outs), True))) kvs acc =
    Ok (acc @ filter (\<lambda>out. IsLockedWithKey out pkh) (concat (map snd es)))"
  using assms by (induction kvs es arbitrary: acc rule: list_all2_induct) auto

lemma balance_fold:
  "fold (\<lambda>out balance. if ScriptType out \<noteq> ScriptTypeEscrow then balance + Value out else balance) outs acc =
     acc + sum_list (map Value (filter (\<lambda>out. ScriptType out \<noteq> ScriptTypeEscrow) outs))"
  by (induction outs arbitrary: acc) (auto simp: add.assoc)

lemma indexed_filter: "map snd (filter (\<lambda>(j, out). Q out) (indexed outs)) = filter Q outs"
  by (induction outs rule: rev_induct) simp_all

lemma spendable_outs_values:
  "map (\<lambda>x. snd (snd x)) (spendable_outs pkh es) =
     filter (\<lambda>out. ScriptType out \<noteq> ScriptTypeEscrow) (filter (\<lambda>out. IsLockedWithKey out pkh) (concat (map snd es)))"
proof (induction es)
  case (Cons e es)
  have "map (\<lambda>x. snd (snd x)) (map (\<lambda>(j, out). (hex_encode (fst e), of_nat j :: int64, out))
      (filter (\<lambda>(j, out). ScriptType out \<noteq> ScriptTypeEscrow \<and> IsLockedWithKey out pkh) (indexed (snd e)))) =
    filter (\<lambda>out. ScriptType out \<noteq> ScriptTypeEscrow \<and> IsLockedWithKey out pkh) (snd e)"
    using indexed_filter [of "\<lambda>out. ScriptType out \<noteq> ScriptTypeEscrow \<and> IsLockedWithKey out pkh" "snd e"]
    by (simp add: comp_def case_prod_beta)
  then show ?case using Cons.IH by (simp add: spendable_outs_def case_prod_beta conj_commute)
qed (simp add: spendable_outs_def)

text \<open>
  C26. The balance of an address is the 64-bit sum of exactly the outputs that building a payment can
  choose from: plain and ZKCP outputs locked to the key hash in the address, escrows left out. An
  empty or invalid address has balance zero.
\<close>

theorem GetBalance_is_spendable:
  assumes "store E = bolt_storage B" and "bolt_inv B (db (srv_bc s))" and "utxo_wf (prims E) (bolt_utxo B (db (srv_bc s)))"
  shows "(address = [] \<or> \<not> ValidateAddress (prims E) address \<longrightarrow> GetBalance E address s = Ok 0) \<and>
    (address \<noteq> [] \<and> ValidateAddress (prims E) address \<longrightarrow>
      (\<exists>es. map_of es = abs_utxo (prims E) (bolt_utxo B (db (srv_bc s))) \<and> distinct (map fst es) \<and>
         (let spendable = spendable_outs (request_hash address) es in
          GetBalance E address s = Ok (picked_sum spendable) \<and>
          (\<forall>amount. \<exists>m. FindSpendableOutputs (prims E) (store E) (srv_bc s) (request_hash address) amount =
             Ok (picked_sum (picks amount 0 spendable), m)))))"
proof (intro conjI impI)
  show "GetBalance E address s = Ok 0" if "address = [] \<or> \<not> ValidateAddress (prims E) address"
    using that by (auto simp: GetBalance_def)
next
  assume a: "address \<noteq> [] \<and> ValidateAddress (prims E) address"
  let ?bc = "srv_bc s" and ?P = "prims E" and ?h = "request_hash address"
  obtain kvs es where kvs: "IterateUTXO (bolt_storage B) (db ?bc) = Ok kvs" and es: "distinct (map fst es)"
      "map_of es = abs_utxo ?P (bolt_utxo B (db ?bc))"
    and la: "list_all2 (\<lambda>(k, v) (k', outs). k' = k \<and> DeserializeOutputs ?P v = Ok \<lparr>Outputs = outs\<rparr>) kvs es"
    using bolt.decoded_entries [OF assms(2,3)] by blast
  have "picked_sum (spendable_outs ?h es) = sum_list (map Value (map (\<lambda>x. snd (snd x)) (spendable_outs ?h es)))"
    by (simp add: picked_sum_def comp_def)
  then have "GetBalance E address s = Ok (picked_sum (spendable_outs ?h es))"
    using a find_utxo_run [OF la, of ?h "[]"]
    by (simp add: GetBalance_def UTXOSet_FindUTXO_def iterate_utxo_def assms(1) kvs balance_fold
        spendable_outs_values del: filter_filter)
  moreover have "\<exists>m. FindSpendableOutputs ?P (store E) ?bc ?h amount = Ok (picked_sum (picks amount 0 (spendable_outs ?h es)), m)" for amount
    using spend_run [OF la, of ?h amount 0 "[]"]
    by (simp add: FindSpendableOutputs_def iterate_utxo_def assms(1) kvs Let_def)
  ultimately show "\<exists>es. map_of es = abs_utxo ?P (bolt_utxo B (db ?bc)) \<and> distinct (map fst es) \<and>
         (let spendable = spendable_outs ?h es in
          GetBalance E address s = Ok (picked_sum spendable) \<and>
          (\<forall>amount. \<exists>m. FindSpendableOutputs ?P (store E) ?bc ?h amount =
             Ok (picked_sum (picks amount 0 spendable), m)))"
    using es by (auto simp: Let_def)
qed

section \<open>Minting and submitting\<close>

lemma NewBlockPoA_OkD:
  assumes "NewBlockPoA P now rnd txs prev height bits k = Ok b"
  shows "Transactions b = txs" "PrevBlockHash b = prev" "Height b = height" "length (AuthoritySignature b) = 64"
    "SignHash P b = Ok (Hash b)"
  using assms
  by (auto simp: NewBlockPoA_def Let_def bind_result_eq_Ok SignHash_def dest!: FillBytes_OkD(1))

lemma mint_tx_OkD:
  assumes "mint_tx P amount address = Ok tx"
  shows "IsCoinbase tx" "\<exists>out. Vout tx = [out] \<and> NewTXOutput amount address = Ok out"
  using assms by (auto simp: mint_tx_def Let_def bind_result_eq_Ok IsCoinbase_def)

lemma NewTXOutput_Value: "NewTXOutput amount address = Ok out \<Longrightarrow> Value out = amount"
  by (auto simp: NewTXOutput_eq split: if_splits option.splits)

lemma or_refuse_Success:
  assumes "or_refuse r s msg f = (Ok resp, s')" and "Success resp"
  shows "\<exists>x. r = Ok x \<and> f x = (Ok resp, s')"
  using assms by (cases r) (auto simp: or_refuse_def)


text \<open>
  What a client can submit. A successful response means that the request held a transaction whose
  serialised form is at most a megabyte and whose outputs are each within the limit, that it verified
  against the chain, and that it is in the pool under the id in the response.
\<close>

theorem grpc_SubmitTransaction_safe:
  assumes "grpc_SubmitTransaction E others req s = (Ok resp, s')" and "Success resp"
  shows "\<exists>ptx. req = Some ptx \<and> (let tx = tx_of_proto ptx in
    TxId resp = hex_encode (ID tx) \<and> map_of (mempool s') (TxId resp) = Some tx \<and>
    length (Serialize_tx (prims E) tx) \<le> MaxTransactionSizeLimitBytes \<and>
    (\<forall>out \<in> set (Vout tx). sint (Value out) \<le> sint MaxTransactionValueLimit) \<and>
    VerifyTransaction (prims E) (store E) (srv_bc s) tx = Ok True)"
proof -
  obtain ptx where req: "req = Some ptx" using assms by (cases req) (auto simp: grpc_SubmitTransaction_def)
  define tx where "tx = tx_of_proto ptx"
  obtain r s1 where sub: "SubmitTransaction E others tx s = (r, s1)" by fastforce
  have g: "length (Serialize_tx (prims E) tx) \<le> MaxTransactionSizeLimitBytes"
    "find (\<lambda>out. sint (Value out) > sint MaxTransactionValueLimit) (Vout tx) = None"
    using assms req by (auto simp: grpc_SubmitTransaction_def ProtoTxToCore_def or_refuse_def Let_def tx_def
        split: if_splits option.splits)
  then have out: "or_refuse r s1 err_text (\<lambda>_. (Ok \<lparr>Success = True, TxId = hex_encode (ID tx), Err = []\<rparr>, s1)) = (Ok resp, s')"
    using assms(1) req sub by (simp add: grpc_SubmitTransaction_def ProtoTxToCore_def or_refuse_def [of "Ok _"] Let_def tx_def)
  then have r: "r = Ok ()" "s' = s1" "TxId resp = hex_encode (ID tx)"
    using or_refuse_Success [OF out assms(2)] by auto
  have "VerifyTransaction (prims E) (store E) (srv_bc s) tx = Ok True" "map_of (mempool s1) (hex_encode (ID tx)) = Some tx"
    using SubmitTransaction_cases [of tx s E others] sub r(1) by (simp_all add: Let_def split: if_splits)
  then show ?thesis
    using req g r by (auto simp: Let_def tx_def find_None_iff not_less)
qed

section \<open>Concrete calls\<close>

theorem StreamNewBlocks_spec_witness:
  "snd (fst (StreamNewBlocks sample_env (\<lambda>_. None) 1 [Recv (sample_block [] \<lparr>Height := 2\<rparr>), Recv (sample_block []), CtxDone] sample_node)) =
     [the (CoreBlockToProto (Some (sample_block [] \<lparr>Height := 2\<rparr>)))]"
proof -
  have c: "chain (BC_GetBlock (prims sample_env) (store sample_env) (db (srv_bc sample_node))) (tip (srv_bc sample_node)) [sample_block [sample_tx]]"
    using good_chain_chain [OF sample_bc_facts(3) [of "[sample_tx]"]] by simp
  have "0 < sint (1 :: int64)" "\<forall>c \<in> set (blockSubscribers sample_node). ch_id c < next_ch sample_node" by simp_all
  from StreamNewBlocks_spec [OF c this(1) _ this(2), of "\<lambda>_. None" "[Recv (sample_block [] \<lparr>Height := 2\<rparr>), Recv (sample_block []), CtxDone]"]
  show ?thesis by (simp add: Let_def case_prod_unfold)
qed

theorem GetBalance_is_spendable_witness:
  "\<exists>n. GetBalance sample_env (address_of sample_prims sample_wallet) (sample_node\<lparr>srv_bc := sample_two\<rparr>) = Ok n"
  using GetBalance_is_spendable [of sample_env list_bbolt "sample_node\<lparr>srv_bc := sample_two\<rparr>" "address_of sample_prims sample_wallet"]
    sample_two_facts(1) by (auto simp: Let_def)


theorem grpc_SubmitTransaction_safe_witness:
  "\<exists>resp s'. grpc_SubmitTransaction sample_env (\<lambda>s. s) (Some (tx_to_proto sample_coinbase)) sample_node = (Ok resp, s') \<and>
     Success resp \<and> map_of (mempool s') (TxId resp) = Some (tx_of_proto (tx_to_proto sample_coinbase))"
proof -
  have id: "tx_of_proto (tx_to_proto sample_coinbase) = sample_coinbase"
    unfolding tx_roundtrip by (simp add: tx_fits_def fits32_def sample_coinbase_def)
  have "length (Serialize_tx sample_prims sample_coinbase) \<le> MaxTransactionSizeLimitBytes"
  proof -
    have pk: "length (HashPubKey sample_prims x) = 20" for x
      using sample_ripemd160_ok by (simp add: HashPubKey_def ripemd160_ok_def)
    have "Serialize_tx sample_prims sample_coinbase = enc_tx sample_coinbase"
      by (simp add: Serialize_tx_def sample_prims_def)
    moreover have "length (sample_hash x) = 32" for x by (simp add: sample_hash_def)
    ultimately show ?thesis
      using length_enc(3) [of "-1"] length_enc(3) [of 10] length_enc(3) [of 7]
      by (simp add: MaxTransactionSizeLimitBytes_def enc_tx_def sample_coinbase_def
        enc_in_def enc_out_def enc_byte_def enc_bool_def length_enc(1,2) sample_out_def pk)
  qed
  moreover have "find (\<lambda>out. sint (Value out) > sint MaxTransactionValueLimit) (Vout sample_coinbase) = None"
    by (simp add: sample_coinbase_def sample_out_def MaxTransactionValueLimit_def)
  moreover have "fst (SubmitTransaction sample_env (\<lambda>s. s) sample_coinbase sample_node) = Ok ()"
    using SubmitTransaction_cases [of sample_coinbase sample_node sample_env "\<lambda>s. s"]
    by (simp add: VerifyTransaction_def IsCoinbase_def sample_coinbase_def)
  moreover obtain r s1 where "SubmitTransaction sample_env (\<lambda>s. s) sample_coinbase sample_node = (r, s1)" by fastforce
  ultimately obtain resp s' where
    g: "grpc_SubmitTransaction sample_env (\<lambda>s. s) (Some (tx_to_proto sample_coinbase)) sample_node = (Ok resp, s')" "Success resp"
    by (auto simp: grpc_SubmitTransaction_def ProtoTxToCore_def or_refuse_def id Let_def)
  from grpc_SubmitTransaction_safe [OF this] g show ?thesis by (auto simp: Let_def)
qed

end
