(* ===== verification/IndexerMain.thy ===== *)
theory IndexerMain
  imports Dashboard Grpc
begin

text \<open>
  The program \<^verbatim>\<open>cmd/indexer/main.go\<close>: it subscribes to the blocks of a node, enters them into the
  index and tells the dashboard. The store is shared, so the state is that of the dashboard. \<^verbatim>\<open>log.Fatalf\<close>
  ends the program with an error; a signal cancels the context. What the stream delivers is given as
  a list, as is the sequence of connections.
\<close>

section \<open>cmd/indexer\<close>

text \<open>What the handling of one message takes from outside.\<close>

record IdxEnv =
  idx_order :: "(string \<times> IndexedEscrow) list \<Rightarrow> (string \<times> IndexedEscrow) list"
  idx_dash :: DashEnv
  idx_broker :: "nat \<Rightarrow> SSEBroker \<Rightarrow> SSEBroker"

text \<open>The line that is logged for a message; it reads the block of the message once more.\<close>

definition log_block :: "ProtoBlock option \<Rightarrow> string result" where
  "log_block pb =
     (case pb of
        None \<Rightarrow> Panic ''invalid memory address or nil pointer dereference''
      | Some pb \<Rightarrow> Ok (''Indexed block at height '' @ fmt_d (sint (p_Height pb)) @ '' (hash: '' @ hex_encode (p_Hash pb) @ '')''))"

definition index_event :: "IdxEnv \<Rightarrow> ProtoBlock option \<Rightarrow> Dash \<Rightarrow> string result \<times> Dash" where
  "index_event E pb s =
     (case ProtoBlockToCore pb of
        Ok None \<Rightarrow> (Panic ''invalid memory address or nil pointer dereference'', s)
      | Ok (Some coreBlock) \<Rightarrow>
          (let s = s\<lparr>dash_store := ProcessBlock (idx_order E) coreBlock (dash_store s)\<rparr> in
           case NotifyBlockProcessed (idx_dash E) (idx_broker E) s of
             None \<Rightarrow> (Diverge, s)
           | Some s \<Rightarrow> (log_block pb, s))
      | Error e \<Rightarrow> (log_block pb, s)
      | r \<Rightarrow> (as_failure r, s))"

datatype recv = RecvEvent IdxEnv "ProtoBlock option" | RecvErr goerr

text \<open>
  One connection. The outcome is \<open>None\<close> while the program waits for the next message and \<open>Ok\<close> when the
  loop was left to connect again.
\<close>

fun recv_loop :: "recv list \<Rightarrow> string list \<Rightarrow> Dash \<Rightarrow> unit result option \<times> string list \<times> Dash" where
  "recv_loop [] out s = (None, out, s)"
| "recv_loop (RecvErr e # evs) out s =
     (Some (Ok ()), out @ [''Block stream disconnected: '' @ err_text e @ ''. Reconnecting...''], s)"
| "recv_loop (RecvEvent E pb # evs) out s =
     (case index_event E pb s of
        (Ok l, s) \<Rightarrow> recv_loop evs (out @ [l]) s
      | (r, s) \<Rightarrow> (Some (as_failure r), out, s))"

text \<open>
  What the outer loop finds each time round: a cancelled context, or a call of \<^verbatim>\<open>StreamNewBlocks\<close>, which
  depends on the height in the request.
\<close>

datatype attempt = CtxCancelled | Call "int64 \<Rightarrow> recv list result"

fun block_stream :: "attempt list \<Rightarrow> string list \<Rightarrow> Dash \<Rightarrow> unit result option \<times> string list \<times> Dash" where
  "block_stream [] out s = (None, out, s)"
| "block_stream (CtxCancelled # as) out s = (Some (Ok ()), out, s)"
| "block_stream (Call f # as) out s =
     (case f 1 of
        Ok evs \<Rightarrow>
          (case recv_loop evs (out @ [''Successfully subscribed to real-time node block stream'']) s of
             (Some (Ok _), out, s) \<Rightarrow> block_stream as out s
           | res \<Rightarrow> res)
      | Error e \<Rightarrow> block_stream as (out @ [''Failed to subscribe to block stream: '' @ err_text e @ ''. Retrying in 3s...'']) s
      | r \<Rightarrow> (Some (as_failure r), out, s))"

text \<open>\<open>conn\<close> is the outcome of \<^verbatim>\<open>grpc.NewClient\<close>, \<open>parse\<close> parses the text of the index page.\<close>

definition indexer_main ::
    "string \<Rightarrow> unit result \<Rightarrow> (string \<Rightarrow> unit result) \<Rightarrow> attempt list \<Rightarrow> unit result option \<times> string list \<times> Dash option" where
  "indexer_main nodeAddr conn parse as =
     (let started = [''Starting Indexer, Marketplace & Web Dashboard... Connecting to '' @ nodeAddr];
          st = NewIndexer (Some NewIndexStore)
      in case bind_result (wrap_err (''Failed to connect to node at '' @ nodeAddr) conn) (\<lambda>_.
              wrap_err ''Failed to initialize dashboard server'' (NewDashboard st None parse)) of
           Ok dashSrv \<Rightarrow>
             (case block_stream as started dashSrv of
                (Some (Ok _), out, s) \<Rightarrow>
                  (Some (Ok ()), out @ [''Shutting down indexer & dashboard...'', ''Indexer service exited cleanly''], Some s)
              | (r, out, s) \<Rightarrow> (r, out, Some s))
         | r \<Rightarrow> (Some (as_failure r), started, None))"

section \<open>The index of a sequence of blocks\<close>

text \<open>
  The specification: what the index holds after these blocks, oldest first, from nothing.
\<close>

definition is_index_of :: "Block list \<Rightarrow> IndexStore \<Rightarrow> bool" where
  "is_index_of bs st \<longleftrightarrow> idx_inv st \<and> (\<forall>k. map_of (escrows st) k = fold (block_event k) bs None) \<and>
     recentBlocks st = take 20 (rev (map block_summary bs)) \<and>
     TotalBlocksIndexed (metrics st) = of_nat (length bs) \<and>
     TotalTxCount (metrics st) = of_nat (\<Sum>b\<leftarrow>bs. length (Transactions b)) \<and>
     TotalVolume (metrics st) = (\<Sum>b\<leftarrow>bs. block_volume b)"

lemma is_index_of_Nil: "is_index_of [] NewIndexStore"
  using NewIndexStore_inv by (simp add: is_index_of_def NewIndexStore_def)

lemma is_index_of_ProcessBlock:
  assumes "is_index_of bs st" and "is_order ord"
  shows "is_index_of (bs @ [b]) (ProcessBlock ord b st)"
proof -
  have inv: "idx_inv st" using assms(1) by (simp add: is_index_of_def)
  obtain s1 where s1: "idx_step (\<lambda>k. block_event k b) st s1"
    and s': "ProcessBlock ord b st =
      UpdateMetrics (Height b) (of_nat (length (Transactions b))) (block_volume b) (SaveBlock_idx (block_summary b) s1)"
    using ProcessBlock_step [OF inv assms(2)] .
  have "recentBlocks (ProcessBlock ord b st) = take 20 (block_summary b # recentBlocks st)"
    "metrics (ProcessBlock ord b st) = (metrics s1)\<lparr>TotalBlocksIndexed := TotalBlocksIndexed (metrics st) + 1,
       TotalTxCount := TotalTxCount (metrics st) + of_nat (length (Transactions b)), TotalVolume := TotalVolume (metrics st) + block_volume b\<rparr>"
    using s1 by (simp_all add: s' idx_step_def escrow_frame_def UpdateMetrics_def SaveBlock_idx_def Let_def)
  then show ?thesis
    using assms(1) ProcessBlock_event [OF inv assms(2), of b]
    by (simp add: is_index_of_def)
qed

section \<open>Connections\<close>

text \<open>
  The goroutine of the broker takes events from the front of its queue, and in time: before an
  event is queued there is room for it.
\<close>

definition keeps_room :: "(nat \<Rightarrow> SSEBroker \<Rightarrow> SSEBroker) \<Rightarrow> bool" where
  "keeps_room others \<longleftrightarrow> (\<forall>i b. length (broadcast (others i b)) < 100)"

lemma post_events_room: "keeps_room others \<Longrightarrow> \<exists>b'. post_events others i evs b = Some b'"
  by (induction evs arbitrary: i b) (auto simp: BroadcastEvent_def keeps_room_def)

definition idx_env_ok :: "IdxEnv \<Rightarrow> bool" where
  "idx_env_ok E \<longleftrightarrow> is_order (idx_order E) \<and> keeps_room (idx_broker E)"

lemma index_event_Ok:
  assumes "idx_env_ok E" and "block_fits b" and "is_index_of bs (dash_store s)"
  shows "\<exists>l s'. index_event E (Some (proto_of b)) s = (Ok l, s') \<and> is_index_of (bs @ [b]) (dash_store s')"
proof -
  have "ProtoBlockToCore (Some (proto_of b)) = Ok (Some b)"
    using assms(2) block_roundtrip [of b] by (simp add: proto_of_def CoreBlockToProto_def)
  moreover obtain b' where "post_events (idx_broker E) 0
      (notify_events (idx_dash E) (s\<lparr>dash_store := ProcessBlock (idx_order E) b (dash_store s)\<rparr>)) (dash_broker s) = Some b'"
    using assms(1) post_events_room unfolding idx_env_ok_def by blast
  ultimately show ?thesis
    using is_index_of_ProcessBlock [OF assms(3)] assms(1)
    by (simp add: index_event_def NotifyBlockProcessed_def log_block_def idx_env_ok_def Let_def)
qed

text \<open>The messages arrive in the order in which they were sent.\<close>

definition carries :: "recv list \<Rightarrow> ProtoBlock list \<Rightarrow> bool" where
  "carries = list_all2 (\<lambda>ev pb. \<exists>E. ev = RecvEvent E (Some pb) \<and> idx_env_ok E)"

lemma recv_loop_indexed:
  assumes "carries evs (map proto_of bs)" and "list_all block_fits bs" and "is_index_of pre (dash_store s)"
  shows "\<exists>out' s'. recv_loop (evs @ rest) out s = recv_loop rest out' s' \<and> is_index_of (pre @ bs) (dash_store s')"
  using assms
proof (induction bs arbitrary: evs pre out s)
  case (Cons b bs)
  then obtain E evs' where evs: "evs = RecvEvent E (Some (proto_of b)) # evs'" "idx_env_ok E" "carries evs' (map proto_of bs)"
    by (auto simp: carries_def list_all2_Cons2)
  obtain l s1 where l: "index_event E (Some (proto_of b)) s = (Ok l, s1)" "is_index_of (pre @ [b]) (dash_store s1)"
    using index_event_Ok [OF evs(2) _ Cons.prems(3), of b] Cons.prems(2) by auto
  from Cons.IH [OF evs(3) _ l(2), of "out @ [l]"] Cons.prems(2) show ?case by (simp add: evs(1) l(1))
qed (auto simp: carries_def)

text \<open>A connection that stays open, and one that breaks.\<close>

lemma block_stream_indexed:
  assumes "carries evs (map proto_of bs)" and "list_all block_fits bs" and "is_index_of pre (dash_store s)"
  shows "f 1 = Ok evs \<Longrightarrow>
      \<exists>out' s'. block_stream (Call f # as) out s = (None, out', s') \<and> is_index_of (pre @ bs) (dash_store s')"
    and "f 1 = Ok (evs @ [RecvErr e]) \<Longrightarrow>
      \<exists>out' s'. block_stream (Call f # as) out s = block_stream as out' s' \<and> is_index_of (pre @ bs) (dash_store s')"
proof -
  note run = recv_loop_indexed [OF assms, of _ "out @ [''Successfully subscribed to real-time node block stream'']"]
  show "\<exists>out' s'. block_stream (Call f # as) out s = (None, out', s') \<and> is_index_of (pre @ bs) (dash_store s')" if "f 1 = Ok evs"
    using run [of "[]"] that by auto
  show "\<exists>out' s'. block_stream (Call f # as) out s = block_stream as out' s' \<and> is_index_of (pre @ bs) (dash_store s')"
    if "f 1 = Ok (evs @ [RecvErr e])"
  proof -
    obtain out' s' where "recv_loop (evs @ [RecvErr e]) (out @ [''Successfully subscribed to real-time node block stream'']) s =
        recv_loop [RecvErr e] out' s'" "is_index_of (pre @ bs) (dash_store s')"
      using run by blast
    then show ?thesis using that by (intro exI conjI) simp_all
  qed
qed

lemma NewDashboard_indexed:
  "NewDashboard (NewIndexer (Some NewIndexStore)) None (\<lambda>_. Ok ()) = Ok d \<Longrightarrow> is_index_of [] (dash_store d)"
  using is_index_of_Nil by (auto simp: NewDashboard_def NewTemplateRenderer_def NewIndexer_def)

section \<open>The index of a node\<close>

text \<open>The blocks that a stream from a height on sends: those of the chain and those that arrive.\<close>

definition blocks_from :: "int64 \<Rightarrow> Block list \<Rightarrow> stream_event list \<Rightarrow> Block list" where
  "blocks_from start bs evs = (let above = filter (\<lambda>b. sint (Height b) \<ge> sint start) in rev (above bs) @ above (received evs))"

lemma StreamNewBlocks_sent:
  assumes "chain (BC_GetBlock (prims E) (store E) (db (srv_bc s))) (tip (srv_bc s)) bs" and "\<And>sent. ok sent = None"
  shows "snd (fst (StreamNewBlocks E ok 1 evs s)) = map proto_of (blocks_from 1 bs evs)"
proof -
  have "0 < sint (1 :: int64)" by simp
  then obtain r where "StreamNewBlocks E ok 1 evs s =
    (let above = filter (\<lambda>b. sint (Height b) \<ge> sint (1 :: int64)); (ch, s') = SubscribeBlocks s
     in ((r, map proto_of (rev (above bs) @ above (received evs))), if r = None then s' else UnsubscribeBlocks ch s'))"
    by (rule StreamNewBlocks_run [OF assms(1) _ assms(2)])
  then show ?thesis by (simp add: blocks_from_def Let_def case_prod_unfold)
qed

text \<open>
  C24. The index follows the node. The program connects to a node with a chain, the messages of whose
  stream go through, and to a broker that keeps up. Then it does not stop, and its index is the
  specified function of the blocks of the chain above the genesis block, oldest first, and of the
  blocks that arrived since: the state of every escrow, the recent blocks and the totals. The fields
  of these blocks have to fit the 32 bits of the messages.
\<close>

theorem index_follows_node:
  assumes "chain (BC_GetBlock (prims E) (store E) (db (srv_bc node))) (tip (srv_bc node)) bs"
    and "\<And>sent. ok sent = None" and "list_all block_fits (blocks_from 1 bs evs)"
    and "\<And>h. \<exists>ms. f h = Ok ms \<and> carries ms (snd (fst (StreamNewBlocks E ok h evs node)))"
  shows "\<exists>out d. indexer_main addr (Ok ()) (\<lambda>_. Ok ()) [Call f] = (None, out, Some d) \<and>
    is_index_of (blocks_from 1 bs evs) (dash_store d)"
proof -
  obtain ms where ms: "f 1 = Ok ms" "carries ms (map proto_of (blocks_from 1 bs evs))"
    using assms(4) [of 1] StreamNewBlocks_sent [OF assms(1), of ok evs, OF assms(2)] by auto
  obtain d where d: "NewDashboard (NewIndexer (Some NewIndexStore)) None (\<lambda>_. Ok ()) = Ok d" by (simp add: NewDashboard_def NewTemplateRenderer_def)
  obtain out d' where "block_stream [Call f] [''Starting Indexer, Marketplace & Web Dashboard... Connecting to '' @ addr] d = (None, out, d')"
    "is_index_of (blocks_from 1 bs evs) (dash_store d')"
    using block_stream_indexed(1) [OF ms(2) assms(3) NewDashboard_indexed [OF d], of f "[]"
      "[''Starting Indexer, Marketplace & Web Dashboard... Connecting to '' @ addr]"] ms(1) by auto
  then show ?thesis using d by (simp add: indexer_main_def Let_def del: block_stream.simps)
qed

text \<open>
  Every connection starts at the same height and the index is not emptied, so after a connection that
  broke every block is counted twice.
\<close>

theorem reconnect_counts_twice:
  assumes "chain (BC_GetBlock (prims E) (store E) (db (srv_bc node))) (tip (srv_bc node)) bs"
    and "\<And>sent. ok sent = None" and "list_all block_fits (blocks_from 1 bs evs)"
    and "\<And>h. \<exists>ms. carries ms (snd (fst (StreamNewBlocks E ok h evs node))) \<and> f h = Ok (ms @ [RecvErr e]) \<and> g h = Ok ms"
  shows "\<exists>out d. indexer_main addr (Ok ()) (\<lambda>_. Ok ()) [Call f, Call g] = (None, out, Some d) \<and>
    TotalBlocksIndexed (GetMetrics (dash_store d)) = 2 * of_nat (length (blocks_from 1 bs evs))"
proof -
  let ?bs = "blocks_from 1 bs evs"
  obtain ms where ms: "f 1 = Ok (ms @ [RecvErr e])" "g 1 = Ok ms" "carries ms (map proto_of ?bs)"
    using assms(4) [of 1] StreamNewBlocks_sent [OF assms(1), of ok evs, OF assms(2)] by auto
  obtain d where d: "NewDashboard (NewIndexer (Some NewIndexStore)) None (\<lambda>_. Ok ()) = Ok d" by (simp add: NewDashboard_def NewTemplateRenderer_def)
  note run = block_stream_indexed [OF ms(3) assms(3)]
  obtain out1 d1 where 1: "block_stream [Call f, Call g] [''Starting Indexer, Marketplace & Web Dashboard... Connecting to '' @ addr] d =
      block_stream [Call g] out1 d1" "is_index_of ?bs (dash_store d1)"
    using run(2) [OF NewDashboard_indexed [OF d], of f e "[Call g]"
      "[''Starting Indexer, Marketplace & Web Dashboard... Connecting to '' @ addr]"] ms(1) by auto
  obtain out2 d2 where 2: "block_stream [Call g] out1 d1 = (None, out2, d2)" "is_index_of (?bs @ ?bs) (dash_store d2)"
    using run(1) [OF 1(2), of g "[]" out1] ms(2) by blast
  then show ?thesis using 1(1) d by (simp add: indexer_main_def Let_def is_index_of_def GetMetrics_def del: block_stream.simps)
qed

section \<open>A concrete run\<close>

definition prompt_env :: IdxEnv where
  "prompt_env = \<lparr>idx_order = (\<lambda>m. m), idx_dash = quiet_env, idx_broker = (\<lambda>_ b. b\<lparr>broadcast := []\<rparr>)\<rparr>"

definition link :: "(int64 \<Rightarrow> ProtoBlock list) \<Rightarrow> int64 \<Rightarrow> recv list result" where
  "link node h = Ok (map (\<lambda>pb. RecvEvent prompt_env (Some pb)) (node h))"

lemma link_carries: "\<exists>ms. link node h = Ok ms \<and> carries ms (node h)"
  by (simp add: link_def carries_def list_all2_map1 list_all2_same idx_env_ok_def prompt_env_def keeps_room_def)

theorem index_follows_node_witness:
  "\<exists>out d. indexer_main ''n'' (Ok ()) (\<lambda>_. Ok ())
      [Call (link (\<lambda>h. snd (fst (StreamNewBlocks sample_env (\<lambda>_. None) h [Recv (sample_block [] \<lparr>Height := 2\<rparr>)] sample_node))))] =
      (None, out, Some d) \<and> is_index_of [sample_block [] \<lparr>Height := 2\<rparr>] (dash_store d)"
proof -
  have c: "chain (BC_GetBlock (prims sample_env) (store sample_env) (db (srv_bc sample_node))) (tip (srv_bc sample_node)) [sample_block [sample_tx]]"
    using good_chain_chain [OF sample_bc_facts(3) [of "[sample_tx]"]] by simp
  let ?evs = "[Recv (sample_block [] \<lparr>Height := 2\<rparr>)]"
  have b: "blocks_from 1 [sample_block [sample_tx]] ?evs = [sample_block [] \<lparr>Height := 2\<rparr>]"
    by (simp add: blocks_from_def sample_block_def)
  have "list_all block_fits (blocks_from 1 [sample_block [sample_tx]] ?evs)"
    unfolding b by (simp add: block_fits_def fits32_def sample_block_def)
  with index_follows_node [OF c, of "\<lambda>_. None" ?evs
      "link (\<lambda>h. snd (fst (StreamNewBlocks sample_env (\<lambda>_. None) h ?evs sample_node)))" "''n''"] link_carries
  show ?thesis unfolding b by blast
qed

end
