(* ===== verification/RestApi.thy ===== *)
theory RestApi
  imports Grpc
begin

text \<open>
  The REST interface of \<^verbatim>\<open>internal/api/handler.go\<close>: the JSON views of blocks and transactions and
  one function per handler. A handler gets the method, the path values and the query of a request
  and returns status, headers and body; the body is the Go value that is handed to the JSON
  encoder. Routing and the HTTP server are left to the standard library.
\<close>

section \<open>JSON views\<close>

record TXInputJSON =
  jin_Txid :: string
  jin_Vout :: int64
  jin_Signature :: string
  jin_PubKey :: string

record TXOutputJSON =
  jout_Value :: int64
  jout_PubKeyHash :: string

record TransactionJSON =
  jtx_ID :: string
  jtx_Vin :: "TXInputJSON list"
  jtx_Vout :: "TXOutputJSON list"

record BlockJSON =
  jb_Timestamp :: int64
  jb_Transactions :: "TransactionJSON list"
  jb_PrevBlockHash :: string
  jb_Hash :: string
  jb_Nonce :: int64
  jb_Height :: int64
  jb_Bits :: int64

record HeightJSON =
  jh_Height :: int64
  jh_TipHash :: string

record BalanceJSON =
  jbal_Address :: string
  jbal_Balance :: int64

definition mapTransaction :: "Transaction \<Rightarrow> TransactionJSON" where
  "mapTransaction tx =
     (let vins = map (\<lambda>vin. \<lparr>jin_Txid = hex_encode (Txid vin), jin_Vout = Vout_in vin,
                jin_Signature = hex_encode (Signature vin), jin_PubKey = hex_encode (PubKey vin)\<rparr>) (Vin tx);
          vouts = map (\<lambda>out. \<lparr>jout_Value = Value out, jout_PubKeyHash = hex_encode (PubKeyHash out)\<rparr>) (Vout tx)
      in \<lparr>jtx_ID = hex_encode (ID tx), jtx_Vin = vins, jtx_Vout = vouts\<rparr>)"

definition mapBlock :: "Block \<Rightarrow> BlockJSON" where
  "mapBlock b =
     \<lparr>jb_Timestamp = Timestamp b, jb_Transactions = map mapTransaction (Transactions b),
      jb_PrevBlockHash = hex_encode (PrevBlockHash b), jb_Hash = hex_encode (Hash b),
      jb_Nonce = Nonce b, jb_Height = Height b, jb_Bits = Bits b\<rparr>"

section \<open>Requests and responses\<close>

record http_request =
  Method :: string
  PathValue :: "string \<Rightarrow> string"
  Query :: "string \<Rightarrow> string"

text \<open>A nil slice of blocks, which is written as \<^verbatim>\<open>null\<close>, is the empty list.\<close>

datatype rest_body =
    NoBody
  | ErrorBody string
  | BlocksBody "BlockJSON list"
  | BlockBody BlockJSON
  | HeightBody HeightJSON
  | BalanceBody BalanceJSON
  | MempoolBody "TransactionJSON list"

record http_response =
  status :: nat
  headers :: "(string \<times> string) list"
  body :: rest_body

text \<open>\<^verbatim>\<open>strconv.Atoi\<close>: an optional sign, decimal digits, and the range of a 64-bit integer.\<close>

definition dec_value :: "char \<Rightarrow> nat option" where
  "dec_value c = (let n = of_char c in if 48 \<le> n \<and> n \<le> 57 then Some (n - 48) else None)"

fun digits_value :: "nat \<Rightarrow> string \<Rightarrow> nat option" where
  "digits_value acc [] = Some acc"
| "digits_value acc (c # cs) =
     (case dec_value c of None \<Rightarrow> None | Some d \<Rightarrow> digits_value (10 * acc + d) cs)"

definition Atoi :: "string \<Rightarrow> int64 option" where
  "Atoi s =
     (let neg = (take 1 s = ''-'');
          ds = (if take 1 s = ''-'' \<or> take 1 s = ''+'' then drop 1 s else s)
      in if ds = [] then None
         else case digits_value 0 ds of
             None \<Rightarrow> None
           | Some n \<Rightarrow> (let i = (if neg then - int n else int n) in
               if - (2 ^ 63) \<le> i \<and> i < 2 ^ 63 then Some (word_of_int i) else None))"

definition set_header :: "string \<Rightarrow> string \<Rightarrow> http_response \<Rightarrow> http_response" where
  "set_header k v w = w\<lparr>headers := AList.update k v (headers w)\<rparr>"

definition enableCORS :: "http_response \<Rightarrow> http_response" where
  "enableCORS w =
     set_header ''Content-Type'' ''application/json''
     (set_header ''Access-Control-Allow-Headers'' ''Content-Type''
     (set_header ''Access-Control-Allow-Methods'' ''GET, OPTIONS''
     (set_header ''Access-Control-Allow-Origin'' ''*'' w)))"

text \<open>The response every handler starts from, and the two ways it ends.\<close>

abbreviation cors :: http_response where
  "cors \<equiv> enableCORS \<lparr>status = 200, headers = [], body = NoBody\<rparr>"

abbreviation reply :: "rest_body \<Rightarrow> http_response" where
  "reply b \<equiv> cors\<lparr>body := b\<rparr>"

abbreviation reply_error :: "nat \<Rightarrow> string \<Rightarrow> http_response" where
  "reply_error code m \<equiv> cors\<lparr>status := code, body := ErrorBody m\<rparr>"

section \<open>Handlers\<close>

text \<open>The parameters of a page: a positive limit, ten by default, and a non-negative offset.\<close>

definition page_limit :: "http_request \<Rightarrow> int64" where
  "page_limit r = (case Atoi (Query r ''limit'') of Some l \<Rightarrow> if sint l > 0 then l else 10 | None \<Rightarrow> 10)"

definition page_offset :: "http_request \<Rightarrow> int64" where
  "page_offset r = (case Atoi (Query r ''offset'') of Some n \<Rightarrow> if sint n \<ge> 0 then n else 0 | None \<Rightarrow> 0)"

text \<open>The body of the loop: \<open>count\<close> and \<open>skipped\<close> never pass the number of blocks.\<close>

definition page_step ::
    "int64 \<Rightarrow> int64 \<Rightarrow> Block \<Rightarrow> BlockJSON list \<times> int \<times> int \<Rightarrow> (BlockJSON list \<times> int \<times> int) \<times> bool" where
  "page_step limit offset b = (\<lambda>(blocks, count, skipped).
     if skipped < sint offset then ((blocks, count, skipped + 1), True)
     else ((blocks @ [mapBlock b], count + 1, skipped), \<not> (count + 1 \<ge> sint limit)))"

definition HandleBlocks :: "'s Env \<Rightarrow> 's Blockchain \<Rightarrow> http_request \<Rightarrow> http_response result" where
  "HandleBlocks E bc r =
     (if Method r = ''OPTIONS'' then Ok cors
      else
        bind_result (Blocks (prims E) (store E) bc (page_step (page_limit r) (page_offset r)) ([], 0, 0))
          (\<lambda>(blocks, _, _). Ok (reply (BlocksBody blocks))))"

definition HandleBlockByHash :: "'s Env \<Rightarrow> 's Blockchain \<Rightarrow> http_request \<Rightarrow> http_response result" where
  "HandleBlockByHash E bc r =
     (if Method r = ''OPTIONS'' then Ok cors
      else
        case hex_decode (PathValue r ''hash'') of
          Error e \<Rightarrow> Ok (reply_error 400 ''invalid hash format'')
        | Ok hash \<Rightarrow>
            (case BC_GetBlock (prims E) (store E) (db bc) hash of
               Error e \<Rightarrow> Ok (reply_error 404 ''block not found'')
             | Ok b \<Rightarrow> Ok (reply (BlockBody (mapBlock b)))
             | f \<Rightarrow> as_failure f)
        | f \<Rightarrow> as_failure f)"

definition HandleHeight :: "'s Env \<Rightarrow> 's Blockchain \<Rightarrow> http_request \<Rightarrow> http_response result" where
  "HandleHeight E bc r =
     (if Method r = ''OPTIONS'' then Ok cors
      else
        case GetBestHeight (prims E) (store E) bc of
          Error e \<Rightarrow> Ok (reply_error 500 (err_text e))
        | Ok height \<Rightarrow>
            bind_result (Blocks (prims E) (store E) bc (\<lambda>b tipHash. (hex_encode (Hash b), False)) [])
              (\<lambda>tipHash. Ok (reply (HeightBody \<lparr>jh_Height = height, jh_TipHash = tipHash\<rparr>)))
        | f \<Rightarrow> as_failure f)"

definition HandleBalance :: "'s Env \<Rightarrow> 's Blockchain \<Rightarrow> http_request \<Rightarrow> http_response result" where
  "HandleBalance E bc r =
     (if Method r = ''OPTIONS'' then Ok cors
      else
        let address = PathValue r ''address'' in
        if \<not> ValidateAddress (prims E) address then Ok (reply_error 400 ''invalid address'')
        else
          let pubKeyHash = Base58Decode (string_bytes address) in
          if length pubKeyHash < 5 then Ok (reply_error 400 ''invalid address format'')
          else
            case UTXOSet_FindUTXO (prims E) (store E) bc (slice 1 (length pubKeyHash - 4) pubKeyHash) of
              Error e \<Rightarrow> Ok (reply_error 500 (err_text e))
            | Ok utxos \<Rightarrow>
                Ok (reply (BalanceBody \<lparr>jbal_Address = address,
                  jbal_Balance = fold (\<lambda>out balance. balance + Value out) utxos 0\<rparr>))
            | f \<Rightarrow> as_failure f)"

definition HandleMempool :: "'s Env \<Rightarrow> 's Server \<Rightarrow> http_request \<Rightarrow> http_response result" where
  "HandleMempool E srv r =
     (if Method r = ''OPTIONS'' then Ok cors
      else Ok (reply (MempoolBody (map mapTransaction (MempoolSnapshot E srv)))))"

section \<open>Lemmas\<close>

lemma page_step_app:
  "page_step limit offset b (acc, c, s) =
     (if s < sint offset then ((acc, c, s + 1), True)
      else ((acc @ [mapBlock b], c + 1, s), \<not> (c + 1 \<ge> sint limit)))"
  by (simp add: page_step_def)

lemma run_page:
  assumes "0 \<le> c" and "c < sint limit" and "0 \<le> s" and "s \<le> sint offset"
  shows "fst (run_blocks (page_step limit offset) bs (acc, c, s)) =
    acc @ map mapBlock (take (nat (sint limit - c)) (drop (nat (sint offset - s)) bs))"
  using assms
proof (induction bs arbitrary: acc c s)
  case (Cons b bs)
  show ?case
  proof (cases "s < sint offset")
    case True
    then have "nat (sint offset - s) = Suc (nat (sint offset - (s + 1)))" by simp
    then show ?thesis using True Cons.IH [of c "s + 1" acc] Cons.prems by (simp add: page_step_app)
  next
    case False
    then have s: "s = sint offset" using Cons.prems by simp
    have n: "nat (sint limit - c) = Suc (nat (sint limit - (c + 1)))" using Cons.prems by simp
    show ?thesis
    proof (cases "c + 1 \<ge> sint limit")
      case True
      then show ?thesis using s n by (simp add: page_step_app)
    next
      case c: False
      have "fst (run_blocks (page_step limit offset) bs (acc @ [mapBlock b], c + 1, s)) =
          (acc @ [mapBlock b]) @ map mapBlock (take (nat (sint limit - (c + 1))) (drop (nat (sint offset - s)) bs))"
        using Cons.prems c by (intro Cons.IH) auto
      then show ?thesis using s n c by (simp add: page_step_app)
    qed
  qed
qed simp

lemma page_params: "0 < sint (page_limit r)" "0 \<le> sint (page_offset r)"
  by (auto simp: page_limit_def page_offset_def split: option.split)

lemma HandleBlocks_chain:
  assumes "chain (BC_GetBlock (prims E) (store E) (db bc)) (tip bc) bs" and "Method r \<noteq> ''OPTIONS''"
  shows "HandleBlocks E bc r = Ok (reply (BlocksBody
    (map mapBlock (take (nat (sint (page_limit r))) (drop (nat (sint (page_offset r))) bs)))))"
proof -
  obtain a b c where r: "run_blocks (page_step (page_limit r) (page_offset r)) bs ([], 0, 0) = (a, b, c)"
    by (cases "run_blocks (page_step (page_limit r) (page_offset r)) bs ([], 0, 0)") auto
  have "a = map mapBlock (take (nat (sint (page_limit r))) (drop (nat (sint (page_offset r))) bs))"
    using run_page [of 0 "page_limit r" 0 "page_offset r" bs "[]"] page_params [of r] r by simp
  then show ?thesis using assms(2) r by (simp add: HandleBlocks_def Blocks_chain [OF assms(1)])
qed

text \<open>Decimal text is read back.\<close>

lemma digits_value_append:
  "digits_value a (xs @ ys) = (case digits_value a xs of None \<Rightarrow> None | Some b \<Rightarrow> digits_value b ys)"
  by (induction xs arbitrary: a) (auto split: option.split)

lemma dec_value_digit: "d < 10 \<Longrightarrow> dec_value (hex_digit d) = Some d"
proof -
  assume "d < 10"
  then have "d \<in> {0, 1, 2, 3, 4, 5, 6, 7, 8, 9}" by simp presburger
  then show ?thesis by (auto simp: dec_value_def hex_digit_def Let_def)
qed

lemma digits_value_dec: "digits_value 0 (nat_dec n) = Some n"
proof (induction n rule: nat_dec.induct)
  case (1 n)
  then show ?case
    by (subst nat_dec.simps) (simp add: digits_value_append dec_value_digit)
qed

lemma nat_dec_hd: "nat_dec n \<noteq> [] \<and> dec_value (hd (nat_dec n)) \<noteq> None"
proof (induction n rule: nat_dec.induct)
  case (1 n)
  then show ?case by (subst (1 2) nat_dec.simps) (simp add: dec_value_digit)
qed

lemma Atoi_fmt_d: "n < 2 ^ 63 \<Longrightarrow> Atoi (fmt_d (int n)) = Some (of_nat n)"
proof -
  assume n: "n < 2 ^ 63"
  obtain c cs where d: "nat_dec n = c # cs" "dec_value c \<noteq> None" using nat_dec_hd [of n] by (cases "nat_dec n") auto
  then have "c \<noteq> CHR ''-''" "c \<noteq> CHR ''+''" by (auto simp: dec_value_def Let_def)
  moreover have "int n < 2 ^ 63" using n by simp
  ultimately show ?thesis using d(1) digits_value_dec [of n] by (simp add: Atoi_def fmt_d_def Let_def)
qed

text \<open>Pages of one size put one after another.\<close>

lemma concat_pages: "concat (map (\<lambda>i. take L (drop (i * L) xs)) [0..<n]) = take (n * L) xs"
proof (induction n)
  case (Suc n)
  then show ?case by (simp add: add.commute [of L] take_add)
qed simp

lemma fold_balance:
  "fold (\<lambda>out balance. balance + Value out) outs b =
     fold (\<lambda>out balance. if ScriptType out \<noteq> ScriptTypeEscrow then balance + Value out else balance) outs b +
     (\<Sum>out\<leftarrow>filter (\<lambda>out. ScriptType out = ScriptTypeEscrow) outs. Value out)"
proof -
  have "fold (\<lambda>out balance. balance + Value out) outs (b + e) =
     fold (\<lambda>out balance. if ScriptType out \<noteq> ScriptTypeEscrow then balance + Value out else balance) outs b +
     (e + (\<Sum>out\<leftarrow>filter (\<lambda>out. ScriptType out = ScriptTypeEscrow) outs. Value out))" for e
  proof (induction outs arbitrary: b e)
    case (Cons a outs)
    show ?case
    proof (cases "ScriptType a = ScriptTypeEscrow")
      case True
      then show ?thesis using Cons.IH [of b "e + Value a"] by (simp add: add.assoc)
    next
      case False
      then show ?thesis using Cons.IH [of "b + Value a" e] by (simp add: algebra_simps)
    qed
  qed simp
  from this [of 0] show ?thesis by simp
qed

lemma ValidateAddress_nonempty: "ValidateAddress P a \<Longrightarrow> a \<noteq> []"
proof -
  have "Base58Decode (string_bytes []) = []" by (simp add: Base58Decode_def string_bytes_def Let_def)
  then show "ValidateAddress P a \<Longrightarrow> a \<noteq> []" by (auto simp: ValidateAddress_def addressChecksumLen_def)
qed

section \<open>Properties\<close>

text \<open>The query for the page at an offset.\<close>

definition page_request :: "nat \<Rightarrow> nat \<Rightarrow> http_request" where
  "page_request limit offset = \<lparr>Method = ''GET'', PathValue = (\<lambda>_. []),
     Query = (\<lambda>_. [])(''limit'' := fmt_d (int limit), ''offset'' := fmt_d (int offset))\<rparr>"

text \<open>
  C36. Paging through the blocks of a finite chain shows every block once, newest first: any request
  gets the blocks from its offset on, as many as its limit, where a missing or unusable limit is 10
  and a missing or unusable offset is 0; and the pages of one size, put one after another, are
  the chain.
\<close>

theorem rest_pages:
  assumes c: "chain (BC_GetBlock (prims E) (store E) (db bc)) (tip bc) bs"
  shows "(Method r \<noteq> ''OPTIONS'' \<longrightarrow> HandleBlocks E bc r = Ok (reply (BlocksBody
      (map mapBlock (take (nat (sint (page_limit r))) (drop (nat (sint (page_offset r))) bs)))))) \<and>
    (Atoi (Query r ''limit'') = None \<longrightarrow> page_limit r = 10) \<and> (Atoi (Query r ''offset'') = None \<longrightarrow> page_offset r = 0) \<and>
    (0 < L \<and> n * L < 2 ^ 63 \<and> length bs \<le> n * L \<longrightarrow>
      (\<exists>pages. map (\<lambda>i. HandleBlocks E bc (page_request L (i * L))) [0..<n] = map (\<lambda>p. Ok (reply (BlocksBody p))) pages \<and>
        concat pages = map mapBlock bs))"
proof (intro conjI impI)
  assume "Method r \<noteq> ''OPTIONS''"
  then show "HandleBlocks E bc r = Ok (reply (BlocksBody
      (map mapBlock (take (nat (sint (page_limit r))) (drop (nat (sint (page_offset r))) bs)))))"
    by (rule HandleBlocks_chain [OF c])
next
  assume L: "0 < L \<and> n * L < 2 ^ 63 \<and> length bs \<le> n * L"
  have page: "HandleBlocks E bc (page_request L (i * L)) = Ok (reply (BlocksBody (map mapBlock (take L (drop (i * L) bs)))))"
    if "i < n" for i
  proof -
    have "L \<le> n * L" using that by simp
    moreover have "i * L \<le> n * L" using that by simp
    ultimately have small: "L < 2 ^ 63" "i * L < 2 ^ 63" using L by linarith+
    then have s: "sint (of_nat L :: int64) = int L" "sint (of_nat (i * L) :: int64) = int (i * L)"
    proof -
      have "sint (of_nat k :: int64) = int k" if "k < 2 ^ 63" for k
      proof -
        have "int k < 2 ^ 63" using that by simp
        then show ?thesis using sint_of_int64 [of "int k"] by simp
      qed
      from this [OF small(1)] this [OF small(2)]
      show "sint (of_nat L :: int64) = int L" "sint (of_nat (i * L) :: int64) = int (i * L)" .
    qed
    have "page_limit (page_request L (i * L)) = of_nat L" "page_offset (page_request L (i * L)) = of_nat (i * L)"
      using Atoi_fmt_d [OF small(1)] Atoi_fmt_d [OF small(2)] s L
      by (simp_all add: page_limit_def page_offset_def page_request_def)
    then show ?thesis using HandleBlocks_chain [OF c, of "page_request L (i * L)"] s
      by (simp add: page_request_def flip: of_nat_mult)
  qed
  have "concat (map (\<lambda>i. map mapBlock (take L (drop (i * L) bs))) [0..<n]) = map mapBlock bs"
    using concat_pages [of L "map mapBlock bs" n] L by (simp add: take_map drop_map)
  moreover have "map (\<lambda>i. HandleBlocks E bc (page_request L (i * L))) [0..<n] =
      map (\<lambda>p. Ok (reply (BlocksBody p))) (map (\<lambda>i. map mapBlock (take L (drop (i * L) bs))) [0..<n])"
    using page by simp
  ultimately show "\<exists>pages. map (\<lambda>i. HandleBlocks E bc (page_request L (i * L))) [0..<n] =
      map (\<lambda>p. Ok (reply (BlocksBody p))) pages \<and> concat pages = map mapBlock bs"
    by blast
qed (simp_all add: page_limit_def page_offset_def)

theorem rest_pages_witness:
  "\<exists>pages. map (\<lambda>i. HandleBlocks sample_env (sample_bc [sample_tx]) (page_request 1 (i * 1))) [0..<2] =
     map (\<lambda>p. Ok (reply (BlocksBody p))) pages \<and> concat pages = [mapBlock (sample_block [sample_tx])]"
proof -
  have "chain (BC_GetBlock (prims sample_env) (store sample_env) (db (sample_bc [sample_tx]))) (tip (sample_bc [sample_tx])) [sample_block [sample_tx]]"
    using good_chain_chain [OF sample_bc_facts(3) [of "[sample_tx]"]] by simp
  from rest_pages [OF this, of _ 1 2] show ?thesis by simp
qed

text \<open>
  Reading single blocks and the height of a chain whose cached tip is the stored one: the
  height endpoint reports height and hash of the tip block, every block of the chain is served
  under the hexadecimal text of its hash, a hash that is not stored is answered with status 404,
  and text that is not hexadecimal with status 400.
\<close>

theorem rest_reads:
  assumes g: "good_chain (BC_GetBlock (prims E) (store E) (db bc)) (tip bc) (b # bs)"
    and t: "GetTip (store E) (db bc) = Ok (tip bc)" and m: "Method r \<noteq> ''OPTIONS''"
  shows "HandleHeight E bc r = Ok (reply (HeightBody \<lparr>jh_Height = Height b, jh_TipHash = hex_encode (tip bc)\<rparr>)) \<and>
    (\<forall>c \<in> set (b # bs). PathValue r ''hash'' = hex_encode (Hash c) \<longrightarrow> HandleBlockByHash E bc r = Ok (reply (BlockBody (mapBlock c)))) \<and>
    (PathValue r ''hash'' = hex_encode h \<and> BC_GetBlock (prims E) (store E) (db bc) h = Error e \<longrightarrow>
       HandleBlockByHash E bc r = Ok (reply_error 404 ''block not found'')) \<and>
    (hex_decode (PathValue r ''hash'') = Error e \<longrightarrow> HandleBlockByHash E bc r = Ok (reply_error 400 ''invalid hash format''))"
proof -
  have hd: "BC_GetBlock (prims E) (store E) (db bc) (tip bc) = Ok b" "Hash b = tip bc"
    using good_chain_hd [OF g] by auto
  then have "GetBestHeight (prims E) (store E) bc = Ok (Height b)"
    using t by (auto simp: GetBestHeight_def BC_GetBlock_Ok)
  moreover have "Blocks (prims E) (store E) bc (\<lambda>b tipHash. (hex_encode (Hash b), False)) [] = Ok (hex_encode (tip bc))"
    using hd(2) by (simp add: Blocks_chain [OF good_chain_chain [OF g]])
  ultimately show ?thesis
    using m good_chain_lookup [OF g] by (auto simp: HandleHeight_def HandleBlockByHash_def)
qed

theorem rest_reads_witness:
  "HandleHeight sample_env (sample_bc [sample_tx]) (page_request 1 0) =
     Ok (reply (HeightBody \<lparr>jh_Height = 0, jh_TipHash = ''07''\<rparr>))"
proof -
  have g: "good_chain (BC_GetBlock (prims sample_env) (store sample_env) (db (sample_bc [sample_tx]))) (tip (sample_bc [sample_tx]))
      (sample_block [sample_tx] # [])"
    using sample_bc_facts(3) [of "[sample_tx]"] by simp
  have t: "GetTip (store sample_env) (db (sample_bc [sample_tx])) = Ok (tip (sample_bc [sample_tx]))"
    using bolt.get_tip [of list_bbolt "db (sample_bc [sample_tx])"] sample_bc_facts(1) [of "[sample_tx]"]
    by (simp add: bc_synced_def)
  have "Method (page_request 1 0) \<noteq> ''OPTIONS''" by (simp add: page_request_def)
  from rest_reads [OF g t this] show ?thesis by (simp add: hex_digit_def)
qed

text \<open>
  The two interfaces of the node do not agree on what a balance is. For a valid address, the
  REST interface adds up all unspent outputs locked to it; the gRPC interface leaves the escrows
  out. The difference is exactly the 64-bit sum of the escrows that lock funds for the address.
\<close>

theorem rest_balance_counts_escrows:
  assumes "Method r \<noteq> ''OPTIONS''" and "ValidateAddress (prims E) (PathValue r ''address'')"
    and "UTXOSet_FindUTXO (prims E) (store E) (srv_bc s) (request_hash (PathValue r ''address'')) = Ok utxos"
  shows "\<exists>n. GetBalance E (PathValue r ''address'') s = Ok n \<and>
    HandleBalance E (srv_bc s) r = Ok (reply (BalanceBody \<lparr>jbal_Address = PathValue r ''address'',
      jbal_Balance = n + (\<Sum>out\<leftarrow>filter (\<lambda>out. ScriptType out = ScriptTypeEscrow) utxos. Value out)\<rparr>))"
proof -
  have "5 \<le> length (Base58Decode (string_bytes (PathValue r ''address'')))"
    using assms(2) by (auto simp: ValidateAddress_def addressChecksumLen_def Let_def split: if_splits)
  then have "HandleBalance E (srv_bc s) r = Ok (reply (BalanceBody \<lparr>jbal_Address = PathValue r ''address'',
      jbal_Balance = fold (\<lambda>out balance. balance + Value out) utxos 0\<rparr>))"
    using assms by (simp add: HandleBalance_def request_hash_def addressChecksumLen_def Let_def)
  moreover have "GetBalance E (PathValue r ''address'') s = Ok (fold (\<lambda>out balance.
      if ScriptType out \<noteq> ScriptTypeEscrow then balance + Value out else balance) utxos 0)"
    using assms ValidateAddress_nonempty [OF assms(2)] by (simp add: GetBalance_def)
  ultimately show ?thesis unfolding fold_balance by simp
qed

theorem rest_balance_counts_escrows_witness:
  "\<exists>r. HandleBalance sample_env (funded_bc (sample_out 10 1)) r = Ok (reply (BalanceBody
      \<lparr>jbal_Address = address_of sample_prims sample_wallet, jbal_Balance = 10\<rparr>)) \<and>
     GetBalance sample_env (address_of sample_prims sample_wallet) (sample_node\<lparr>srv_bc := funded_bc (sample_out 10 1)\<rparr>) = Ok 0"
proof -
  define a where "a = address_of sample_prims sample_wallet"
  define r where "r = \<lparr>Method = ''GET'', PathValue = (\<lambda>_. a), Query = (\<lambda>_. [])\<rparr>"
  let ?s = "sample_node\<lparr>srv_bc := funded_bc (sample_out 10 1)\<rparr>"
  have v: "ValidateAddress sample_prims a" unfolding a_def by (rule ValidateAddress_of_wallet) simp
  have "address_hash a = Some (HashPubKey sample_prims sample_pk)"
    unfolding a_def using address_hash_of_wallet [OF sample_sha256_ok, of sample_wallet] by simp
  then have h: "request_hash a = HashPubKey sample_prims sample_pk"
    by (auto simp: address_hash_def request_hash_def addressChecksumLen_def Let_def split: if_splits)
  have "UTXOSet_FindUTXO sample_prims list_storage (funded_bc (sample_out 10 1)) (request_hash a) = Ok [sample_out 10 1]"
    using funded_bc_facts(3) [of "sample_out 10 1"] h
    by (auto simp: UTXOSet_FindUTXO_def iterate_utxo_def IsLockedWithKey_def) (auto simp: sample_out_def)
  then have m: "Method r \<noteq> ''OPTIONS''" "ValidateAddress (prims sample_env) (PathValue r ''address'')"
    "UTXOSet_FindUTXO (prims sample_env) (store sample_env) (srv_bc ?s) (request_hash (PathValue r ''address'')) = Ok [sample_out 10 1]"
    using v by (simp_all add: r_def)
  from rest_balance_counts_escrows [OF m]
  have "\<exists>n. GetBalance sample_env a ?s = Ok n \<and> HandleBalance sample_env (funded_bc (sample_out 10 1)) r =
      Ok (reply (BalanceBody \<lparr>jbal_Address = a, jbal_Balance = n + 10\<rparr>))"
    by (simp add: r_def)
  moreover have "GetBalance sample_env a ?s = Ok 0"
    using m(2,3) ValidateAddress_nonempty [OF m(2)] by (simp add: GetBalance_def r_def)
  ultimately show ?thesis unfolding a_def by auto
qed

end
