(* ===== verification/Cli.thy ===== *)
theory Cli
  imports ServerProps
begin

text \<open>
  The command line of \<^verbatim>\<open>internal/cli/root.go\<close>: one function per subcommand, over a world of files. A
  database file is the state of the bbolt database in it, wallet files are bytes. What a command
  takes from outside (library routines, randomness, clock, orders of map iteration, failing reads
  and writes, the network) is the record \<open>CliEnv\<close>. Parsing of flags is left to the library; a missing
  flag has the default value that the command declares. \<^verbatim>\<open>startnode\<close> is in the
  theory \<open>Node\<close>.
\<close>

section \<open>World and outcome\<close>

record 'b World =
  NODE_ID :: string
  dbs :: "string \<rightharpoonup> 'b buckets"
  wallet_files :: files
  wire :: "(string \<times> bytes \<times> bool) list"

record 'b CliEnv =
  backend :: "'b bbolt"
  node_env :: "'b buckets Env"
  wprims :: WPrims
  serial_order :: "(string \<times> SerializableWallet) list \<Rightarrow> (string \<times> SerializableWallet) list"
  wallet_order :: "(string \<times> Wallet) list \<Rightarrow> (string \<times> Wallet) list"
  spend_order :: "spendable \<Rightarrow> spendable"
  read_error :: "goerr option"
  write_error :: "(goerr \<times> files) option"
  sign_rand :: "nat \<Rightarrow> nat"
  fresh_key :: "PrivateKey result"
  random_data :: "string result"
  cli_now :: int64
  cli_ctx :: ctx

abbreviation cliP :: "'b CliEnv \<Rightarrow> Prims" where "cliP C \<equiv> prims (node_env C)"
abbreviation cliS :: "'b CliEnv \<Rightarrow> 'b buckets Storage" where "cliS C \<equiv> bolt_storage (backend C)"

text \<open>A command prints its help, or lines of text.\<close>

datatype cli_out = Help | Printed "string list"

definition dbFile :: "string \<Rightarrow> string" where
  "dbFile nodeID = ''blockchain_'' @ nodeID @ ''.db''"

text \<open>
  \<^verbatim>\<open>bolt.Open\<close> on the database file of the node, which it creates when it is missing, then the rest
  of the command. What the rest leaves in the database stays in the file.
\<close>

definition with_db ::
    "'b CliEnv \<Rightarrow> 'b World \<Rightarrow> ('b buckets \<Rightarrow> cli_out result \<times> 'b buckets \<times> (string \<times> bytes \<times> bool) list) \<Rightarrow> cli_out result \<times> 'b World" where
  "with_db C w f =
     (let path = dbFile (NODE_ID w) in
      case Open (backend C) (case dbs w path of Some d \<Rightarrow> d | None \<Rightarrow> Map.empty) of
        (Ok _, d) \<Rightarrow> (case f d of (r, d, sent) \<Rightarrow> (r, w\<lparr>dbs := (dbs w)(path \<mapsto> d), wire := wire w @ sent\<rparr>))
      | (r, d) \<Rightarrow> (wrap_err ''failed to open storage'' (as_failure r), w\<lparr>dbs := (dbs w)(path \<mapsto> d)\<rparr>))"

definition with_chain ::
    "'b CliEnv \<Rightarrow> 'b World \<Rightarrow> ('b buckets Blockchain \<Rightarrow> cli_out result \<times> 'b buckets \<times> (string \<times> bytes \<times> bool) list) \<Rightarrow> cli_out result \<times> 'b World" where
  "with_chain C w f =
     with_db C w (\<lambda>d.
       case NewBlockchain (cliS C) d of
         Ok bc \<Rightarrow> f bc
       | r \<Rightarrow> (wrap_err ''failed to open blockchain'' (as_failure r), d, []))"

section \<open>Commands\<close>

definition createblockchain :: "'b CliEnv \<Rightarrow> string \<Rightarrow> 'b World \<Rightarrow> cli_out result \<times> 'b World" where
  "createblockchain C address w =
     (if address = [] then (Ok Help, w)
      else if dbs w (dbFile (NODE_ID w)) \<noteq> None then (Error (ErrMsg ''blockchain already exists''), w)
      else
        with_db C w (\<lambda>d.
          case CreateBlockchain (cliP C) (cliS C) (cli_now C) address d of
            (Ok bc, d) \<Rightarrow>
              (case Reindex (cliP C) (cliS C) (utxo_order (node_env C)) bc of
                 (Ok _, bc) \<Rightarrow> (Ok (Printed [''Done!'']), db bc, [])
               | (r, bc) \<Rightarrow> (wrap_err ''failed to reindex utxo set'' (as_failure r), db bc, []))
          | (r, d) \<Rightarrow> (wrap_err ''failed to create blockchain'' (as_failure r), d, [])))"

definition createwallet :: "'b CliEnv \<Rightarrow> 'b World \<Rightarrow> cli_out result \<times> 'b World" where
  "createwallet C w =
     (case NewWallets (wprims C) (serial_order C) (read_error C) (wallet_files w) (NODE_ID w) of
        Ok wallets \<Rightarrow>
          (case CreateWallet (cliP C) (fresh_key C) wallets of
             (Ok address, wallets) \<Rightarrow>
               (case SaveToFile (wprims C) (wallet_order C) (write_error C) wallets (NODE_ID w) (wallet_files w) of
                  (Ok _, fs) \<Rightarrow> (Ok (Printed [''Your new address: '' @ address]), w\<lparr>wallet_files := fs\<rparr>)
                | (r, fs) \<Rightarrow> (wrap_err ''failed to save wallets'' (as_failure r), w\<lparr>wallet_files := fs\<rparr>))
           | (r, wallets) \<Rightarrow> (wrap_err ''failed to create wallet'' (as_failure r), w))
      | r \<Rightarrow> (wrap_err ''failed to load wallets'' (as_failure r), w))"

definition getbalance :: "'b CliEnv \<Rightarrow> string \<Rightarrow> 'b World \<Rightarrow> cli_out result \<times> 'b World" where
  "getbalance C address w =
     (if address = [] then (Ok Help, w)
      else if \<not> ValidateAddress (cliP C) address then (Error (ErrMsg ''ERROR: Address is not valid''), w)
      else
        with_chain C w (\<lambda>bc.
          let pubKeyHash = Base58Decode (string_bytes address);
              pubKeyHash = slice 1 (length pubKeyHash - 4) pubKeyHash in
          case UTXOSet_FindUTXO (cliP C) (cliS C) bc pubKeyHash of
            Ok UTXOs \<Rightarrow>
              (let balance = fold (\<lambda>out balance. balance + Value out) UTXOs 0 in
               (Ok (Printed [''Balance of '' @ [CHR 0x27] @ address @ [CHR 0x27] @ '': '' @ fmt_d (sint balance)]), db bc, []))
          | r \<Rightarrow> (wrap_err ''failed to find utxos'' (as_failure r), db bc, [])))"

definition listaddresses :: "'b CliEnv \<Rightarrow> 'b World \<Rightarrow> cli_out result \<times> 'b World" where
  "listaddresses C w =
     (case NewWallets (wprims C) (serial_order C) (read_error C) (wallet_files w) (NODE_ID w) of
        Ok wallets \<Rightarrow> (Ok (Printed (GetAddresses (wallet_order C) wallets)), w)
      | r \<Rightarrow> (wrap_err ''failed to load wallets'' (as_failure r), w))"

text \<open>The text printed for one block; validating it may panic, and what was printed until then is not recorded.\<close>

definition block_lines :: "Prims \<Rightarrow> Block \<Rightarrow> string list result" where
  "block_lines P block =
     bind_result (NewProofOfWork block) (\<lambda>pow.
     bind_result (Validate P pow) (\<lambda>valid.
       Ok [''============ Block '' @ hex_encode (Hash block) @ '' ============'',
           ''Height: '' @ fmt_d (sint (Height block)),
           ''Prev. block: '' @ hex_encode (PrevBlockHash block),
           ''PoW: '' @ (if valid then ''true'' else ''false''), []]))"

definition printchain :: "'b CliEnv \<Rightarrow> 'b World \<Rightarrow> cli_out result \<times> 'b World" where
  "printchain C w =
     with_chain C w (\<lambda>bc.
       (bind_result (Blocks (cliP C) (cliS C) bc (\<lambda>block printed.
            case bind_result printed (\<lambda>ls. bind_result (block_lines (cliP C) block) (\<lambda>new. Ok (ls @ new))) of
              Ok ls \<Rightarrow> (Ok ls, True)
            | r \<Rightarrow> (r, False)) (Ok []))
          (\<lambda>printed. bind_result printed (\<lambda>ls. Ok (Printed ls))), db bc, []))"

definition reindexutxo :: "'b CliEnv \<Rightarrow> 'b World \<Rightarrow> cli_out result \<times> 'b World" where
  "reindexutxo C w =
     with_chain C w (\<lambda>bc.
       case Reindex (cliP C) (cliS C) (utxo_order (node_env C)) bc of
         (Ok _, bc) \<Rightarrow>
           (bind_result (wrap_err ''failed to count transactions'' (CountTransactions (cliS C) bc)) (\<lambda>count.
              Ok (Printed [''Done! There are '' @ fmt_d (sint count) @ '' transactions in the UTXO set.''])), db bc, [])
       | (r, bc) \<Rightarrow> (wrap_err ''failed to reindex utxo set'' (as_failure r), db bc, []))"

text \<open>The two ends of \<^verbatim>\<open>send\<close>: mine the payment into a block, or hand it to the network.\<close>

definition send_mine :: "'b CliEnv \<Rightarrow> string \<Rightarrow> Transaction \<Rightarrow> 'b buckets Blockchain \<Rightarrow> cli_out result \<times> 'b buckets \<times> (string \<times> bytes \<times> bool) list" where
  "send_mine C from tx bc =
     (case wrap_err ''failed to create coinbase tx'' (NewCoinbaseTX (cliP C) (random_data C) from []) of
        Ok cbTx \<Rightarrow>
          (case MineBlock (cliP C) (cliS C) (cli_ctx C) (cli_now C) [cbTx, tx] bc of
             (Ok newBlock, bc) \<Rightarrow>
               (case Update (cliP C) (cliS C) newBlock bc of
                  (Ok _, bc) \<Rightarrow> (Ok (Printed [''Success!'']), db bc, [])
                | (r, bc) \<Rightarrow> (wrap_err ''failed to update utxo set'' (as_failure r), db bc, []))
           | (r, bc) \<Rightarrow> (wrap_err ''failed to mine block'' (as_failure r), db bc, []))
      | r \<Rightarrow> (as_failure r, db bc, []))"

definition send_network :: "'b CliEnv \<Rightarrow> string \<Rightarrow> Transaction \<Rightarrow> 'b buckets Blockchain \<Rightarrow> cli_out result \<times> 'b buckets \<times> (string \<times> bytes \<times> bool) list" where
  "send_network C nodeID tx bc =
     (case SendTxToKnownNodes (node_env C) tx (NewServer nodeID [] bc) of
        (Ok _, server) \<Rightarrow> (Ok (Printed [''Success!'']), db (srv_bc server), net server)
      | (r, server) \<Rightarrow> (as_failure r, db (srv_bc server), net server))"

definition cli_send :: "'b CliEnv \<Rightarrow> string \<Rightarrow> string \<Rightarrow> int64 \<Rightarrow> bool \<Rightarrow> 'b World \<Rightarrow> cli_out result \<times> 'b World" where
  "cli_send C from to amount mineNow w =
     (if from = [] \<or> to = [] \<or> sint amount \<le> 0 then (Ok Help, w)
      else if \<not> ValidateAddress (cliP C) from then (Error (ErrMsg ''ERROR: Sender address is not valid''), w)
      else if \<not> ValidateAddress (cliP C) to then (Error (ErrMsg ''ERROR: Recipient address is not valid''), w)
      else
        with_chain C w (\<lambda>bc.
          case bind_result (wrap_err ''failed to load wallets''
                 (NewWallets (wprims C) (serial_order C) (read_error C) (wallet_files w) (NODE_ID w))) (\<lambda>wallets.
               bind_result (wrap_err ''failed to get wallet'' (GetWallet wallets from)) (\<lambda>wallet.
               wrap_err ''failed to create tx''
                 (NewUTXOTransaction (cliP C) (cliS C) (spend_order C) (sign_rand C) wallet to amount bc))) of
            Ok tx \<Rightarrow> if mineNow then send_mine C from tx bc else send_network C (NODE_ID w) tx bc
          | r \<Rightarrow> (as_failure r, db bc, [])))"

datatype command =
    CreateBlockchainCmd string
  | CreateWalletCmd
  | GetBalanceCmd string
  | ListAddressesCmd
  | PrintChainCmd
  | ReindexUTXOCmd
  | SendCmd string string int64 bool

fun run_command :: "'b CliEnv \<Rightarrow> command \<Rightarrow> 'b World \<Rightarrow> cli_out result \<times> 'b World" where
  "run_command C (CreateBlockchainCmd address) w = createblockchain C address w"
| "run_command C CreateWalletCmd w = createwallet C w"
| "run_command C (GetBalanceCmd address) w = getbalance C address w"
| "run_command C ListAddressesCmd w = listaddresses C w"
| "run_command C PrintChainCmd w = printchain C w"
| "run_command C ReindexUTXOCmd w = reindexutxo C w"
| "run_command C (SendCmd from to amount mineNow) w = cli_send C from to amount mineNow w"

text \<open>Every command first asks for the identifier of the node.\<close>

definition Execute :: "'b CliEnv \<Rightarrow> command \<Rightarrow> 'b World \<Rightarrow> cli_out result \<times> 'b World" where
  "Execute C cmd w =
     (if NODE_ID w = [] then (Error (ErrMsg ''NODE_ID env. var is not set''), w) else run_command C cmd w)"

section \<open>Lemmas\<close>

text \<open>Opening an initialised database file does not change it.\<close>

lemma with_db_open:
  assumes "dbs w (dbFile (NODE_ID w)) = Some d" and "bolt_inv (backend C) d" and "with_db C w f = (Ok x, w')"
  obtains d' sent where "f d = (Ok x, d', sent)" and "w' = w\<lparr>dbs := (dbs w)(dbFile (NODE_ID w) \<mapsto> d'), wire := wire w @ sent\<rparr>"
proof -
  obtain r d1 where o: "Open (backend C) d = (r, d1)" by fastforce
  with assms(1,3) have r: "r = Ok ()" by (cases r) (auto simp: with_db_def Let_def wrap_err_eq_Ok)
  have "d1 = d" using Open_ok [of "backend C" d d1] o r assms(2) by (auto simp: bolt_inv_def)
  then show ?thesis using assms(1,3) o r that by (auto simp: with_db_def Let_def split: prod.splits)
qed

lemma with_chain_open:
  assumes "dbs w (dbFile (NODE_ID w)) = Some d" and "bolt_inv (backend C) d" and "bolt_tip (backend C) d = Some t"
    and "with_chain C w f = (Ok x, w')"
  obtains d' sent where "f \<lparr>tip = t, db = d\<rparr> = (Ok x, d', sent)" and "w' = w\<lparr>dbs := (dbs w)(dbFile (NODE_ID w) \<mapsto> d'), wire := wire w @ sent\<rparr>"
proof -
  have n: "NewBlockchain (cliS C) d = Ok \<lparr>tip = t, db = d\<rparr>"
    using bolt.get_tip [OF assms(2)] assms(3) by (simp add: NewBlockchain_def)
  obtain d' sent where "(case NewBlockchain (cliS C) d of Ok bc \<Rightarrow> f bc
       | r \<Rightarrow> (wrap_err ''failed to open blockchain'' (as_failure r), d, [])) = (Ok x, d', sent)"
    and "w' = w\<lparr>dbs := (dbs w)(dbFile (NODE_ID w) \<mapsto> d'), wire := wire w @ sent\<rparr>"
    by (rule with_db_open [OF assms(1,2) assms(4) [unfolded with_chain_def]])
  then show ?thesis using that unfolding n by simp
qed

text \<open>A payment that \<^verbatim>\<open>send\<close> builds.\<close>

lemma cli_send_OkD:
  assumes "dbs w (dbFile (NODE_ID w)) = Some d" and "bolt_inv (backend C) d" and "bolt_tip (backend C) d = Some t"
    and "cli_send C from to amount mineNow w = (Ok (Printed ls), w')"
  obtains tx wallet d' sent where
    "NewUTXOTransaction (cliP C) (cliS C) (spend_order C) (sign_rand C) wallet to amount \<lparr>tip = t, db = d\<rparr> = Ok tx"
    and "(if mineNow then send_mine C from tx \<lparr>tip = t, db = d\<rparr> else send_network C (NODE_ID w) tx \<lparr>tip = t, db = d\<rparr>) = (Ok (Printed ls), d', sent)"
    and "w' = w\<lparr>dbs := (dbs w)(dbFile (NODE_ID w) \<mapsto> d'), wire := wire w @ sent\<rparr>"
proof -
  let ?f = "\<lambda>bc. case bind_result (wrap_err ''failed to load wallets''
                 (NewWallets (wprims C) (serial_order C) (read_error C) (wallet_files w) (NODE_ID w))) (\<lambda>wallets.
               bind_result (wrap_err ''failed to get wallet'' (GetWallet wallets from)) (\<lambda>wallet.
               wrap_err ''failed to create tx''
                 (NewUTXOTransaction (cliP C) (cliS C) (spend_order C) (sign_rand C) wallet to amount bc))) of
            Ok tx \<Rightarrow> if mineNow then send_mine C from tx bc else send_network C (NODE_ID w) tx bc
          | r \<Rightarrow> (as_failure r, db bc, [])"
  have "with_chain C w ?f = (Ok (Printed ls), w')"
    using assms(4) by (auto simp: cli_send_def split: if_splits)
  then obtain d' sent where f: "?f \<lparr>tip = t, db = d\<rparr> = (Ok (Printed ls), d', sent)"
    and w': "w' = w\<lparr>dbs := (dbs w)(dbFile (NODE_ID w) \<mapsto> d'), wire := wire w @ sent\<rparr>"
    using with_chain_open [OF assms(1-3)] by blast
  then obtain tx where b: "bind_result (wrap_err ''failed to load wallets''
                 (NewWallets (wprims C) (serial_order C) (read_error C) (wallet_files w) (NODE_ID w))) (\<lambda>wallets.
               bind_result (wrap_err ''failed to get wallet'' (GetWallet wallets from)) (\<lambda>wallet.
               wrap_err ''failed to create tx''
                 (NewUTXOTransaction (cliP C) (cliS C) (spend_order C) (sign_rand C) wallet to amount \<lparr>tip = t, db = d\<rparr>))) = Ok tx"
    and s: "(if mineNow then send_mine C from tx \<lparr>tip = t, db = d\<rparr> else send_network C (NODE_ID w) tx \<lparr>tip = t, db = d\<rparr>) = (Ok (Printed ls), d', sent)"
    by (auto split: result.splits)
  from b obtain wallet where "NewUTXOTransaction (cliP C) (cliS C) (spend_order C) (sign_rand C) wallet to amount \<lparr>tip = t, db = d\<rparr> = Ok tx"
    by (auto simp: bind_result_eq_Ok wrap_err_eq_Ok)
  then show ?thesis using s w' that by blast
qed

lemma send_mine_OkD:
  assumes "send_mine C from tx bc = (Ok x, d', sent)"
  obtains cb nb bc1 bc2 where "NewCoinbaseTX (cliP C) (random_data C) from [] = Ok cb"
    and "MineBlock (cliP C) (cliS C) (cli_ctx C) (cli_now C) [cb, tx] bc = (Ok nb, bc1)"
    and "Update (cliP C) (cliS C) nb bc1 = (Ok (), bc2)" and "d' = db bc2" and "sent = []"
  using assms by (auto simp: send_mine_def wrap_err_eq_Ok split: result.splits prod.splits)

lemma load_entries_distinct: "distinct (map fst ws) \<Longrightarrow> distinct (map fst (snd (load_entries W kvs ws)))"
  by (induction W kvs ws rule: load_entries.induct) (auto simp: distinct_update split: result.split)

lemma NewWallets_distinct:
  assumes "NewWallets W ord e fs nodeID = Ok ws"
  shows "distinct (map fst ws)"
proof -
  have "ws = snd (LoadFromFile W ord e fs nodeID [])"
    using assms by (auto simp: NewWallets_def split: prod.splits result.splits if_splits)
  then show ?thesis
    using load_entries_distinct [of "[]" W] by (auto simp: LoadFromFile_def split: option.splits result.splits)
qed

section \<open>A concrete world\<close>

definition sample_cli :: "(bytes \<times> bytes) list CliEnv" where
  "sample_cli =
     \<lparr>backend = list_bbolt, node_env = sample_env, wprims = sample_wprims, serial_order = (\<lambda>x. x), wallet_order = (\<lambda>x. x),
      spend_order = (\<lambda>x. x), read_error = None, write_error = None, sign_rand = (\<lambda>_. 0), fresh_key = Ok (sample_key 5),
      random_data = Ok ''00'', cli_now = 5, cli_ctx = Background\<rparr>"

lemma sample_cli_sel [simp]:
  "backend sample_cli = list_bbolt" "node_env sample_cli = sample_env" "wprims sample_cli = sample_wprims"
  "serial_order sample_cli = (\<lambda>x. x)" "wallet_order sample_cli = (\<lambda>x. x)" "spend_order sample_cli = (\<lambda>x. x)"
  "read_error sample_cli = None" "write_error sample_cli = None" "sign_rand sample_cli = (\<lambda>_. 0)"
  "fresh_key sample_cli = Ok (sample_key 5)" "random_data sample_cli = Ok ''00''" "cli_now sample_cli = 5"
  "cli_ctx sample_cli = Background"
  by (simp_all add: sample_cli_def)

definition sample_world :: "files \<Rightarrow> ((bytes \<times> bytes) list buckets) option \<Rightarrow> (bytes \<times> bytes) list World" where
  "sample_world fs d = \<lparr>NODE_ID = ''3000'', dbs = (\<lambda>f. if f = dbFile ''3000'' then d else None), wallet_files = fs, wire = []\<rparr>"

lemma sample_world_sel [simp]:
  "NODE_ID (sample_world fs d) = ''3000''" "dbs (sample_world fs d) (dbFile ''3000'') = d" "wallet_files (sample_world fs d) = fs"
  "wire (sample_world fs d) = []"
  by (simp_all add: sample_world_def)

lemma list_Open: "bolt_inv list_bbolt d \<Longrightarrow> Open list_bbolt d = (Ok (), d)"
  by (auto simp: Open_def bolt_inv_def) (simp add: list_bbolt_def)

lemma list_Open_empty: "Open list_bbolt Map.empty = (Ok (), empty_db)" "bolt_tip list_bbolt empty_db = None"
  by (simp_all add: Open_def bolt_tip_def empty_db_def) (simp_all add: list_bbolt_def blocksBucket_def utxoBucket_def)

text \<open>A wallet file that holds the sample wallet under its address.\<close>

abbreviation own_address :: string where "own_address \<equiv> address_of sample_prims sample_wallet"

lemma sample_wallet_file:
  "\<exists>fs ws. NewWallets sample_wprims (\<lambda>x. x) None fs ''3000'' = Ok ws \<and> GetWallet ws own_address = Ok sample_wallet"
proof -
  obtain fs ws where "NewWallets sample_wprims (\<lambda>x. x) None fs ''3000'' = Ok ws" "map_of ws = map_of [(own_address, sample_wallet)]"
    using SaveToFile_NewWallets [OF sample_wprims_ok is_order_id is_order_id, of "[(own_address, sample_wallet)]" "''3000''" Map.empty]
    by auto
  then show ?thesis by (intro exI [of _ fs] exI [of _ ws]) (simp add: GetWallet_def)
qed

lemma own_address_facts: "own_address \<noteq> []" "ValidateAddress sample_prims own_address"
proof -
  have "address_hash [] = None" by code_simp
  then show "own_address \<noteq> []" using address_hash_of_wallet [OF sample_sha256_ok, of sample_wallet] by auto
  show "ValidateAddress sample_prims own_address" by (rule ValidateAddress_of_wallet [OF sample_sha256_ok])
qed

text \<open>Mining the sample payment on the funded chain.\<close>

lemma sample_send_mine:
  assumes "VerifyTransaction sample_prims list_storage (funded_bc (sample_out 10 0)) tx = Ok True"
    and "refs_of (Vin tx) = [([1], 0)]" and "length (ID tx) = 32"
  shows "\<exists>d'. send_mine sample_cli own_address tx (funded_bc (sample_out 10 0)) = (Ok (Printed [''Success!'']), d', [])"
proof -
  let ?bc = "funded_bc (sample_out 10 0)"
  obtain cb where cb: "NewCoinbaseTX sample_prims (Ok ''00'') own_address [] = Ok cb" "IsCoinbase cb" "length (ID cb) = 32"
    using address_hash_of_wallet [OF sample_sha256_ok, of sample_wallet] sample_sha256_ok [unfolded sha256_ok_def]
    by (auto simp: NewCoinbaseTX_def NewTXOutput_eq subsidy_def Let_def IsCoinbase_def Hash_tx_def)
  have v: "verify_all sample_prims list_storage ?bc [cb, tx] = Ok ()"
    using assms(1) cb(2) by (simp add: VerifyTransaction_def)
  obtain nb bc1 where m: "MineBlock sample_prims list_storage Background 5 [cb, tx] ?bc = (Ok nb, bc1)"
    using list_mine [OF funded_bc_ok(2) _ v, of "[paid_tx (sample_out 10 0)]" 5] good_chain_hd [OF funded_bc_ok(3) [of "sample_out 10 0"]]
    by auto
  have nb: "Transactions nb = [cb, tx]" "list_ok bc1"
    using bolt.MineBlock_cases [OF funded_bc_ok(2) sample_sha256_ok length_32_block_key funded_bc_ok(3) _ m]
      funded_bc_ok(1) [of "sample_out 10 0"] NewBlock_OkD by (auto simp: bc_synced_def)
  have "\<forall>vin \<in> set (Vin tx). Txid vin \<noteq> []" using assms(2) by (cases "Vin tx") (auto simp: refs_of_def)
  then obtain bc2 where "Update sample_prims list_storage nb bc1 = (Ok (), bc2)"
    using list_Update_total [OF nb(2), of nb] nb(1) cb(2,3) assms(3) by force
  then show ?thesis using cb(1) m by (simp add: send_mine_def)
qed

section \<open>Properties\<close>



text \<open>
  A new wallet is not lost, and no old one is: after \<^verbatim>\<open>createwallet\<close> succeeds, \<^verbatim>\<open>listaddresses\<close> lists
  the new address together with exactly those it listed before, provided that the codecs of
  keys and wallet files work.
\<close>

theorem cli_wallets_kept:
  assumes W: "wprims_ok (wprims C) UNIV" and ord: "is_order (serial_order C)" "is_order (wallet_order C)"
    and err: "read_error C = None" "write_error C = None" and w: "NODE_ID w \<noteq> []"
    and old: "Execute C ListAddressesCmd w = (Ok (Printed old), w)"
    and run: "Execute C CreateWalletCmd w = (Ok (Printed ls), w')"
  shows "\<exists>a new. ls = [''Your new address: '' @ a] \<and>
    Execute C ListAddressesCmd w' = (Ok (Printed new), w') \<and> set new = insert a (set old)"
proof -
  have o: "listaddresses C w = (Ok (Printed old), w)" and r: "createwallet C w = (Ok (Printed ls), w')"
    using old run w by (simp_all add: Execute_def)
  obtain ws where ws: "NewWallets (wprims C) (serial_order C) None (wallet_files w) (NODE_ID w) = Ok ws"
    using o err by (auto simp: listaddresses_def split: result.splits)
  then have "old = map fst (wallet_order C ws)"
    using o err by (simp add: listaddresses_def GetAddresses_def)
  then have old: "set old = fst ` set ws" by (simp add: is_order_set [OF ord(2)])
  obtain a wallet fs where a: "ls = [''Your new address: '' @ a]" "w' = w\<lparr>wallet_files := fs\<rparr>"
    "SaveToFile (wprims C) (wallet_order C) None (AList.update a wallet ws) (NODE_ID w) (wallet_files w) = (Ok (), fs)"
    using r ws err by (auto simp: createwallet_def CreateWallet_def wrap_err_eq_Ok Let_def split: result.splits prod.splits)
  have "wprims_ok (wprims C) (PrivKey ` snd ` set (AList.update a wallet ws))" using W by (simp add: wprims_ok_def)
  moreover have "distinct (map fst (AList.update a wallet ws))"
    using NewWallets_distinct [OF ws] by (simp add: distinct_update)
  ultimately obtain ws' where ws': "NewWallets (wprims C) (serial_order C) None fs (NODE_ID w) = Ok ws'"
    "map_of ws' = map_of (AList.update a wallet ws)"
    using SaveToFile_NewWallets [OF _ ord(2,1), of "wprims C" "AList.update a wallet ws" "NODE_ID w" "wallet_files w"] a(3) by auto
  then have "fst ` set ws' = fst ` set (AList.update a wallet ws)" by (metis dom_map_of_conv_image_fst)
  then have "set (GetAddresses (wallet_order C) ws') = insert a (set old)"
    by (simp add: GetAddresses_def is_order_set [OF ord(2)] old dom_update)
  then show ?thesis using a(1,2) ws'(1) w err by (simp add: Execute_def listaddresses_def)
qed

theorem cli_wallets_kept_witness:
  "\<exists>a w' new. Execute sample_cli CreateWalletCmd (sample_world Map.empty None) = (Ok (Printed [''Your new address: '' @ a]), w') \<and>
     Execute sample_cli ListAddressesCmd w' = (Ok (Printed new), w') \<and> set new = {a}"
proof -
  let ?w = "sample_world Map.empty None"
  have n: "NewWallets sample_wprims (\<lambda>x. x) None Map.empty ''3000'' = Ok []" by (simp add: NewWallets_def LoadFromFile_def)
  obtain wallet where wl: "NewWallet (Ok (sample_key 5)) = Ok wallet"
    using NewWallet_Ok [of "sample_key 5"] by (auto simp: sample_key_def)
  let ?a = "address_of sample_prims wallet"
  obtain fs where "SaveToFile sample_wprims (\<lambda>x. x) None [(?a, wallet)] ''3000'' Map.empty = (Ok (), fs)"
    using SaveToFile_NewWallets [OF sample_wprims_ok is_order_id is_order_id, of "[(?a, wallet)]" "''3000''" Map.empty] by auto
  then obtain w' where run: "Execute sample_cli CreateWalletCmd ?w = (Ok (Printed [''Your new address: '' @ ?a]), w')"
    using n wl by (simp add: Execute_def createwallet_def CreateWallet_def Let_def)
  have "Execute sample_cli ListAddressesCmd ?w = (Ok (Printed []), ?w)"
    using n by (simp add: Execute_def listaddresses_def GetAddresses_def)
  then show ?thesis
    using cli_wallets_kept [where C = sample_cli and w = ?w and old = "[]" and ls = "[''Your new address: '' @ ?a]" and w' = w'] run
    by (auto simp: sample_wprims_ok)
qed

text \<open>
  A failed \<^verbatim>\<open>createblockchain\<close> cannot be repeated. The command does not check the address before it
  creates the database file: with an address that does not decode it panics and leaves an empty
  database behind. From then on every \<^verbatim>\<open>createblockchain\<close> reports that the blockchain exists already,
  while the commands that need a blockchain report that there is none.
\<close>

theorem cli_create_sticks:
  assumes B: "bbolt_ok (backend C)" "b_View (backend C) Map.empty = None" "Open (backend C) Map.empty = (Ok (), fresh_db)"
      "bolt_tip (backend C) fresh_db = None"
    and w: "NODE_ID w \<noteq> []" "dbs w (dbFile (NODE_ID w)) = None" and a: "a \<noteq> []" "address_hash a = None"
  shows "\<exists>m w'. Execute C (CreateBlockchainCmd a) w = (Panic m, w') \<and>
    (a' \<noteq> [] \<longrightarrow> Execute C (CreateBlockchainCmd a') w' = (Error (ErrMsg ''blockchain already exists''), w')) \<and>
    (Open (backend C) fresh_db = (Ok (), fresh_db) \<longrightarrow> fst (Execute C PrintChainCmd w') =
       Error (Wrap ''failed to open blockchain'' (ErrMsg ''no existing blockchain found, create one first'')))"
proof -
  have i: "bolt_inv (backend C) fresh_db" by (rule Open_bolt_inv [OF B(1-3)])
  have t: "GetTip (cliS C) fresh_db = Error ErrNotFound" using bolt.get_tip [OF i] B(4) by simp
  have "NewCoinbaseTX (cliP C) (Ok []) a genesisCoinbaseData = Panic ''NewTXOutput: invalid address''"
    using a(2) by (simp add: NewCoinbaseTX_def NewTXOutput_eq genesisCoinbaseData_def subsidy_def)
  then have "CreateBlockchain (cliP C) (cliS C) (cli_now C) a fresh_db = (Panic ''NewTXOutput: invalid address'', fresh_db)"
    by (simp add: CreateBlockchain_def t Let_def)
  then have c: "createblockchain C a w = (Panic ''NewTXOutput: invalid address'', w\<lparr>dbs := (dbs w)(dbFile (NODE_ID w) \<mapsto> fresh_db), wire := wire w @ []\<rparr>)"
    using w a(1) B(3) by (simp add: createblockchain_def with_db_def Let_def)
  then show ?thesis using w(1) t
    by (auto simp: Execute_def createblockchain_def printchain_def with_chain_def with_db_def NewBlockchain_def Let_def)
qed

theorem cli_create_sticks_witness:
  "\<exists>m w'. Execute sample_cli (CreateBlockchainCmd ''0'') (sample_world Map.empty None) = (Panic m, w') \<and>
     Execute sample_cli (CreateBlockchainCmd own_address) w' = (Error (ErrMsg ''blockchain already exists''), w')"
proof -
  have "address_hash ''0'' = None" by (simp add: address_hash_def) code_simp
  moreover have "b_View list_bbolt Map.empty = None" by (simp add: list_bbolt_def)
  ultimately show ?thesis
    using cli_create_sticks [where C = sample_cli and fresh_db = empty_db and w = "sample_world Map.empty None" and a = "''0''" and a' = own_address]
      list_Open_empty own_address_facts(1) by auto
qed

text \<open>
  A payment sent without mining from the node at port 3000 goes nowhere: the command builds and signs
  it, prints that it succeeded, and neither dials a peer nor changes the database.
\<close>

theorem cli_send_lost:
  assumes "dbs w (dbFile (NODE_ID w)) = Some d" and "bolt_inv (backend C) d" and "bolt_tip (backend C) d = Some t"
    and "NODE_ID w = ''3000''" and "Execute C (SendCmd from to amount False) w = (Ok (Printed ls), w')"
  shows "w' = w"
proof -
  have "cli_send C from to amount False w = (Ok (Printed ls), w')" using assms(4,5) by (simp add: Execute_def)
  then obtain tx wallet d' sent where s: "send_network C ''3000'' tx \<lparr>tip = t, db = d\<rparr> = (Ok (Printed ls), d', sent)"
    and w': "w' = w\<lparr>dbs := (dbs w)(dbFile (NODE_ID w) \<mapsto> d'), wire := wire w @ sent\<rparr>"
    using assms(4) by (auto elim: cli_send_OkD [OF assms(1-3)])
  have "d' = d" "sent = []" using s by (simp_all add: send_network_def SendTxToKnownNodes_def NewServer_def announce_def)
  then show ?thesis using w' assms(1) by (simp add: fun_upd_idem)
qed

end
