(* ===== verification/Node.thy ===== *)
theory Node
  imports RestApi Cli Grpc
begin

text \<open>
  A running node: the command \<^verbatim>\<open>startnode\<close> of \<^verbatim>\<open>internal/cli/root.go\<close>, the routes of
  \<^verbatim>\<open>internal/api/server.go\<close>, and \<^verbatim>\<open>Start\<close> of \<^verbatim>\<open>internal/network/server.go\<close> with its accept loop. What
  happens to the node is a sequence of events; each is handled as one step, and the steps of
  handlers that release the lock take the work of other goroutines as an argument.
\<close>

section \<open>Routes\<close>

text \<open>
  The request multiplexer of \<^verbatim>\<open>net/http\<close>, for clean paths split at their slashes. A wildcard stands for
  one segment that is not empty; a pattern for \<^verbatim>\<open>GET\<close> also serves \<^verbatim>\<open>HEAD\<close>, whose response has no body. No two
  of the patterns below match the same path, so that the order of the list does not matter.
\<close>

datatype seg = Lit string | Wild string

fun match_path :: "seg list \<Rightarrow> string list \<Rightarrow> (string \<times> string) list option" where
  "match_path [] [] = Some []"
| "match_path (Lit l # ps) (x # xs) = (if x = l then match_path ps xs else None)"
| "match_path (Wild n # ps) (x # xs) = (if x = [] then None else map_option (Cons (n, x)) (match_path ps xs))"
| "match_path _ _ = None"

type_synonym handler = "http_request \<Rightarrow> http_response result"

datatype served = Served http_response | NotFound | NotAllowed "string list"

definition method_ok :: "string \<Rightarrow> string \<Rightarrow> bool" where
  "method_ok m m' \<longleftrightarrow> m' = m \<or> m = ''GET'' \<and> m' = ''HEAD''"

definition serve_mux :: "(string \<times> seg list \<times> handler) list \<Rightarrow> string list \<Rightarrow> http_request \<Rightarrow> served result" where
  "serve_mux routes path r =
     (let here = filter (\<lambda>(m, p, h). match_path p path \<noteq> None) routes in
      case filter (\<lambda>(m, p, h). method_ok m (Method r)) here of
        (m, p, h) # _ \<Rightarrow>
          (let vals = the (match_path p path) in
           bind_result (h (r\<lparr>PathValue := (\<lambda>n. case map_of vals n of Some v \<Rightarrow> v | None \<Rightarrow> [])\<rparr>))
             (\<lambda>w. Ok (Served (if Method r = ''HEAD'' then w\<lparr>body := NoBody\<rparr> else w))))
      | [] \<Rightarrow> Ok (if here = [] then NotFound
                 else NotAllowed (remdups (concat (map (\<lambda>(m, p, h). if m = ''GET'' then [m, ''HEAD''] else [m]) here)))))"

text \<open>\<open>expo\<close> is the handler of the metrics library, which renders the metrics of the process.\<close>

definition NewAPIServer :: "'s Env \<Rightarrow> (Prometheus \<Rightarrow> handler) \<Rightarrow> 's Server \<Rightarrow> (string \<times> seg list \<times> handler) list" where
  "NewAPIServer E expo s =
     (let api = (\<lambda>p. [Lit ''api'', Lit ''v1''] @ p) in
      [(''GET'', api [Lit ''blocks''], HandleBlocks E (srv_bc s)),
       (''GET'', api [Lit ''blocks'', Wild ''hash''], HandleBlockByHash E (srv_bc s)),
       (''GET'', api [Lit ''height''], HandleHeight E (srv_bc s)),
       (''GET'', api [Lit ''balance'', Wild ''address''], HandleBalance E (srv_bc s)),
       (''GET'', api [Lit ''mempool''], HandleMempool E s),
       (''GET'', [Lit ''metrics''], expo (prom s))])"

section \<open>Events\<close>

text \<open>
  A connection that is accepted, with what it carries; a failing accept; the interrupt; a REST
  request; and what the gRPC service does: the two procedures that change the node, and the channel
  operations of a stream.
\<close>

datatype 's node_event =
    Connection "'s Env" "bytes result"
  | AcceptError goerr
  | Interrupt
  | RestCall "'s Env" "Prometheus \<Rightarrow> handler" "string list" http_request
  | GrpcSubmit "'s Env" "'s Server \<Rightarrow> 's Server" "ProtoTransaction option"
  | GrpcMint "'s Env" int64 nat int64 string
  | StreamOpen
  | StreamTake nat
  | StreamClose nat

datatype reply_event = NoReply | RestReply "served result" | GrpcReply "api_response result"

text \<open>
  \<open>opened\<close> tells whether the node listens: the interrupt closes the listeners of the peers and of the
  REST server, but not that of the gRPC server. A panic of a handler ends the program, except
  in a REST handler, where the library recovers it; errors are logged, and a handler that hangs
  keeps only its own goroutine. The gRPC server is created without authority key.
\<close>

fun node_step :: "bool \<Rightarrow> 's node_event \<Rightarrow> bool \<times> 's Server \<Rightarrow> (string option \<times> reply_event) \<times> (bool \<times> 's Server)" where
  "node_step grpc (Connection E conn) (opened, s) =
     (if opened then case handleConnection E conn s of
          (Panic m, s) \<Rightarrow> ((Some m, NoReply), (opened, s))
        | (_, s) \<Rightarrow> ((None, NoReply), (opened, s))
      else ((None, NoReply), (opened, s)))"
| "node_step grpc (AcceptError e) (opened, s) = ((None, NoReply), (opened, s))"
| "node_step grpc Interrupt (opened, s) = ((None, NoReply), (False, s))"
| "node_step grpc (RestCall E expo path r) (opened, s) =
     ((None, if opened then RestReply (serve_mux (NewAPIServer E expo s) path r) else NoReply), (opened, s))"
| "node_step grpc (GrpcSubmit E others req) (opened, s) =
     (if grpc then case grpc_SubmitTransaction E others req s of
          (Panic m, s) \<Rightarrow> ((Some m, NoReply), (opened, s))
        | (r, s) \<Rightarrow> ((None, GrpcReply r), (opened, s))
      else ((None, NoReply), (opened, s)))"
| "node_step grpc (GrpcMint E now rnd amount address) (opened, s) =
     (if grpc then case MintStableBalance E None now rnd amount address s of
          (Panic m, s) \<Rightarrow> ((Some m, NoReply), (opened, s))
        | (r, s) \<Rightarrow> ((None, GrpcReply r), (opened, s))
      else ((None, NoReply), (opened, s)))"
| "node_step grpc StreamOpen (opened, s) = ((None, NoReply), (opened, if grpc then snd (SubscribeBlocks s) else s))"
| "node_step grpc (StreamTake ch) (opened, s) = ((None, NoReply), (opened, receive ch s))"
| "node_step grpc (StreamClose ch) (opened, s) = ((None, NoReply), (opened, UnsubscribeBlocks ch s))"

text \<open>
  The accept loop and the other servers: no event but a panic ends it, a failing accept included.
  The outcome \<open>None\<close> says that it is still running.
\<close>

fun serve :: "bool \<Rightarrow> 's node_event list \<Rightarrow> reply_event list \<Rightarrow> bool \<times> 's Server \<Rightarrow>
    unit result option \<times> reply_event list \<times> bool \<times> 's Server" where
  "serve grpc [] out st = (None, out, st)"
| "serve grpc (ev # evs) out st =
     (case node_step grpc ev st of
        ((Some m, rep), st) \<Rightarrow> (Some (Panic m), out, st)
      | ((None, rep), st) \<Rightarrow> serve grpc evs (out @ [rep]) st)"

text \<open>\<open>listen\<close> is the outcome of \<^verbatim>\<open>net.Listen\<close>, whose error is only logged.\<close>

definition Start :: "'s Env \<Rightarrow> unit result \<Rightarrow> bool \<Rightarrow> 's node_event list \<Rightarrow> reply_event list \<Rightarrow> 's Server \<Rightarrow>
    unit result option \<times> reply_event list \<times> bool \<times> 's Server" where
  "Start E listen grpc evs out s =
     (case listen of
        Ok _ \<Rightarrow>
          (case Start_hello E s of
             (Ok _, s) \<Rightarrow> serve grpc evs out (True, s)
           | (r, s) \<Rightarrow> (Some (as_failure r), out, True, s))
      | Error e \<Rightarrow> (Some (Ok ()), out, False, s)
      | r \<Rightarrow> (Some (as_failure r), out, False, s))"

section \<open>startnode\<close>

definition startnode :: "'b CliEnv \<Rightarrow> string \<Rightarrow> string \<Rightarrow> unit result \<Rightarrow> 'b buckets node_event list \<Rightarrow> 'b World \<Rightarrow>
    (unit result option \<times> reply_event list \<times> 'b buckets Server option) \<times> 'b World" where
  "startnode C miner grpcPort listen evs w =
     (if NODE_ID w = [] then ((Some (Error (ErrMsg ''NODE_ID env. var is not set'')), [], None), w)
      else if miner \<noteq> [] \<and> \<not> ValidateAddress (cliP C) miner
      then ((Some (Error (ErrMsg ''ERROR: Miner address is not valid'')), [], None), w)
      else
        let path = dbFile (NODE_ID w) in
        case Open (backend C) (case dbs w path of Some d \<Rightarrow> d | None \<Rightarrow> Map.empty) of
          (Ok _, d) \<Rightarrow>
            (case NewBlockchain (cliS C) d of
               Ok bc \<Rightarrow>
                 (case Start (node_env C) listen (grpcPort \<noteq> []) evs [] (NewServer (NODE_ID w) miner bc) of
                    (r, out, opened, s) \<Rightarrow>
                      ((r, out, Some s), w\<lparr>dbs := (dbs w)(path \<mapsto> db (srv_bc s)), wire := wire w @ net s\<rparr>))
             | r \<Rightarrow> ((Some (wrap_err ''failed to open blockchain'' (as_failure r)), [], None), w\<lparr>dbs := (dbs w)(path \<mapsto> d)\<rparr>))
        | (r, d) \<Rightarrow> ((Some (wrap_err ''failed to open storage'' (as_failure r)), [], None), w\<lparr>dbs := (dbs w)(path \<mapsto> d)\<rparr>))"

section \<open>Steps of a node\<close>

text \<open>The surroundings of an event are sound, and other goroutines only do what nodes do.\<close>

fun event_ok :: "'s Storage \<Rightarrow> 's node_event \<Rightarrow> bool" where
  "event_ok S (Connection E conn) \<longleftrightarrow> env_ok S E"
| "event_ok S (GrpcSubmit E others req) \<longleftrightarrow> env_ok S E \<and> (\<forall>s. node_run S s (others s))"
| "event_ok S _ \<longleftrightarrow> True"

lemma SubmitTransaction_others: "SubmitTransaction E others tx s = SubmitTransaction E (\<lambda>_. others s) tx s"
  by (simp add: SubmitTransaction_def)

lemma grpc_SubmitTransaction_run:
  assumes "node_run S s0 s" and "env_ok S E" and "\<And>s. node_run S s (others s)"
  shows "node_run S s0 (snd (grpc_SubmitTransaction E others req s))"
proof -
  have refuse: "node_run S s0 (snd (or_refuse r s' msg f))" if "node_run S s0 s'" "\<And>x. node_run S s0 (snd (f x))"
    for r :: "'b result" and s' msg f using that by (simp add: or_refuse_def split: result.split)
  have sub: "node_run S s0 (snd (SubmitTransaction E others tx s))" for tx
    unfolding SubmitTransaction_others [of E others] using assms by (intro run_submit)
  have "node_run S s0 (snd (case SubmitTransaction E others tx s of (r, s) \<Rightarrow> or_refuse r s msg (\<lambda>_. (Ok resp, s))))" for tx msg resp
    using sub [of tx] by (auto simp: or_refuse_def split: prod.split result.split)
  then show ?thesis using assms(1) unfolding grpc_SubmitTransaction_def Let_def
    by (auto intro!: refuse split: option.split)
qed

lemma node_step_run:
  assumes "node_run S s0 s" and "event_ok S ev"
  shows "node_run S s0 (snd (snd (node_step grpc ev (opened, s))))"
proof (cases ev)
  case (Connection E conn)
  then show ?thesis using run_connection [OF assms(1), of E conn] assms by (auto split: prod.split result.split)
next
  case (GrpcSubmit E others req)
  then show ?thesis using grpc_SubmitTransaction_run [OF assms(1), of E others req] assms by (auto split: prod.split result.split)
qed (use assms(1) in \<open>auto simp: MintStableBalance_def intro: run_subscribe run_receive run_unsubscribe\<close>)

lemma serve_run:
  assumes "node_run S s0 s" and "list_all (event_ok S) evs" and "serve grpc evs out (opened, s) = (r, out', opened', s')"
  shows "node_run S s0 s' \<and> (r = None \<or> (\<exists>m. r = Some (Panic m)))"
  using assms
proof (induction evs arbitrary: out opened s)
  case (Cons ev evs)
  obtain st rep opened1 s1 where st: "node_step grpc ev (opened, s) = ((st, rep), (opened1, s1))" by (metis surj_pair)
  have s1: "node_run S s0 s1" using node_step_run [OF Cons.prems(1), of ev grpc opened] Cons.prems(2) st by simp
  show ?case
  proof (cases st)
    case None
    then show ?thesis using Cons.IH [OF s1] Cons.prems(2,3) st by simp
  qed (use Cons.prems(3) st s1 in auto)
qed auto

lemma Start_run:
  assumes "env_ok S E" and "list_all (event_ok S) evs" and "Start E (Ok ()) grpc evs out s = (r, out', opened, s')"
  shows "node_run S s s' \<and> r \<noteq> Some (Ok ())"
proof -
  obtain h s1 where h: "Start_hello E s = (h, s1)" by fastforce
  then have s1: "node_run S s s1" using run_hello [OF run_init assms(1), of s] by simp
  show ?thesis
  proof (cases h)
    case (Ok u)
    then have "serve grpc evs out (True, s1) = (r, out', opened, s')" using assms(3) h by (simp add: Start_def)
    from serve_run [OF s1 assms(2) this] show ?thesis by auto
  qed (use assms(3) h s1 in \<open>auto simp: Start_def\<close>)
qed

section \<open>What holds of a running node\<close>


text \<open>
  The handlers answer the \<^verbatim>\<open>OPTIONS\<close> requests with which browsers ask for permission, but every route is
  registered for \<^verbatim>\<open>GET\<close>: such a request never reaches a handler.
\<close>

theorem options_never_served:
  assumes "Method r \<noteq> ''GET''" and "Method r \<noteq> ''HEAD''"
  shows "serve_mux (NewAPIServer E expo s) path r \<in> {Ok NotFound, Ok (NotAllowed [''GET'', ''HEAD''])}"
proof -
  let ?R = "NewAPIServer E expo s" and ?m = "\<lambda>(m, p, h). match_path p path \<noteq> None"
  have get: "m = ''GET''" if "(m, p, h) \<in> set ?R" for m p h using that by (auto simp: NewAPIServer_def Let_def)
  then have none: "filter (\<lambda>(m, p, h). method_ok m (Method r)) (filter ?m ?R) = []"
    using assms by (auto simp: filter_empty_conv method_ok_def)
  have eq: "map (\<lambda>(m, p, h). if m = ''GET'' then [m, ''HEAD''] else [m]) (filter ?m ?R) = map (\<lambda>_. [''GET'', ''HEAD'']) (filter ?m ?R)"
    using get by (intro map_cong) auto
  have rd: "remdups (concat (map (\<lambda>_. [''GET'', ''HEAD'']) xs)) = [''GET'', ''HEAD'']" if "xs \<noteq> []" for xs :: "(string \<times> seg list \<times> handler) list"
    using that by (induction xs rule: list_nonempty_induct) auto
  show ?thesis unfolding serve_mux_def Let_def none list.case eq using rd by (cases "filter ?m ?R = []") simp_all
qed

section \<open>A concrete run\<close>


end
