(* ===== verification/Tls.thy ===== *)
theory Tls
  imports Instances
begin

text \<open>
  The certificates and settings of \<^verbatim>\<open>internal/network/tls.go\<close>. The encoding of certificates is a
  parameter (\<open>XPrims\<close>); of the TLS library the model has what the settings decide: whether a peer that
  presents a certificate and proves that it has the key is accepted. Times are in seconds, the
  precision of a certificate.
\<close>

section \<open>Certificates\<close>

datatype key_usage = KeyUsageCertSign | KeyUsageCRLSign | KeyUsageDigitalSignature | KeyUsageKeyEncipherment
datatype ext_usage = ExtKeyUsageServerAuth | ExtKeyUsageClientAuth

record Certificate =
  SerialNumber :: "int option"
  Organization :: "string list"
  CommonName :: string
  NotBefore :: int
  NotAfter :: int
  IsCA :: bool
  KeyUsage :: "key_usage list"
  ExtKeyUsage :: "ext_usage list"
  BasicConstraintsValid :: bool
  IPAddresses :: "string list"
  DNSNames :: "string list"

text \<open>A signed certificate: its contents, the name of the issuer, the key it is for, the signature.\<close>

record X509Cert =
  content :: Certificate
  issuer :: "string list \<times> string"
  cert_key :: "nat \<times> nat"
  cert_sig :: "nat \<times> nat"

record XPrims =
  x_tbs :: "Certificate \<Rightarrow> string list \<times> string \<Rightarrow> nat \<times> nat \<Rightarrow> bytes"
  x_encode :: "X509Cert \<Rightarrow> bytes"
  x_parse :: "bytes \<Rightarrow> X509Cert result"

abbreviation public_key :: "PrivateKey \<Rightarrow> nat \<times> nat" where "public_key k \<equiv> (key_X k, key_Y k)"

definition subject :: "Certificate \<Rightarrow> string list \<times> string" where
  "subject c = (Organization c, CommonName c)"

text \<open>\<^verbatim>\<open>x509.CreateCertificate\<close>, for a key of P-256 and SHA-256.\<close>

definition CreateCertificate ::
    "Prims \<Rightarrow> XPrims \<Rightarrow> nat \<Rightarrow> Certificate \<Rightarrow> Certificate \<Rightarrow> nat \<times> nat \<Rightarrow> PrivateKey \<Rightarrow> bytes result" where
  "CreateCertificate P X rnd template parent pub priv =
     (case SerialNumber template of
        None \<Rightarrow> Error (ErrMsg ''x509: no SerialNumber given'')
      | Some n \<Rightarrow>
          if n < 0 then Error (ErrMsg ''x509: serial number must be positive'')
          else
            bind_result (ecdsa_sign P priv (sha256 P (x_tbs X template (subject parent) pub)) rnd) (\<lambda>sg.
              Ok (x_encode X \<lparr>content = template, issuer = subject parent, cert_key = pub, cert_sig = sg\<rparr>)))"

record TLSCertificate =
  Leaf :: X509Cert
  tls_key :: PrivateKey

text \<open>\<^verbatim>\<open>tls.X509KeyPair\<close> on the PEM texts of a certificate and of a key.\<close>

definition X509KeyPair :: "XPrims \<Rightarrow> bytes \<Rightarrow> PrivateKey \<Rightarrow> TLSCertificate result" where
  "X509KeyPair X der k =
     bind_result (x_parse X der) (\<lambda>c.
       if cert_key c = public_key k then Ok \<lparr>Leaf = c, tls_key = k\<rparr>
       else Error (ErrMsg ''tls: private key does not match public key''))"

section \<open>tls.go\<close>

record TLSConfigManager =
  caCert :: X509Cert
  caKey :: PrivateKey

text \<open>\<open>now1\<close> and \<open>now2\<close> are the two readings of the clock.\<close>

definition caTemplate :: "int \<Rightarrow> int \<Rightarrow> Certificate" where
  "caTemplate now1 now2 =
     \<lparr>SerialNumber = Some 1, Organization = [''AI Blockchain Mesh CA''], CommonName = ''P2P Root CA'',
      NotBefore = now1 - 3600, NotAfter = now2 + 365 * 24 * 3600, IsCA = True,
      KeyUsage = [KeyUsageCertSign, KeyUsageCRLSign], ExtKeyUsage = [], BasicConstraintsValid = True,
      IPAddresses = [], DNSNames = []\<rparr>"

definition NewTLSConfigManager :: "Prims \<Rightarrow> XPrims \<Rightarrow> PrivateKey result \<Rightarrow> nat \<Rightarrow> int \<Rightarrow> int \<Rightarrow> TLSConfigManager result" where
  "NewTLSConfigManager P X gen rnd now1 now2 =
     bind_result (wrap_err ''failed to generate CA key'' gen) (\<lambda>caKey.
       let t = caTemplate now1 now2 in
       bind_result (wrap_err ''failed to create CA cert'' (CreateCertificate P X rnd t t (public_key caKey) caKey)) (\<lambda>caDer.
       bind_result (wrap_err ''failed to parse CA cert'' (x_parse X caDer)) (\<lambda>caCert.
         Ok \<lparr>caCert = caCert, caKey = caKey\<rparr>)))"

definition nodeTemplate :: "int option \<Rightarrow> int \<Rightarrow> int \<Rightarrow> string \<Rightarrow> Certificate" where
  "nodeTemplate serialNumber now1 now2 nodeID =
     \<lparr>SerialNumber = serialNumber, Organization = [''AI Blockchain Node''], CommonName = ''node-'' @ nodeID,
      NotBefore = now1 - 3600, NotAfter = now2 + 30 * 24 * 3600, IsCA = False,
      KeyUsage = [KeyUsageDigitalSignature, KeyUsageKeyEncipherment],
      ExtKeyUsage = [ExtKeyUsageServerAuth, ExtKeyUsageClientAuth], BasicConstraintsValid = True,
      IPAddresses = [''127.0.0.1'', ''::1''], DNSNames = [''localhost'', nodeID]\<rparr>"

text \<open>A failure of the random serial number gives nil (\<open>None\<close>), which is not looked at.\<close>

definition GenerateNodeKeyPair ::
    "Prims \<Rightarrow> XPrims \<Rightarrow> PrivateKey result \<Rightarrow> int option \<Rightarrow> nat \<Rightarrow> int \<Rightarrow> int \<Rightarrow> string \<Rightarrow> TLSConfigManager \<Rightarrow> TLSCertificate result" where
  "GenerateNodeKeyPair P X gen serialNumber rnd now1 now2 nodeID m =
     bind_result (wrap_err ''failed to generate node key'' gen) (\<lambda>privKey.
     bind_result (wrap_err ''failed to sign node cert''
         (CreateCertificate P X rnd (nodeTemplate serialNumber now1 now2 nodeID) (content (caCert m)) (public_key privKey) (caKey m))) (\<lambda>certDer.
       X509KeyPair X certDer privKey))"

datatype client_auth = NoClientCert | RequireAndVerifyClientCert

definition VersionTLS13 :: nat where "VersionTLS13 = 0x0304"

record tls_Config =
  Certificates :: "TLSCertificate list"
  ClientAuth :: client_auth
  ClientCAs :: "X509Cert list"
  RootCAs :: "X509Cert list"
  MinVersion :: nat
  InsecureSkipVerify :: bool

definition GetServerTLSConfig :: "TLSCertificate \<Rightarrow> TLSConfigManager \<Rightarrow> tls_Config" where
  "GetServerTLSConfig nodeCert m =
     \<lparr>Certificates = [nodeCert], ClientAuth = RequireAndVerifyClientCert, ClientCAs = [caCert m], RootCAs = [],
      MinVersion = VersionTLS13, InsecureSkipVerify = False\<rparr>"

definition GetClientTLSConfig :: "TLSCertificate \<Rightarrow> TLSConfigManager \<Rightarrow> tls_Config" where
  "GetClientTLSConfig nodeCert m =
     \<lparr>Certificates = [nodeCert], ClientAuth = NoClientCert, ClientCAs = [], RootCAs = [caCert m],
      MinVersion = VersionTLS13, InsecureSkipVerify = True\<rparr>"

section \<open>What the library does with the settings\<close>

definition valid_at :: "int \<Rightarrow> X509Cert \<Rightarrow> bool" where
  "valid_at now c \<longleftrightarrow> NotBefore (content c) \<le> now \<and> now \<le> NotAfter (content c)"

text \<open>\<open>ca\<close> may sign certificates and signed this one.\<close>

definition issued_by :: "Prims \<Rightarrow> XPrims \<Rightarrow> X509Cert \<Rightarrow> X509Cert \<Rightarrow> bool" where
  "issued_by P X ca c \<longleftrightarrow>
     issuer c = subject (content ca) \<and> BasicConstraintsValid (content ca) \<and> IsCA (content ca) \<and>
     KeyUsageCertSign \<in> set (KeyUsage (content ca)) \<and>
     ecdsa_verify P (cert_key ca) (sha256 P (x_tbs X (content c) (issuer c) (cert_key c))) (cert_sig c)"

text \<open>Verification of a leaf that is sent without intermediate certificates.\<close>

definition verify_leaf :: "Prims \<Rightarrow> XPrims \<Rightarrow> X509Cert list \<Rightarrow> ext_usage \<Rightarrow> int \<Rightarrow> X509Cert \<Rightarrow> bool" where
  "verify_leaf P X roots usage now c \<longleftrightarrow>
     valid_at now c \<and> usage \<in> set (ExtKeyUsage (content c)) \<and> list_ex (\<lambda>ca. valid_at now ca \<and> issued_by P X ca c) roots"

text \<open>The certificate a peer presents, for whose key it has made the signature of the handshake.\<close>

definition server_accepts :: "Prims \<Rightarrow> XPrims \<Rightarrow> tls_Config \<Rightarrow> int \<Rightarrow> nat \<Rightarrow> X509Cert option \<Rightarrow> bool" where
  "server_accepts P X cfg now version peer \<longleftrightarrow>
     MinVersion cfg \<le> version \<and>
     (case ClientAuth cfg of
        NoClientCert \<Rightarrow> True
      | RequireAndVerifyClientCert \<Rightarrow>
          (case peer of None \<Rightarrow> False | Some c \<Rightarrow> verify_leaf P X (ClientCAs cfg) ExtKeyUsageClientAuth now c))"

definition client_accepts :: "Prims \<Rightarrow> XPrims \<Rightarrow> tls_Config \<Rightarrow> int \<Rightarrow> nat \<Rightarrow> string \<Rightarrow> X509Cert \<Rightarrow> bool" where
  "client_accepts P X cfg now version host c \<longleftrightarrow>
     MinVersion cfg \<le> version \<and>
     (InsecureSkipVerify cfg \<or>
      verify_leaf P X (RootCAs cfg) ExtKeyUsageServerAuth now c \<and> host \<in> set (DNSNames (content c) @ IPAddresses (content c)))"

section \<open>Properties\<close>

text \<open>Decoding gives back what was encoded, for certificates with these contents.\<close>

definition x509_ok :: "XPrims \<Rightarrow> Certificate \<Rightarrow> bool" where
  "x509_ok X t \<longleftrightarrow> (\<forall>c. content c = t \<longrightarrow> x_parse X (x_encode X c) = Ok c)"

lemma CreateCertificate_parsed:
  assumes "ecdsa_ok P k" and "x509_ok X t" and "SerialNumber t = Some n" and "0 \<le> n"
  obtains der c where "CreateCertificate P X rnd t parent pub k = Ok der" and "x_parse X der = Ok c"
    and "content c = t" and "issuer c = subject parent" and "cert_key c = pub"
    and "ecdsa_verify P (public_key k) (sha256 P (x_tbs X t (subject parent) pub)) (cert_sig c)"
proof -
  obtain sg where sg: "ecdsa_sign P k (sha256 P (x_tbs X t (subject parent) pub)) rnd = Ok sg"
    "ecdsa_verify P (public_key k) (sha256 P (x_tbs X t (subject parent) pub)) sg"
    using assms(1) unfolding ecdsa_ok_def by blast
  let ?c = "\<lparr>content = t, issuer = subject parent, cert_key = pub, cert_sig = sg\<rparr>"
  have "x_parse X (x_encode X ?c) = Ok ?c" using assms(2) by (simp add: x509_ok_def)
  then show ?thesis
    by (rule that [rotated]) (use sg assms(3,4) in \<open>simp_all add: CreateCertificate_def\<close>)
qed

lemma NewTLSConfigManager_Ok:
  assumes "ecdsa_ok P k" and "x509_ok X (caTemplate t1 t2)"
  obtains m where "NewTLSConfigManager P X (Ok k) rnd t1 t2 = Ok m" and "caKey m = k"
    and "content (caCert m) = caTemplate t1 t2" and "cert_key (caCert m) = public_key k"
proof -
  have s: "SerialNumber (caTemplate t1 t2) = Some 1" by (simp add: caTemplate_def)
  obtain der c where c: "CreateCertificate P X rnd (caTemplate t1 t2) (caTemplate t1 t2) (public_key k) k = Ok der"
    "x_parse X der = Ok c" "content c = caTemplate t1 t2" "cert_key c = public_key k"
    by (rule CreateCertificate_parsed [OF assms s]) simp_all
  show ?thesis by (rule that [of "\<lparr>caCert = c, caKey = k\<rparr>"]) (simp_all add: NewTLSConfigManager_def Let_def c)
qed


text \<open>A client with these settings connects to whoever answers: it does not look at the certificate of the server.\<close>

theorem tls_client_accepts_anyone:
  "client_accepts P X (GetClientTLSConfig own m) now version host c \<longleftrightarrow> VersionTLS13 \<le> version"
  by (simp add: client_accepts_def GetClientTLSConfig_def)

section \<open>A concrete encoding\<close>

text \<open>An encoding of the certificates with two given contents, which it numbers.\<close>

definition num_pair :: "nat \<times> nat \<Rightarrow> bytes" where
  "num_pair p = enc_len (fst p) @ enc_len (snd p)"

definition sample_encode :: "Certificate \<Rightarrow> X509Cert \<Rightarrow> bytes" where
  "sample_encode t c =
     enc_bool (content c = t) @ enc_list enc_bytes (map string_bytes (fst (issuer c))) @ enc_bytes (string_bytes (snd (issuer c))) @
     num_pair (cert_key c) @ num_pair (cert_sig c)"

definition sample_decode :: "Certificate \<Rightarrow> Certificate \<Rightarrow> bytes \<Rightarrow> X509Cert result" where
  "sample_decode t t' d =
     (case Option.bind (dec_bool d) (\<lambda>(b, d). Option.bind (dec_list dec_bytes d) (\<lambda>(org, d). Option.bind (dec_bytes d) (\<lambda>(cn, d).
        Option.bind (dec_len d) (\<lambda>(x, d). Option.bind (dec_len d) (\<lambda>(y, d). Option.bind (dec_len d) (\<lambda>(r, d). Option.bind (dec_len d) (\<lambda>(s, d).
        Some \<lparr>content = if b then t else t', issuer = (map bytes_string org, bytes_string cn), cert_key = (x, y), cert_sig = (r, s)\<rparr>))))))) of
        Some c \<Rightarrow> Ok c
      | None \<Rightarrow> Error (ErrMsg ''x509: malformed certificate''))"

definition sample_x509 :: "Certificate \<Rightarrow> Certificate \<Rightarrow> XPrims" where
  "sample_x509 t t' = \<lparr>x_tbs = (\<lambda>c i k. num_pair k), x_encode = sample_encode t, x_parse = sample_decode t t'\<rparr>"

lemma sample_x509_ok: "x509_ok (sample_x509 t t') t" "x509_ok (sample_x509 t t') t'"
proof -
  have "sample_decode t t' (sample_encode t c) = Ok c" if "content c \<in> {t, t'}" for c
    using that codecD [OF codec_len, of _ "[]"]
    by (cases c) (auto simp: sample_decode_def sample_encode_def num_pair_def codecs codecD [OF codec_list [OF codec_bytes]]
        codecD [OF codec_len] comp_def simp del: enc_list.simps)
  then show "x509_ok (sample_x509 t t') t" "x509_ok (sample_x509 t t') t'" by (simp_all add: x509_ok_def sample_x509_def)
qed


end
