(* ===== verification/TxString.thy ===== *)
theory TxString
  imports Transaction Sse
begin

text \<open>
  The text of a transaction, \<^verbatim>\<open>Transaction.String\<close> of \<^verbatim>\<open>internal/core/transaction.go\<close>, and what can be
  read back from it.
\<close>

section \<open>String\<close>

fun in_lines :: "nat \<Rightarrow> TXInput list \<Rightarrow> string list" where
  "in_lines i [] = []"
| "in_lines i (input # rest) =
     [''     Input '' @ fmt_d (int i) @ '':'',
      ''       TXID:      '' @ hex_encode (Txid input),
      ''       Out:       '' @ fmt_d (sint (Vout_in input)),
      ''       Signature: '' @ hex_encode (Signature input),
      ''       PubKey:    '' @ hex_encode (PubKey input)] @
     (if EscrowWitness input \<noteq> [] then [''       Witness:   '' @ hex_encode (EscrowWitness input)] else []) @
     (if IsRefund input then [''       IsRefund:  true''] else []) @
     in_lines (Suc i) rest"

fun out_lines :: "nat \<Rightarrow> TXOutput list \<Rightarrow> string list" where
  "out_lines i [] = []"
| "out_lines i (output # rest) =
     [''     Output '' @ fmt_d (int i) @ '':'',
      ''       Value:  '' @ fmt_d (sint (Value output)),
      ''       Script: '' @ hex_encode (PubKeyHash output),
      ''       Type:   '' @ fmt_d (uint (ScriptType output))] @
     out_lines (Suc i) rest"

definition String_tx :: "Transaction \<Rightarrow> string" where
  "String_tx tx = join_nl ((''--- Transaction '' @ hex_encode (ID tx) @ '':'') # in_lines 0 (Vin tx) @ out_lines 0 (Vout tx))"

section \<open>Numbers\<close>

lemma hex_digit_inject: "m < 16 \<Longrightarrow> n < 16 \<Longrightarrow> hex_digit m = hex_digit n \<longleftrightarrow> m = n"
  using hex_value_digit [of m] hex_value_digit [of n] by (metis option.inject)

lemma hex_digit_plain: "n < 16 \<Longrightarrow> hex_digit n \<noteq> nl \<and> hex_digit n \<noteq> CHR ''-''"
proof -
  assume "n < 16"
  moreover have "hex_value nl = None" "hex_value CHR ''-'' = None" by code_simp+
  ultimately show ?thesis using hex_value_digit [of n] by auto
qed

lemma nat_dec_inject: "nat_dec m = nat_dec n \<Longrightarrow> m = n"
proof (induction m arbitrary: n rule: nat_dec.induct)
  case (1 m)
  have ne: "nat_dec k \<noteq> []" "[] \<noteq> nat_dec k" for k by (subst nat_dec.simps; simp)+
  show ?case
  proof (cases "m < 10 \<or> n < 10")
    case True
    then have "m < 10 \<and> n < 10"
      using 1(2) ne by (auto simp: nat_dec.simps [of m] nat_dec.simps [of n] split: if_splits)
    then show ?thesis using 1(2) by (simp add: nat_dec.simps [of m] nat_dec.simps [of n] hex_digit_inject)
  next
    case False
    then have "nat_dec (m div 10) = nat_dec (n div 10)" "m mod 10 = n mod 10"
      using 1(2) by (simp_all add: nat_dec.simps [of m] nat_dec.simps [of n] hex_digit_inject)
    then show ?thesis using 1(1) [of "n div 10"] False by (metis div_mult_mod_eq)
  qed
qed

lemma nat_dec_plain: "c \<in> set (nat_dec n) \<Longrightarrow> c \<noteq> nl \<and> c \<noteq> CHR ''-''"
proof (induction n rule: nat_dec.induct)
  case (1 n)
  have "n mod 10 < 16" by (rule less_trans [of _ 10]) simp_all
  then show ?case using 1 hex_digit_plain [of n] hex_digit_plain [of "n mod 10"]
    by (subst (asm) nat_dec.simps) (auto split: if_splits)
qed

lemma fmt_d_inject [simp]: "fmt_d i = fmt_d j \<longleftrightarrow> i = j"
proof
  have sign: "''-'' @ nat_dec m \<noteq> nat_dec n" for m n
    using nat_dec_plain [of "CHR ''-''" n] by (metis append_Cons list.set_intros(1))
  show "i = j" if "fmt_d i = fmt_d j"
    using that sign [of "nat (- i)" "nat j"] sign [of "nat (- j)" "nat i", symmetric]
    by (cases "i < 0"; cases "j < 0") (auto simp: fmt_d_def dest!: nat_dec_inject)
qed simp

lemma plain_text [simp]: "nl \<notin> set (fmt_d i)" "nl \<notin> set (hex_encode bs)"
proof -
  show "nl \<notin> set (fmt_d i)" using nat_dec_plain [of nl] by (auto simp: fmt_d_def)
  have "hex_digit (unat b div 16) \<noteq> nl" "hex_digit (unat b mod 16) \<noteq> nl" for b :: byte
    using unsigned_less [of b, where ?'a = nat] hex_digit_plain [of "unat b div 16"] hex_digit_plain [of "unat b mod 16"] by auto
  note this [symmetric]
  then show "nl \<notin> set (hex_encode bs)" by (induction bs) auto
qed

lemma num_eq: "sint (x :: int64) = sint y \<longleftrightarrow> x = y" "uint (b :: byte) = uint c \<longleftrightarrow> b = c"
proof -
  show "sint x = sint y \<longleftrightarrow> x = y" by (metis signed_word_eqI)
  show "uint b = uint c \<longleftrightarrow> b = c" by (simp add: word_uint_eq_iff)
qed

section \<open>Reading it back\<close>

lemma split_join: "ls \<noteq> [] \<Longrightarrow> \<forall>l \<in> set ls. nl \<notin> set l \<Longrightarrow> split_nl (join_nl ls) = ls"
proof (induction ls rule: join_nl.induct)
  case (2 l)
  then show ?case by (induction l) auto
qed (auto simp: split_nl_line)

lemma lines_plain: "l \<in> set (in_lines i ins) \<or> l \<in> set (out_lines j outs) \<Longrightarrow> nl \<notin> set l"
proof -
  have "l \<in> set (in_lines i ins) \<Longrightarrow> nl \<notin> set l" by (induction ins arbitrary: i) (auto split: if_splits)
  moreover have "l \<in> set (out_lines j outs) \<Longrightarrow> nl \<notin> set l" by (induction outs arbitrary: j) auto
  ultimately show "l \<in> set (in_lines i ins) \<or> l \<in> set (out_lines j outs) \<Longrightarrow> nl \<notin> set l" by blast
qed

definition out_view :: "TXOutput \<Rightarrow> int64 \<times> bytes \<times> byte" where
  "out_view out = (Value out, PubKeyHash out, ScriptType out)"

lemma out_lines_inject: "out_lines j xs = out_lines j ys \<longleftrightarrow> map out_view xs = map out_view ys"
proof (induction xs arbitrary: ys j)
  case Nil
  then show ?case by (cases ys) auto
next
  case (Cons x xs)
  then show ?case by (cases ys) (auto simp: out_view_def num_eq)
qed

text \<open>The lines after those of an input are no continuation of it.\<close>

definition fresh :: "string list \<Rightarrow> bool" where
  "fresh ls \<longleftrightarrow> (case ls of [] \<Rightarrow> True | l # _ \<Rightarrow> take 7 l \<noteq> ''       '')"

lemma fresh_lines: "fresh (in_lines i ins @ out_lines j outs)"
  by (cases ins; cases outs) (simp_all add: fresh_def)

lemma in_lines_inject:
  "in_lines i xs @ out_lines j us = in_lines i ys @ out_lines j vs \<longleftrightarrow> xs = ys \<and> map out_view us = map out_view vs"
proof (induction xs arbitrary: ys i)
  case Nil
  show ?case
  proof (cases ys)
    case (Cons y ys')
    then show ?thesis by (cases us) auto
  qed (simp add: out_lines_inject)
next
  case (Cons x xs)
  show ?case
  proof (cases ys)
    case Nil
    then show ?thesis by (cases vs) auto
  next
    case (Cons y ys')
    have f: "fresh (in_lines (Suc i) xs @ out_lines j us)" "fresh (in_lines (Suc i) ys' @ out_lines j vs)" by (rule fresh_lines)+
    have "x = y \<and> in_lines (Suc i) xs @ out_lines j us = in_lines (Suc i) ys' @ out_lines j vs"
      if "in_lines i (x # xs) @ out_lines j us = in_lines i (y # ys') @ out_lines j vs"
      using that f by (cases x; cases y) (auto simp: fresh_def split: if_splits list.splits intro: signed_word_eqI)
    moreover have "in_lines i (x # xs) @ out_lines j us = in_lines i (x # ys') @ out_lines j vs"
      if "in_lines (Suc i) xs @ out_lines j us = in_lines (Suc i) ys' @ out_lines j vs" using that by simp
    ultimately show ?thesis using Cons.IH [of "Suc i" ys'] \<open>ys = y # ys'\<close>
      by (metis list.inject)
  qed
qed

text \<open>
  The text of a transaction says everything about its inputs. Two transactions have the same text
  exactly when their ids, all fields of their inputs and the value, key hash and script type of their
  outputs agree; what it leaves out are the lock, the timeout and the buyer of escrow outputs.
\<close>

theorem String_tx_inject:
  "String_tx tx = String_tx tx' \<longleftrightarrow>
     ID tx = ID tx' \<and> Vin tx = Vin tx' \<and>
     map (\<lambda>out. (Value out, PubKeyHash out, ScriptType out)) (Vout tx) = map (\<lambda>out. (Value out, PubKeyHash out, ScriptType out)) (Vout tx')"
proof -
  define ls :: "Transaction \<Rightarrow> string list"
    where "ls tx = (''--- Transaction '' @ hex_encode (ID tx) @ '':'') # in_lines 0 (Vin tx) @ out_lines 0 (Vout tx)" for tx
  have "split_nl (String_tx tx) = ls tx" for tx
    using lines_plain [of _ 0 "Vin tx" 0 "Vout tx"] unfolding String_tx_def ls_def by (intro split_join) auto
  then have "String_tx tx = String_tx tx' \<longleftrightarrow> ls tx = ls tx'"
    by (metis String_tx_def ls_def)
  then show ?thesis using in_lines_inject [of 0 "Vin tx" 0 "Vout tx" "Vin tx'" "Vout tx'"]
    by (simp add: ls_def out_view_def [abs_def])
qed

end
