(* ===== verification/Mining.thy ===== *)
theory Mining
  imports ServerProps
begin

text \<open>
  What one round of the mining loop of \<^verbatim>\<open>handleTx\<close> does (\<^verbatim>\<open>internal/network/server.go\<close>): the
  transactions it picks from the pool, the block it appends, the set of unspent outputs it rebuilds.
\<close>

section \<open>Rebuilding the set of unspent outputs\<close>

context storage
begin

lemma reindex_entry_frame:
  assumes "gob_ok P" and "inv (db c)" and "fst e \<in> range hex_encode"
  obtains r c' where "reindex_entry P S e c = (r, c')" and "utxo_frame c c'" and "\<exists>x. r = Ok () \<or> r = Error x"
proof -
  obtain k where k: "fst e = hex_encode k" using assms(3) by blast
  obtain d where d: "Serialize_outs P \<lparr>Outputs = snd e\<rparr> = Ok d"
    using Deserialize_Serialize_outs [OF assms(1)] by blast
  obtain r c1 where s: "SaveUTXO S k d (db c) = (r, c1)" by force
  show ?thesis
    using that save_utxo [OF assms(2) s] assms(2) k d s
    by (auto simp: reindex_entry_def save_outs_def on_db_def utxo_frame_def)
qed

lemma reindex_loop_frame:
  assumes "gob_ok P" and "inv (db c)" and "fst ` set U \<subseteq> range hex_encode"
    and "for_each (reindex_entry P S) U c = (r, c')"
  shows "utxo_frame c c' \<and> (\<exists>x. r = Ok () \<or> r = Error x)"
  using assms(2-4)
proof (induction U arbitrary: c)
  case Nil
  then show ?case by (auto simp: utxo_frame_def)
next
  case (Cons e U)
  obtain r1 c1 where e: "reindex_entry P S e c = (r1, c1)" "utxo_frame c c1" "\<exists>x. r1 = Ok () \<or> r1 = Error x"
    using reindex_entry_frame [OF assms(1) Cons.prems(1), of e] Cons.prems(2) by auto
  have "inv (db c1)" using e(2) by (simp add: utxo_frame_def)
  then show ?case using Cons.IH [of c1] Cons.prems(2,3) e utxo_frame_trans by auto
qed

text \<open>Over a chain that ends, a rebuild returns, with an error at most, and touches the unspent outputs only.\<close>

lemma Reindex_frame:
  assumes "gob_ok P" and "inv (db bc)" and "is_order ord"
    and "good_chain (BC_GetBlock P S (db bc)) (tip bc) bs" and "\<forall>b \<in> set bs. okh (Hash b)"
    and "Reindex P S ord bc = (r, bc')"
  shows "utxo_frame bc bc' \<and> (\<exists>x. r = Ok () \<or> r = Error x)"
proof -
  let ?U = "fst (fold utxo_step (chain_txs bs) ([], \<lambda>_. []))"
  obtain r1 d where c: "ClearUTXOSet S (db bc) = (r1, d)" by force
  define bc1 where "bc1 = bc\<lparr>db := d\<rparr>"
  have fr: "utxo_frame bc bc1" and r1: "\<exists>x. r1 = Ok () \<or> r1 = Error x"
    using clear_utxo [OF assms(2) c] assms(2) by (auto simp: utxo_frame_def bc1_def)
  show ?thesis
  proof (cases "r1 = Ok ()")
    case True
    have "chain (BC_GetBlock P S (db bc1)) (tip bc1) bs"
      using good_chain_chain [OF good_chain_frame [OF assms(2) fr assms(4,5)]] by (simp add: bc1_def)
    from FindUTXO_chain [OF this] have loop: "for_each (reindex_entry P S) (ord ?U) bc1 = (r, bc')"
      using assms(6) c True by (simp add: Reindex_def on_db_def bc1_def)
    have "fst ` set ?U \<subseteq> range hex_encode" by (rule utxo_fold_keys) simp
    then have "fst ` set (ord ?U) \<subseteq> range hex_encode" using is_order_set [OF assms(3)] by simp
    then show ?thesis using reindex_loop_frame [OF assms(1) _ _ loop] fr utxo_frame_trans by (auto simp: utxo_frame_def)
  next
    case False
    then show ?thesis using r1 fr assms(6) c by (auto simp: Reindex_def on_db_def bc1_def)
  qed
qed

lemma Reindex_good_chain:
  assumes "gob_ok P" and "inv (db bc)" and "is_order ord"
    and "good_chain (BC_GetBlock P S (db bc)) (tip bc) bs" and "\<forall>b \<in> set bs. okh (Hash b)"
  shows "good_chain (BC_GetBlock P S (db (snd (Reindex P S ord bc)))) (tip (snd (Reindex P S ord bc))) bs"
proof -
  obtain r bc' where re: "Reindex P S ord bc = (r, bc')" by fastforce
  have "utxo_frame bc bc'" using Reindex_frame [OF assms re] by blast
  from good_chain_frame [OF assms(2) this assms(4,5)] this show ?thesis by (simp add: re utxo_frame_def)
qed

end

section \<open>Picking transactions\<close>

lemma collect_valid_filter:
  "collect_valid E bc pool = Ok txs \<Longrightarrow>
     txs = filter (\<lambda>t. VerifyTransaction (prims E) (store E) bc t = Ok True) (map snd pool)"
  by (induction pool arbitrary: txs) (auto simp: bind_result_eq_Ok split: result.splits if_splits)

section \<open>A round of mining\<close>

text \<open>The state after a block was mined, before it is announced.\<close>

definition mined :: "rat \<Rightarrow> Block \<Rightarrow> Transaction list \<Rightarrow> 's Blockchain \<Rightarrow> 's Server \<Rightarrow> 's Server" where
  "mined secs b txs bc s = drop_txs txs (notifyBlock b ((count_mined secs b (s\<lparr>miningCancel := False\<rparr>))\<lparr>srv_bc := bc\<rparr>))"

lemma mined_sel [simp]:
  "srv_bc (mined t b txs bc s) = bc" "nodeAddress (mined t b txs bc s) = nodeAddress s" "knownNodes (mined t b txs bc s) = knownNodes s"
  "net (mined t b txs bc s) = net s" "blocksInTransit (mined t b txs bc s) = blocksInTransit s"
  "blockSubscribers (mined t b txs bc s) = map (offer b) (blockSubscribers s)"
  "BlockchainHeight (prom (mined t b txs bc s)) = float64 (sint (Height b))" "BlocksMined (prom (mined t b txs bc s)) = BlocksMined (prom s) + 1"
  "map_of (mempool (mined t b txs bc s)) k = (if k \<in> tx_key ` set txs then None else map_of (mempool s) k)"
  unfolding mined_def mempool_drop_txs by (simp_all add: drop_txs_def notifyBlock_def)

lemma mine_round_Ok:
  assumes "env_ok (bolt_storage B) E" and "srv_inv up (bolt_inv B) (bolt_tip B) s" and "gob_ok (prims E)" and "is_order (utxo_order E)"
    and "good_chain (BC_GetBlock (prims E) (bolt_storage B) (db (srv_bc s))) (tip (srv_bc s)) (b # bs)"
    and "\<forall>c \<in> set (b # bs). block_key (Hash c)" and "sint (Height b) < 2 ^ 63 - 1"
    and "2 \<le> length (mempool s)" and "miningAddress s \<noteq> []" and "knownNodes s \<noteq> []"
    and "collect_valid E (srv_bc s) (pool_order E (mempool s)) = Ok txs" and "txs \<noteq> []"
    and "NewCoinbaseTX (prims E) (coinbase_rand E n) (miningAddress s) [] = Ok cb"
    and "MineBlock (prims E) (bolt_storage B) (mining_ctx E n) (clock E n) (txs @ [cb]) (srv_bc s) = (Ok nb, bc1)"
    and "bolt_blk B (db (srv_bc s)) (Hash nb) = None"
  obtains bc where "mine_round E n s = Inr (snd (announce E {} ''block'' (Hash nb) (mined (mining_secs E n) nb (txs @ [cb]) bc s)))"
    and "Transactions nb = txs @ [cb]" and "block_key (Hash nb)"
    and "good_chain (BC_GetBlock (prims E) (bolt_storage B) (db bc)) (tip bc) (nb # b # bs)"
    and "fst (Reindex (prims E) (bolt_storage B) (utxo_order E) bc1) = Ok () \<longrightarrow>
       (\<forall>k. abs_utxo (prims E) (bolt_utxo B (db bc)) k =
          map_of (fst (fold utxo_step (chain_txs (nb # b # bs)) ([], \<lambda>_. []))) (hex_encode k))"
proof -
  let ?P = "prims E" and ?S = "bolt_storage B"
  have S: "store E = ?S" and sha: "sha256_ok ?P" using assms(1) by (simp_all add: env_ok_def)
  have sy: "bc_synced (bolt_inv B) (bolt_tip B) (srv_bc s)" using assms(2) by (simp add: srv_inv_def)
  have m: "bc_synced (bolt_inv B) (bolt_tip B) bc1" "good_chain (BC_GetBlock ?P ?S (db bc1)) (tip bc1) (nb # b # bs)"
    "Transactions nb = txs @ [cb]" "block_key (Hash nb)"
    using bolt.MineBlock_good_chain [OF sy sha assms(3) length_32_block_key assms(5-7,14,15)] by blast+
  have keys: "\<forall>c \<in> set (nb # b # bs). block_key (Hash c)" using assms(6) m(4) by simp
  have inv1: "bolt_inv B (db bc1)" using m(1) by (simp add: bc_synced_def)
  obtain r bc where re: "Reindex ?P ?S (utxo_order E) bc1 = (r, bc)" by fastforce
  note fr = bolt.Reindex_frame [OF assms(3) inv1 assms(4) m(2) keys re]
  define s1 where "s1 = count_mined (mining_secs E n) nb (s\<lparr>srv_bc := bc1, miningCancel := False\<rparr>)"
  have "reindex_logged E s1 = (Ok (), s1\<lparr>srv_bc := bc\<rparr>)"
    using fr re S by (auto simp: reindex_logged_def logged_def s1_def)
  moreover have "drop_txs (txs @ [cb]) (notifyBlock nb (s1\<lparr>srv_bc := bc\<rparr>)) = mined (mining_secs E n) nb (txs @ [cb]) bc s"
    by (simp add: s1_def mined_def count_mined_def show_height_def)
  moreover obtain r' s' where "announce E {} ''block'' (Hash nb) (mined (mining_secs E n) nb (txs @ [cb]) bc s) = (r', s')" "r' = Ok ()"
    using sendsD [OF sends_announce] by (metis surj_pair)
  ultimately have round: "mine_round E n s = Inr (snd (announce E {} ''block'' (Hash nb) (mined (mining_secs E n) nb (txs @ [cb]) bc s)))"
    using assms(8-14) S by (simp add: mine_round_def s1_def)
  have "tip bc = tip bc1" using fr by (simp add: bolt.utxo_frame_def)
  then have good: "good_chain (BC_GetBlock ?P ?S (db bc)) (tip bc) (nb # b # bs)"
    using bolt.good_chain_frame [OF inv1 conjunct1 [OF fr] m(2) keys] by simp
  show ?thesis
    using that [OF round m(3,4) good] bolt.Reindex_Ok [OF assms(3) inv1 assms(4) m(2) keys, of bc] re by simp
qed

text \<open>
  C12. Mining on demand. A node with a mining address, peers and at least two pooled transactions mines
  exactly the pooled transactions that verify, each on its own against the chain, and behind them a coinbase
  to its address. Once the block is found, the round completes: the block is the new head of the
  well-formed chain, its transactions and only these have left the pool, every subscriber is offered
  the block, the metrics show its height and count it, and, if the database does not fail, the stored unspent outputs are those of the new
  chain.
\<close>

theorem mining_round_spec:
  assumes "env_ok (bolt_storage B) E" and "srv_inv up (bolt_inv B) (bolt_tip B) s" and "gob_ok (prims E)" and "is_order (utxo_order E)"
    and "good_chain (BC_GetBlock (prims E) (bolt_storage B) (db (srv_bc s))) (tip (srv_bc s)) (b # bs)"
    and "\<forall>c \<in> set (b # bs). block_key (Hash c)" and "sint (Height b) < 2 ^ 63 - 1"
    and "2 \<le> length (mempool s)" and "miningAddress s \<noteq> []" and "knownNodes s \<noteq> []"
    and "collect_valid E (srv_bc s) (pool_order E (mempool s)) = Ok txs" and "txs \<noteq> []"
    and "NewCoinbaseTX (prims E) (coinbase_rand E n) (miningAddress s) [] = Ok cb"
    and "MineBlock (prims E) (bolt_storage B) (mining_ctx E n) (clock E n) (txs @ [cb]) (srv_bc s) = (Ok nb, bc1)"
    and "bolt_blk B (db (srv_bc s)) (Hash nb) = None"
  shows "\<exists>s'. mine_round E n s = Inr s' \<and>
    txs = filter (\<lambda>t. VerifyTransaction (prims E) (bolt_storage B) (srv_bc s) t = Ok True) (map snd (pool_order E (mempool s))) \<and>
    Transactions nb = txs @ [cb] \<and>
    good_chain (BC_GetBlock (prims E) (bolt_storage B) (db (srv_bc s'))) (tip (srv_bc s')) (nb # b # bs) \<and>
    (\<forall>k. map_of (mempool s') k = (if k \<in> tx_key ` set (txs @ [cb]) then None else map_of (mempool s) k)) \<and>
    blockSubscribers s' = map (offer nb) (blockSubscribers s) \<and>
    BlockchainHeight (prom s') = float64 (sint (Height nb)) \<and> BlocksMined (prom s') = BlocksMined (prom s) + 1 \<and>
    (fst (Reindex (prims E) (bolt_storage B) (utxo_order E) bc1) = Ok () \<longrightarrow>
       (\<forall>k. abs_utxo (prims E) (bolt_utxo B (db (srv_bc s'))) k =
          map_of (fst (fold utxo_step (chain_txs (nb # b # bs)) ([], \<lambda>_. []))) (hex_encode k)))"
proof -
  let ?m = "\<lambda>bc. mined (mining_secs E n) nb (txs @ [cb]) bc s"
  obtain bc where m: "mine_round E n s = Inr (snd (announce E {} ''block'' (Hash nb) (?m bc)))" "Transactions nb = txs @ [cb]"
    "good_chain (BC_GetBlock (prims E) (bolt_storage B) (db bc)) (tip bc) (nb # b # bs)"
    "fst (Reindex (prims E) (bolt_storage B) (utxo_order E) bc1) = Ok () \<longrightarrow>
       (\<forall>k. abs_utxo (prims E) (bolt_utxo B (db bc)) k =
          map_of (fst (fold utxo_step (chain_txs (nb # b # bs)) ([], \<lambda>_. []))) (hex_encode k))"
    using mine_round_Ok [OF assms] by metis
  have q: "quiet (?m bc) (snd (announce E {} ''block'' (Hash nb) (?m bc)))"
    using sends_announce unfolding sends_def by blast
  have "txs = filter (\<lambda>t. VerifyTransaction (prims E) (bolt_storage B) (srv_bc s) t = Ok True) (map snd (pool_order E (mempool s)))"
    using collect_valid_filter [OF assms(11)] assms(1) by (simp add: env_ok_def)
  then show ?thesis using m quiet_sel(1,2,3,12,13) [OF q] by simp
qed

section \<open>A concrete round\<close>

definition pooled_node :: "(bytes \<times> bytes) list buckets Server" where
  "pooled_node = sample_node\<lparr>miningAddress := address_of sample_prims sample_wallet,
     mempool := [(tx_key sample_coinbase, sample_coinbase), (''0a'', sample_coinbase\<lparr>ID := [10]\<rparr>)],
     prom := no_metrics\<lparr>MempoolSize := float64 2\<rparr>\<rparr>"

lemma pooled_node_sel [simp]:
  "srv_bc pooled_node = sample_bc [sample_tx]" "knownNodes pooled_node = [''localhost:3000'']" "blockSubscribers pooled_node = []"
  "miningAddress pooled_node = address_of sample_prims sample_wallet"
  "mempool pooled_node = [(tx_key sample_coinbase, sample_coinbase), (''0a'', sample_coinbase\<lparr>ID := [10]\<rparr>)]"
  "prom pooled_node = no_metrics\<lparr>MempoolSize := float64 2\<rparr>"
  by (simp_all add: pooled_node_def)

lemma pooled_node_inv: "srv_inv False (bolt_inv list_bbolt) (bolt_tip list_bbolt) pooled_node"
  using sample_bc_facts(1) [of "[sample_tx]"]
  by (simp add: srv_inv_def keyed_def sample_coinbase_def hex_digit_def)

theorem mining_round_spec_witness:
  "\<exists>s' nb. mine_round sample_env 0 pooled_node = Inr s' \<and> mempool s' = [] \<and>
     good_chain (BC_GetBlock sample_prims list_storage (db (srv_bc s'))) (tip (srv_bc s')) [nb, sample_block [sample_tx]]"
proof -
  let ?c1 = "sample_coinbase" and ?c2 = "sample_coinbase\<lparr>ID := [10]\<rparr>" and ?bc = "sample_bc [sample_tx]"
  have cbs: "IsCoinbase ?c1" "IsCoinbase ?c2" by (simp_all add: IsCoinbase_def sample_coinbase_def)
  then have pick: "collect_valid sample_env (srv_bc pooled_node) (pool_order sample_env (mempool pooled_node)) = Ok [?c1, ?c2]"
    by (simp add: VerifyTransaction_def)
  obtain cb where cb: "NewCoinbaseTX sample_prims (Ok ''00'') (address_of sample_prims sample_wallet) [] = Ok cb" "IsCoinbase cb"
    using address_hash_of_wallet [OF sample_sha256_ok, of sample_wallet]
    by (auto simp: NewCoinbaseTX_def NewTXOutput_eq subsidy_def Let_def IsCoinbase_def)
  have "BC_GetBlock sample_prims list_storage (db ?bc) (tip ?bc) = Ok (sample_block [sample_tx])"
    using good_chain_hd [OF sample_bc_facts(3) [of "[sample_tx]"]] by auto
  moreover have "verify_all sample_prims list_storage ?bc ([?c1, ?c2] @ [cb]) = Ok ()"
    using cbs cb(2) by (simp add: VerifyTransaction_def)
  ultimately obtain nb bc1 where m: "MineBlock sample_prims list_storage Background 5 ([?c1, ?c2] @ [cb]) ?bc = (Ok nb, bc1)" "length (Hash nb) = 32"
    using list_mine [OF sample_bc_facts(1) [of "[sample_tx]"]] by blast
  have fresh: "bolt_blk list_bbolt (db ?bc) (Hash nb) = None" using m(2) by (auto simp: sample_bc_facts(2))
  have key: "\<forall>c \<in> set [sample_block [sample_tx]]. block_key (Hash c)" by (simp add: tipKey_def string_bytes_def)
  have "address_hash [] = None" by code_simp
  then have ne: "address_of sample_prims sample_wallet \<noteq> []"
    using address_hash_of_wallet [OF sample_sha256_ok, of sample_wallet] by auto
  have env: "coinbase_rand sample_env 0 = Ok ''00''" "clock sample_env 0 = 5" "mining_ctx sample_env 0 = Background" "utxo_order sample_env = (\<lambda>m. m)"
    by (simp_all add: sample_env_def)
  obtain s' where s': "mine_round sample_env 0 pooled_node = Inr s'"
    "good_chain (BC_GetBlock sample_prims list_storage (db (srv_bc s'))) (tip (srv_bc s')) [nb, sample_block [sample_tx]]"
    "\<forall>k. map_of (mempool s') k = (if k \<in> tx_key ` set ([?c1, ?c2] @ [cb]) then None else map_of (mempool pooled_node) k)"
    using mining_round_spec [OF sample_env_ok pooled_node_inv, of "sample_block [sample_tx]" "[]" "[?c1, ?c2]" 0 cb nb bc1]
      sample_bc_facts(3) [of "[sample_tx]"] key pick cb(1) m(1) fresh ne by (simp add: env) blast
  have "hex_encode [10] = ''0a''" by code_simp
  then have "map_of (mempool s') = Map.empty" using s'(3) by (auto simp: fun_eq_iff)
  then have "mempool s' = []" by (cases "mempool s'") (auto simp: fun_eq_iff split: if_splits)
  with s' show ?thesis by blast
qed

end
