(* ===== verification/Sync.thy ===== *)
theory Sync
  imports Mining
begin

text \<open>
  Two nodes that talk to each other: what one sends to the address of the other arrives there as
  a connection. A node that is behind and asks for blocks downloads the chain of its peer, which
  composes \<^verbatim>\<open>handleGetBlocks\<close>, \<^verbatim>\<open>handleInv\<close>, \<^verbatim>\<open>handleGetData\<close>, \<^verbatim>\<open>handleBlock\<close> and \<^verbatim>\<open>AddBlock\<close>.
\<close>

section \<open>Conversations\<close>

text \<open>The messages that reached an address between two states of the sender.\<close>

definition heard :: "'s Server \<Rightarrow> 's Server \<Rightarrow> string \<Rightarrow> bytes list" where
  "heard s s' a = map (\<lambda>(x, d, ok). d) (filter (\<lambda>(x, d, ok). x = a \<and> ok) (drop (length (net s)) (net s')))"

definition receive_all :: "'s Env \<Rightarrow> bytes list \<Rightarrow> 's Server \<Rightarrow> 's Server" where
  "receive_all E msgs s = fold (\<lambda>m s. snd (handleConnection E (Ok m) s)) msgs s"

text \<open>
  The conversation that starts with messages for the first node: it answers, then the second one,
  and so on, until there is nothing to answer. \<open>None\<close> is a conversation without end.
\<close>

partial_function (option) talk ::
    "'s Env \<Rightarrow> 't Env \<Rightarrow> bytes list \<Rightarrow> 's Server \<Rightarrow> 't Server \<Rightarrow> ('s Server \<times> 't Server) option" where
  "talk EA EB msgs A B =
     (if msgs = [] then Some (A, B)
      else
        let A' = receive_all EA msgs A;
            B' = receive_all EB (heard A A' (nodeAddress B)) B
        in talk EA EB (heard B B' (nodeAddress A)) A' B')"

lemma heard_send:
  "dial E (net s) a \<Longrightarrow> heard s (sendData E a d s) a = [d]"
  by (simp add: heard_def net_sendData)

lemma heard_net: "net s1 = net s \<Longrightarrow> heard s s' a = heard s1 s' a"
  by (simp add: heard_def)

lemma talk_step:
  assumes "snd (handleConnection EA (Ok m) A) = A'" and "heard A A' (nodeAddress B) = [m']"
    and "snd (handleConnection EB (Ok m') B) = B'"
  shows "talk EA EB [m] A B = talk EA EB (heard B B' (nodeAddress A)) A' B'"
  by (subst talk.simps) (simp add: receive_all_def assms)

section \<open>Frames\<close>

definition block_frame :: "'s Env \<Rightarrow> string \<Rightarrow> Block \<Rightarrow> bytes" where
  "block_frame E self b = frame ''block''
     (gobEncode (gob_blockm (nprims E) \<lparr>block_AddrFrom = self, block_Block = Serialize (prims E) b\<rparr>))"

definition inv_frame :: "'s Env \<Rightarrow> string \<Rightarrow> bytes list \<Rightarrow> bytes" where
  "inv_frame E self hs = frame ''inv''
     (gobEncode (gob_inv (nprims E) \<lparr>inv_AddrFrom = self, inv_Type = ''block'', inv_Items = hs\<rparr>))"

definition getblocks_frame :: "'s Env \<Rightarrow> string \<Rightarrow> bytes" where
  "getblocks_frame E self = frame ''getblocks'' (gobEncode (gob_getblocks (nprims E) \<lparr>getblocks_AddrFrom = self\<rparr>))"

definition version_frame :: "'s Env \<Rightarrow> string \<Rightarrow> int64 \<Rightarrow> bytes" where
  "version_frame E self h = frame ''version''
     (gobEncode (gob_verzion (nprims E) \<lparr>Version = nodeVersion, BestHeight = h, verzion_AddrFrom = self\<rparr>))"

lemma decode_frames:
  assumes "nprims_ok (nprims E)"
  shows "decode (ungob_blockm (nprims E)) (block_frame E self b) = Ok \<lparr>block_AddrFrom = self, block_Block = Serialize (prims E) b\<rparr>"
    "decode (ungob_inv (nprims E)) (inv_frame E self hs) = Ok \<lparr>inv_AddrFrom = self, inv_Type = ''block'', inv_Items = hs\<rparr>"
    "decode (ungob_getblocks (nprims E)) (getblocks_frame E self) = Ok \<lparr>getblocks_AddrFrom = self\<rparr>"
    "decode (ungob_getdata (nprims E)) (getdata_frame E self h) = Ok \<lparr>getdata_AddrFrom = self, getdata_Type = ''block'', getdata_ID = h\<rparr>"
  by (simp_all add: block_frame_def inv_frame_def getblocks_frame_def getdata_frame_def decode_sent [OF assms])

lemma dispatch_frames:
  "length (block_frame E self b) \<le> maxMsgSize \<Longrightarrow> handleConnection E' (Ok (block_frame E self b)) s = handleBlock E' (block_frame E self b) s"
  "length (inv_frame E self hs) \<le> maxMsgSize \<Longrightarrow> handleConnection E' (Ok (inv_frame E self hs)) s = handleInv E' (inv_frame E self hs) s"
  "length (getblocks_frame E self) \<le> maxMsgSize \<Longrightarrow>
     handleConnection E' (Ok (getblocks_frame E self)) s = handleGetBlocks E' (getblocks_frame E self) s"
  "length (getdata_frame E self h) \<le> maxMsgSize \<Longrightarrow>
     handleConnection E' (Ok (getdata_frame E self h)) s = handleGetData E' (getdata_frame E self h) s"
  by (simp_all add: block_frame_def inv_frame_def getblocks_frame_def getdata_frame_def handleConnection_frame)

section \<open>The node that has the blocks\<close>

lemma answer_getblocks:
  assumes "nprims_ok (nprims EA)" and "nprims EB = nprims EA" and "length (getblocks_frame EB b) \<le> maxMsgSize"
    and "chain (BC_GetBlock (prims EA) (store EA) (db (srv_bc A))) (tip (srv_bc A)) bs"
  shows "handleConnection EA (Ok (getblocks_frame EB b)) A = (Ok (), sendData EA b (inv_frame EA (nodeAddress A) (map Hash bs)) A)"
proof -
  have "getblocks_frame EB b = getblocks_frame EA b" by (simp add: getblocks_frame_def assms(2))
  then show ?thesis
    using decode_frames(3) [OF assms(1), of b] dispatch_frames(3) [of EA b EA A] assms(3) GetBlockHashes_chain [OF assms(4)]
    by (simp add: handleGetBlocks_def logged_def sendInv_def send_cmd_frame inv_frame_def)
qed

lemma answer_getdata:
  assumes "nprims_ok (nprims EA)" and "nprims EB = nprims EA" and "length (getdata_frame EB b h) \<le> maxMsgSize"
    and "BC_GetBlock (prims EA) (store EA) (db (srv_bc A)) h = Ok c"
  shows "handleConnection EA (Ok (getdata_frame EB b h)) A = (Ok (), sendData EA b (block_frame EA (nodeAddress A) c) A)"
proof -
  have "getdata_frame EB b h = getdata_frame EA b h" by (simp add: getdata_frame_def assms(2))
  then show ?thesis
    using decode_frames(4) [OF assms(1), of b h] dispatch_frames(4) [of EA b h EA A] assms(3,4)
    by (simp add: handleGetData_def logged_def sendBlock_def send_cmd_frame block_frame_def)
qed

section \<open>The node that is behind\<close>

lemma good_chain_hashes:
  assumes "good_chain lk h bs"
  shows "distinct (map Hash bs)" and "c \<in> set bs \<Longrightarrow> Hash c \<noteq> []" and "c \<in> set bs \<Longrightarrow> sint (Height c) \<le> sint (Height (hd bs))"
proof -
  have "inj_on Hash (set bs)" using good_chain_lookup [OF assms] by (intro inj_onI) (metis result.inject(1))
  then show "distinct (map Hash bs)" using good_chain_distinct [OF assms] by (simp add: distinct_map)
  show "c \<in> set bs \<Longrightarrow> Hash c \<noteq> []" using assms by (induction rule: good_chain.induct) auto
  assume "c \<in> set bs"
  then obtain i where i: "i < length bs" "c = bs ! i" by (metis in_set_conv_nth)
  then have "bs \<noteq> []" by auto
  then show "sint (Height c) \<le> sint (Height (hd bs))"
    using i good_chain_height [OF assms i(1)] good_chain_height [OF assms, of 0] by (simp add: hd_conv_nth)
qed

text \<open>A database whose writes succeed.\<close>

definition writes_ok :: "'s Storage \<Rightarrow> ('s \<Rightarrow> bool) \<Rightarrow> bool" where
  "writes_ok S dbinv \<longleftrightarrow> (\<forall>h d s. dbinv s \<longrightarrow> h \<noteq> [] \<longrightarrow>
     fst (SaveBlock S h d s) = Ok () \<and> fst (SaveBlockAndTip S h d s) = Ok ())"

context storage
begin

lemma AddBlock_ok:
  assumes "bc_synced inv tipv bc" and "okh (Hash b)" and "Hash b \<noteq> []"
    and sealed: "blk (db bc) (Hash b) = None \<Longrightarrow> block_sealed P keys b = Ok ()" and "gob_ok P"
    and last: "BC_GetBlock P S (db bc) (tip bc) = Ok lastB" and "writes_ok S inv"
  obtains bc' where "AddBlock P S keys b bc = (Ok (), bc')" and "bc_synced inv tipv bc'"
    and "blk (db bc') = (if blk (db bc) (Hash b) = None then (blk (db bc))(Hash b \<mapsto> Serialize P b) else blk (db bc))"
    and "tip bc' = (if blk (db bc) (Hash b) = None \<and> sint (Height b) > sint (Height lastB) then Hash b else tip bc)"
proof -
  have inv: "inv (db bc)" "tipv (db bc) = Some (tip bc)" using assms(1) by (auto simp: bc_synced_def)
  obtain d where "gob_block P b = Some d" "d \<noteq> []" using gob_ok_block [OF assms(5)] .
  then have ser: "Serialize P b \<noteq> []" by (simp add: Serialize_def)
  obtain r1 d1 where s1: "SaveBlockAndTip S (Hash b) (Serialize P b) (db bc) = (r1, d1)" by force
  obtain r2 d2 where s2: "SaveBlock S (Hash b) (Serialize P b) (db bc) = (r2, d2)" by force
  have w: "r1 = Ok ()" "r2 = Ok ()" using assms(3,7) inv(1) s1 s2 unfolding writes_ok_def by (metis fst_conv)+
  obtain r bc' where a: "AddBlock P S keys b bc = (r, bc')" by force
  have "r = Ok ()"
    using a ser sealed w s1 s2 get_block [OF inv(1) assms(2)] last_block_eq [OF inv last]
    by (auto simp: AddBlock_def Let_def split: option.splits if_splits)
  then show ?thesis using that [of bc'] a AddBlock_cases [OF assms(1,2) a last] assms(1) by (auto split: if_splits)
qed

text \<open>
  The first \<open>n\<close> blocks of the chain have arrived. The newest comes first, and becomes the tip at once,
  before its predecessors are there.
\<close>

definition fetched :: "Prims \<Rightarrow> authorizedKeys \<Rightarrow> Block list \<Rightarrow> nat \<Rightarrow> 's Blockchain \<Rightarrow> bool" where
  "fetched P keys bs n bc \<longleftrightarrow> bc_synced inv tipv bc \<and>
     (\<forall>c \<in> set bs. case blk (db bc) (Hash c) of None \<Rightarrow> block_sealed P keys c = Ok () | Some d \<Rightarrow> d = Serialize P c) \<and>
     (\<forall>c \<in> set (take n bs). blk (db bc) (Hash c) = Some (Serialize P c)) \<and>
     (if n = 0 then blk (db bc) (Hash (hd bs)) = None \<and>
        (\<exists>lastB. BC_GetBlock P S (db bc) (tip bc) = Ok lastB \<and> sint (Height lastB) < sint (Height (hd bs)))
      else tip bc = Hash (hd bs))"

lemma fetched_reads:
  assumes "gob_ok P" and "\<forall>c \<in> set bs. okh (Hash c)" and "fetched P keys bs n bc" and "c \<in> set (take n bs)"
  shows "BC_GetBlock P S (db bc) (Hash c) = Ok c"
  using assms(2-4) DeserializeBlock_Serialize [OF assms(1), of c] in_set_takeD [OF assms(4)]
  by (simp add: fetched_def BC_GetBlock_eq bc_synced_def)

lemma fetched_step:
  assumes "gob_ok P" and good: "good_chain lk h bs" and okh: "\<forall>c \<in> set bs. okh (Hash c)"
    and "writes_ok S inv"
    and f: "fetched P keys bs n bc" and n: "n < length bs"
  obtains bc' where "AddBlock P S keys (bs ! n) bc = (Ok (), bc')" and "fetched P keys bs (Suc n) bc'"
proof -
  let ?c = "bs ! n"
  have c: "?c \<in> set bs" using n by simp
  have ne: "bs \<noteq> []" using n by auto
  have sy: "bc_synced inv tipv bc" using f by (simp add: fetched_def)
  obtain lastB where last: "BC_GetBlock P S (db bc) (tip bc) = Ok lastB"
    and low: "if n = 0 then sint (Height lastB) < sint (Height ?c) else sint (Height ?c) \<le> sint (Height lastB)"
  proof (cases "n = 0")
    case True
    then show ?thesis using f that ne by (auto simp: fetched_def hd_conv_nth)
  next
    case False
    then have "hd bs \<in> set (take n bs)" using ne by (cases bs; cases n) auto
    from fetched_reads [OF assms(1) okh f this] have "BC_GetBlock P S (db bc) (tip bc) = Ok (hd bs)"
      using f False by (simp add: fetched_def)
    then show ?thesis using that [of "hd bs"] False good_chain_hashes(3) [OF good c] by simp
  qed
  have sealed: "block_sealed P keys ?c = Ok ()" if "blk (db bc) (Hash ?c) = None"
    using f c that by (force simp: fetched_def split: option.splits)
  obtain bc' where a: "AddBlock P S keys ?c bc = (Ok (), bc')" "bc_synced inv tipv bc'"
    "blk (db bc') = (if blk (db bc) (Hash ?c) = None then (blk (db bc))(Hash ?c \<mapsto> Serialize P ?c) else blk (db bc))"
    "tip bc' = (if blk (db bc) (Hash ?c) = None \<and> sint (Height ?c) > sint (Height lastB) then Hash ?c else tip bc)"
    using AddBlock_ok [OF sy _ good_chain_hashes(2) [OF good c] sealed assms(1) last assms(4)] okh c by blast
  have inj: "x = y" if "x \<in> set bs" "y \<in> set bs" "Hash x = Hash y" for x y
    using good_chain_hashes(1) [OF good] that by (metis distinct_map inj_onD)
  have blk': "blk (db bc') (Hash x) = (if x = ?c then Some (Serialize P ?c) else blk (db bc) (Hash x))" if "x \<in> set bs" for x
    using a(3) f c that inj [OF that c] by (auto simp: fetched_def split: option.splits)
  have "tip bc' = Hash (hd bs)" using a(4) low f ne by (auto simp: fetched_def hd_conv_nth split: if_splits)
  moreover have "blk (db bc') (Hash x) = Some (Serialize P x)" if "x \<in> set (take (Suc n) bs)" for x
    using that blk' [OF in_set_takeD [OF that]] f n by (auto simp: take_Suc_conv_app_nth fetched_def)
  ultimately have "fetched P keys bs (Suc n) bc'" using a(2) blk' f by (auto simp: fetched_def)
  with a(1) show ?thesis by (rule that)
qed

lemma fetched_all:
  assumes "gob_ok P" and "good_chain lk h bs" and "\<forall>c \<in> set bs. okh (Hash c)" and "fetched P keys bs (length bs) bc"
  shows "good_chain (BC_GetBlock P S (db bc)) (tip bc) bs"
proof -
  have "bs \<noteq> []" and h: "h = Hash (hd bs)" using good_chain_hd [OF assms(2)] by auto
  then have "tip bc = h" using assms(4) by (simp add: fetched_def)
  then show ?thesis
    using good_chain_cong [OF assms(2)] good_chain_lookup [OF assms(2)] fetched_reads [OF assms(1,3,4)] by simp
qed

end

lemma answer_inv:
  assumes "nprims_ok (nprims EA)" and "nprims EB = nprims EA" and "length (inv_frame EA a (h # hs)) \<le> maxMsgSize" and "h \<notin> set hs"
  shows "handleConnection EB (Ok (inv_frame EA a (h # hs))) B =
    (Ok (), sendData EB a (getdata_frame EB (nodeAddress B) h) (B\<lparr>blocksInTransit := hs\<rparr>))"
proof -
  have d: "decode (ungob_inv (nprims EB)) (inv_frame EA a (h # hs)) = Ok \<lparr>inv_AddrFrom = a, inv_Type = ''block'', inv_Items = h # hs\<rparr>"
    using decode_frames(2) [OF assms(1)] by (simp add: assms(2))
  have "filter (\<lambda>b. b \<noteq> h) hs = hs" using assms(4) by (auto simp: filter_id_conv)
  then show ?thesis
    using d dispatch_frames(2) [OF assms(3), of EB B] by (simp add: handleInv_def logged_def sendGetData_block)
qed

lemma answer_block:
  assumes "nprims_ok (nprims EA)" and "nprims EB = nprims EA" and "prims EB = prims EA" and "gob_ok (prims EA)"
    and "length (block_frame EA a c) \<le> maxMsgSize"
    and "AddBlock (prims EA) (store EB) (authority_keys EB) c (srv_bc B) = (Ok (), bc)"
  shows "handleConnection EB (Ok (block_frame EA a c)) B =
    (case blocksInTransit B of
       h # hs \<Rightarrow> (Ok (), sendData EB a (getdata_frame EB (nodeAddress B) h) ((accepted c bc B)\<lparr>blocksInTransit := hs\<rparr>))
     | [] \<Rightarrow> reindex_logged EB (accepted c bc B))"
proof -
  have d: "decode (ungob_blockm (nprims EB)) (block_frame EA a c) = Ok \<lparr>block_AddrFrom = a, block_Block = Serialize (prims EA) c\<rparr>"
    using decode_frames(1) [OF assms(1)] by (simp add: assms(2))
  have ser: "DeserializeBlock (prims EB) (block_Block \<lparr>block_AddrFrom = a, block_Block = Serialize (prims EA) c\<rparr>) = Ok c"
    using DeserializeBlock_Serialize [OF assms(4)] by (simp add: assms(3))
  have add: "AddBlock (prims EB) (store EB) (authority_keys EB) c (srv_bc B) = (Ok (), bc)" using assms(3,6) by simp
  show ?thesis
    unfolding dispatch_frames(1) [OF assms(5)] handleBlock_eq [OF d ser add]
    by (simp add: logged_def sendGetData_block split: list.split)
qed

text \<open>
  A node that learns of a greater height asks for blocks, and one that learns of a smaller height
  says its own. Either way it now knows its peer.
\<close>

definition meet :: "string \<Rightarrow> 's Server \<Rightarrow> 's Server" where
  "meet a s = show_peers (if nodeIsKnown s a then s else s\<lparr>knownNodes := knownNodes s @ [a]\<rparr>)"

lemma meet_simps [simp]:
  "srv_bc (meet a s) = srv_bc s" "nodeAddress (meet a s) = nodeAddress s" "blocksInTransit (meet a s) = blocksInTransit s"
  "net (meet a s) = net s"
  by (simp_all add: meet_def)

lemma answer_version:
  assumes "nprims_ok (nprims EA)" and "nprims EB = nprims EA" and "length (version_frame EA a h) \<le> maxMsgSize"
    and best: "GetBestHeight (prims EB) (store EB) (srv_bc B) = Ok my"
  shows "sint my < sint h \<Longrightarrow>
      snd (handleConnection EB (Ok (version_frame EA a h)) B) = meet a (sendData EB a (getblocks_frame EB (nodeAddress B)) B)"
    and "sint h < sint my \<Longrightarrow>
      snd (handleConnection EB (Ok (version_frame EA a h)) B) = meet a (sendData EB a (version_frame EB (nodeAddress B) my) B)"
proof -
  have dec: "decode (ungob_verzion (nprims EB)) (version_frame EA a h) = Ok \<lparr>Version = nodeVersion, BestHeight = h, verzion_AddrFrom = a\<rparr>"
    using decode_sent(6) [OF assms(1)] by (simp add: version_frame_def assms(2))
  have conn: "handleConnection EB (Ok (version_frame EA a h)) B = handleVersion EB (version_frame EA a h) B"
    using assms(3) by (simp add: version_frame_def handleConnection_frame)
  show "sint my < sint h \<Longrightarrow>
      snd (handleConnection EB (Ok (version_frame EA a h)) B) = meet a (sendData EB a (getblocks_frame EB (nodeAddress B)) B)"
    using best unfolding conn handleVersion_def dec by (simp add: logged_def sendGetBlocks_def send_cmd_frame getblocks_frame_def meet_def)
  show "sint h < sint my \<Longrightarrow>
      snd (handleConnection EB (Ok (version_frame EA a h)) B) = meet a (sendData EB a (version_frame EB (nodeAddress B) my) B)"
    using best unfolding conn handleVersion_def dec by (simp add: logged_def sendVersion_def send_cmd_frame version_frame_def meet_def)
qed

lemma hello_version:
  assumes "knownNodes B = a # ks" and "a \<noteq> []" and "nodeAddress B \<noteq> a"
    and "GetBestHeight (prims EB) (store EB) (srv_bc B) = Ok my"
  shows "snd (Start_hello EB B) = show_pool (show_peers (show_height my (sendData EB a (version_frame EB (nodeAddress B) my) B)))"
  using assms quiet_sel(2) [OF sendData_quiet, of EB a _ B]
  by (simp add: Start_hello_def sendVersion_def logged_def send_cmd_frame version_frame_def)

section \<open>The download\<close>

text \<open>
  Two nodes that share codec and library, reach each other, and whose messages are not too long.
\<close>

definition linked :: "'s Env \<Rightarrow> 't Env \<Rightarrow> string \<Rightarrow> string \<Rightarrow> Block list \<Rightarrow> bool" where
  "linked EA EB a b bs \<longleftrightarrow>
     nprims_ok (nprims EA) \<and> nprims EB = nprims EA \<and> prims EB = prims EA \<and> gob_ok (prims EA) \<and>
     (\<forall>log. dial EA log b) \<and> (\<forall>log. dial EB log a) \<and>
     (\<forall>h. length (version_frame EA a h) \<le> maxMsgSize \<and> length (version_frame EB b h) \<le> maxMsgSize) \<and>
     length (getblocks_frame EB b) \<le> maxMsgSize \<and> length (inv_frame EA a (map Hash bs)) \<le> maxMsgSize \<and>
     (\<forall>c \<in> set bs. length (block_frame EA a c) \<le> maxMsgSize \<and> length (getdata_frame EB b (Hash c)) \<le> maxMsgSize)"

lemma sendData_dialled: "dial E (net s) a \<Longrightarrow> sendData E a d s = s\<lparr>net := net s @ [(a, d, True)]\<rparr>"
  by (simp add: sendData_def Let_def)

text \<open>One block: the peer serves it, the node takes it and asks for the next one, or is done.\<close>

lemma serve_block:
  assumes "linked EA EB (nodeAddress A) b bs" and "c \<in> set bs"
    and "BC_GetBlock (prims EA) (store EA) (db (srv_bc A)) (Hash c) = Ok c"
  obtains A1 where "snd (handleConnection EA (Ok (getdata_frame EB b (Hash c))) A) = A1"
    and "heard A A1 b = [block_frame EA (nodeAddress A) c]" and "nodeAddress A1 = nodeAddress A" and "srv_bc A1 = srv_bc A"
    and "mempool A1 = mempool A"
proof -
  let ?A1 = "A\<lparr>net := net A @ [(b, block_frame EA (nodeAddress A) c, True)]\<rparr>"
  have "snd (handleConnection EA (Ok (getdata_frame EB b (Hash c))) A) = ?A1"
    using answer_getdata [of EA EB b "Hash c" A c] assms sendData_dialled [of EA A b] by (simp add: linked_def)
  then show ?thesis using that by (simp add: heard_def)
qed

lemma take_block:
  assumes "linked EA EB a (nodeAddress B) bs" and "c \<in> set bs"
    and "AddBlock (prims EA) (store EB) (authority_keys EB) c (srv_bc B) = (Ok (), bc)"
  obtains B1 where "snd (handleConnection EB (Ok (block_frame EA a c)) B) = B1" and "nodeAddress B1 = nodeAddress B"
    and "case blocksInTransit B of
        h # hs \<Rightarrow> heard B B1 a = [getdata_frame EB (nodeAddress B) h] \<and> srv_bc B1 = bc \<and> blocksInTransit B1 = hs
      | [] \<Rightarrow> heard B B1 a = [] \<and> srv_bc B1 = snd (Reindex (prims EA) (store EB) (utxo_order EB) bc) \<and> blocksInTransit B1 = []"
    and "\<forall>k. map_of (mempool B1) k = (if k \<in> tx_key ` set (Transactions c) then None else map_of (mempool B) k)"
proof (cases "blocksInTransit B")
  case Nil
  let ?B1 = "(accepted c bc B)\<lparr>srv_bc := snd (Reindex (prims EA) (store EB) (utxo_order EB) bc)\<rparr>"
  have "handleConnection EB (Ok (block_frame EA a c)) B = reindex_logged EB (accepted c bc B)"
    using answer_block [of EA EB a c B bc] assms Nil by (simp add: linked_def)
  then have "snd (handleConnection EB (Ok (block_frame EA a c)) B) = ?B1"
    using assms(1) by (simp add: linked_def reindex_logged_def logged_def split: prod.split result.split)
  then show ?thesis using that Nil by (simp add: heard_def)
next
  case (Cons h hs)
  let ?B1 = "(accepted c bc B)\<lparr>blocksInTransit := hs, net := net B @ [(a, getdata_frame EB (nodeAddress B) h, True)]\<rparr>"
  have "snd (handleConnection EB (Ok (block_frame EA a c)) B) = ?B1"
    using answer_block [of EA EB a c B bc] assms Cons sendData_dialled [of EB "(accepted c bc B)\<lparr>blocksInTransit := hs\<rparr>" a]
    by (simp add: linked_def)
  then show ?thesis using that Cons by (simp add: heard_def)
qed

lemma talk_blocks:
  assumes "linked EA EB (nodeAddress A) (nodeAddress B) bs"
    and good: "good_chain (BC_GetBlock (prims EA) (store EA) (db (srv_bc A))) (tip (srv_bc A)) bs"
    and keys: "\<forall>c \<in> set bs. block_key (Hash c)"
    and S: "store EB = bolt_storage K" and W: "writes_ok (bolt_storage K) (bolt_inv K)" and O: "is_order (utxo_order EB)"
    and "n < length bs" and "bolt.fetched K (prims EA) (authority_keys EB) bs n (srv_bc B)" and "blocksInTransit B = map Hash (drop (Suc n) bs)"
  shows "\<exists>A' B' bc. talk EA EB [getdata_frame EB (nodeAddress B) (Hash (bs ! n))] A B = Some (A', B') \<and>
    srv_bc A' = srv_bc A \<and> blocksInTransit B' = [] \<and> bolt.fetched K (prims EA) (authority_keys EB) bs (length bs) bc \<and>
    srv_bc B' = snd (Reindex (prims EA) (bolt_storage K) (utxo_order EB) bc)"
  using assms(1,2,7-9)
proof (induction "length bs - n" arbitrary: n A B)
  case (Suc k)
  let ?c = "bs ! n" and ?a = "nodeAddress A" and ?b = "nodeAddress B"
  have c: "?c \<in> set bs" using Suc.prems(3) by simp
  obtain A1 where A1: "snd (handleConnection EA (Ok (getdata_frame EB ?b (Hash ?c))) A) = A1" "heard A A1 ?b = [block_frame EA ?a ?c]"
    and eA: "nodeAddress A1 = ?a" "srv_bc A1 = srv_bc A"
    by (rule serve_block [OF Suc.prems(1) c good_chain_lookup [OF Suc.prems(2) c]])
  obtain bc where add: "AddBlock (prims EA) (store EB) (authority_keys EB) ?c (srv_bc B) = (Ok (), bc)"
    and f: "bolt.fetched K (prims EA) (authority_keys EB) bs (Suc n) bc"
    using bolt.fetched_step [OF _ good keys W Suc.prems(4,3)] Suc.prems(1) S by (auto simp: linked_def)
  obtain B1 where B1: "snd (handleConnection EB (Ok (block_frame EA ?a ?c)) B) = B1" and eB: "nodeAddress B1 = ?b"
    and next_req: "case blocksInTransit B of
        h # hs \<Rightarrow> heard B B1 ?a = [getdata_frame EB ?b h] \<and> srv_bc B1 = bc \<and> blocksInTransit B1 = hs
      | [] \<Rightarrow> heard B B1 ?a = [] \<and> srv_bc B1 = snd (Reindex (prims EA) (store EB) (utxo_order EB) bc) \<and> blocksInTransit B1 = []"
    by (rule take_block [OF Suc.prems(1) c add])
  note t = talk_step [OF A1 B1]
  show ?case
  proof (cases "Suc n < length bs")
    case True
    then have "blocksInTransit B = Hash (bs ! Suc n) # map Hash (drop (Suc (Suc n)) bs)"
      using Suc.prems(5) by (simp add: Cons_nth_drop_Suc [symmetric])
    then have h: "heard B B1 ?a = [getdata_frame EB ?b (Hash (bs ! Suc n))]" "srv_bc B1 = bc" "blocksInTransit B1 = map Hash (drop (Suc (Suc n)) bs)"
      using next_req by simp_all
    have k: "k = length bs - Suc n" using Suc.hyps(2) by simp
    show ?thesis using Suc.hyps(1) [OF k, of A1 B1] Suc.prems(1,2) True f h by (simp add: t eA eB)
  next
    case False
    then have n: "Suc n = length bs" and "blocksInTransit B = []" using Suc.prems(3,5) by simp_all
    then have h: "heard B B1 ?a = []" "srv_bc B1 = snd (Reindex (prims EA) (store EB) (utxo_order EB) bc)" "blocksInTransit B1 = []"
      using next_req by simp_all
    show ?thesis
      using f n S h eA by (intro exI [of _ A1] exI [of _ B1] exI [of _ bc]) (simp add: t talk.simps [of _ _ "[]"])
  qed
qed simp

text \<open>Asked for blocks, the peer sends its chain.\<close>

lemma getblocks_downloads:
  assumes "linked EA EB (nodeAddress A) (nodeAddress B) bs"
    and "good_chain (BC_GetBlock (prims EA) (store EA) (db (srv_bc A))) (tip (srv_bc A)) bs"
    and "\<forall>c \<in> set bs. block_key (Hash c)"
    and "store EB = bolt_storage K" and "writes_ok (bolt_storage K) (bolt_inv K)" and "is_order (utxo_order EB)"
    and "bc_synced (bolt_inv K) (bolt_tip K) (srv_bc B)"
    and "BC_GetBlock (prims EA) (bolt_storage K) (db (srv_bc B)) (tip (srv_bc B)) = Ok lastB"
    and "sint (Height lastB) < sint (Height (hd bs))" and "bolt_blk K (db (srv_bc B)) (tip (srv_bc A)) = None"
    and "\<forall>c \<in> set bs. case bolt_blk K (db (srv_bc B)) (Hash c) of
      None \<Rightarrow> block_sealed (prims EA) (authority_keys EB) c = Ok () | Some d \<Rightarrow> d = Serialize (prims EA) c"
  shows "\<exists>A' B'. talk EA EB [getblocks_frame EB (nodeAddress B)] A B = Some (A', B') \<and> srv_bc A' = srv_bc A \<and>
    tip (srv_bc B') = tip (srv_bc A) \<and> blocksInTransit B' = [] \<and>
    good_chain (BC_GetBlock (prims EA) (bolt_storage K) (db (srv_bc B'))) (tip (srv_bc B')) bs"
proof -
  note N = assms(1) [unfolded linked_def]
  let ?P = "prims EA" and ?a = "nodeAddress A" and ?b = "nodeAddress B"
  obtain c cs where bs: "bs = c # cs" and h: "Hash c = tip (srv_bc A)" using good_chain_hd [OF assms(2)] by auto
  have nh: "Hash c \<notin> set (map Hash cs)" using good_chain_hashes(1) [OF assms(2)] by (simp add: bs)
  define A1 where "A1 = A\<lparr>net := net A @ [(?b, inv_frame EA ?a (map Hash bs), True)]\<rparr>"
  have A1: "snd (handleConnection EA (Ok (getblocks_frame EB ?b)) A) = A1" "heard A A1 ?b = [inv_frame EA ?a (map Hash bs)]"
    using answer_getblocks [of EA EB ?b A bs] N good_chain_chain [OF assms(2)] sendData_dialled [of EA A ?b]
    by (simp_all add: A1_def heard_def)
  define B1 where "B1 = B\<lparr>blocksInTransit := map Hash cs, net := net B @ [(?a, getdata_frame EB ?b (Hash c), True)]\<rparr>"
  have B1: "snd (handleConnection EB (Ok (inv_frame EA ?a (map Hash bs))) B) = B1"
    using answer_inv [of EA EB ?a "Hash c" "map Hash cs" B] N nh sendData_dialled [of EB "B\<lparr>blocksInTransit := map Hash cs\<rparr>" ?a]
    by (simp add: B1_def bs)
  have "heard B B1 ?a = [getdata_frame EB ?b (Hash c)]" by (simp add: heard_def B1_def)
  then have t: "talk EA EB [getblocks_frame EB ?b] A B = talk EA EB [getdata_frame EB ?b (Hash c)] A1 B1"
    using talk_step [OF A1 B1] by simp
  have e: "nodeAddress A1 = ?a" "srv_bc A1 = srv_bc A" "nodeAddress B1 = ?b" "srv_bc B1 = srv_bc B" "blocksInTransit B1 = map Hash cs"
    by (simp_all add: A1_def B1_def)
  have f: "bolt.fetched K ?P (authority_keys EB) bs 0 (srv_bc B)"
    using assms(7-11) h unfolding bolt.fetched_def by (simp add: bs)
  obtain A' B' bc where r: "talk EA EB [getdata_frame EB ?b (Hash c)] A1 B1 = Some (A', B')" "srv_bc A' = srv_bc A"
    "blocksInTransit B' = []" "bolt.fetched K ?P (authority_keys EB) bs (length bs) bc"
    "srv_bc B' = snd (Reindex ?P (bolt_storage K) (utxo_order EB) bc)"
    using talk_blocks [of EA EB A1 B1 bs K 0] assms(1-6) f e by (auto simp: bs)
  have g: "good_chain (BC_GetBlock ?P (bolt_storage K) (db bc)) (tip bc) bs"
    using bolt.fetched_all [OF _ assms(2,3) r(4)] N by blast
  have inv: "bolt_inv K (db bc)" "tip bc = Hash c" using r(4) by (simp_all add: bolt.fetched_def bc_synced_def bs)
  have "good_chain (BC_GetBlock ?P (bolt_storage K) (db (srv_bc B'))) (tip (srv_bc B')) bs"
    using bolt.Reindex_good_chain [OF _ inv(1) assms(6) g assms(3)] N r(5) by simp
  moreover from good_chain_hd [OF this] have "tip (srv_bc B') = Hash c" by (auto simp: bs)
  ultimately show ?thesis using t r h by auto
qed


section \<open>The gauge of the height\<close>

text \<open>
  A block of its own chain that a peer sends back to a node changes nothing in the chain, and yet the gauge
  for the height of the tip is set to the height of that block: with the genesis block any peer
  makes it fall to zero.
\<close>

theorem height_gauge_misled:
  assumes "nprims_ok (nprims E)" and "gob_ok (prims E)" and "length (block_frame E a c) \<le> maxMsgSize"
    and S: "store E = bolt_storage K" and "is_order (utxo_order E)"
    and sy: "bc_synced (bolt_inv K) (bolt_tip K) (srv_bc s)"
    and good: "good_chain (BC_GetBlock (prims E) (bolt_storage K) (db (srv_bc s))) (tip (srv_bc s)) bs"
    and keys: "\<forall>c \<in> set bs. block_key (Hash c)" and c: "c \<in> set bs"
  shows "let s' = snd (handleConnection E (Ok (block_frame E a c)) s) in
    GetBestHeight (prims E) (store E) (srv_bc s') = Ok (Height (hd bs)) \<and> BlockchainHeight (prom s') = float64 (sint (Height c))"
proof -
  let ?P = "prims E" and ?bc = "srv_bc s" and ?s' = "snd (handleConnection E (Ok (block_frame E a c)) s)"
  obtain d where "GetBlock (bolt_storage K) (Hash c) (db ?bc) = Ok d"
    using good_chain_lookup [OF good c] by (auto simp: BC_GetBlock_def bind_result_eq_Ok wrap_err_eq_Ok split: result.splits)
  then have add: "AddBlock ?P (store E) (authority_keys E) c ?bc = (Ok (), ?bc)" by (simp add: AddBlock_def S)
  note conn = answer_block [OF assms(1) refl refl assms(2,3) add]
  have h: "GetBestHeight ?P (bolt_storage K) ?bc = Ok (Height (hd bs))"
    using bolt.GetBestHeight_eq [OF sy] good_chain_hd [OF good] by auto
  show ?thesis
  proof (cases "blocksInTransit s")
    case Nil
    obtain r bc' where re: "Reindex ?P (bolt_storage K) (utxo_order E) ?bc = (r, bc')" by fastforce
    have s': "?s' = (accepted c ?bc s)\<lparr>srv_bc := bc'\<rparr>"
      using conn Nil re by (simp add: reindex_logged_def logged_def S split: result.split)
    have "bolt_inv K (db ?bc)" using sy by (simp add: bc_synced_def)
    from bolt.Reindex_good_chain [OF assms(2) this assms(5) good keys]
    have "good_chain (BC_GetBlock ?P (bolt_storage K) (db bc')) (tip bc') bs" by (simp add: re)
    then have "GetBestHeight ?P (bolt_storage K) bc' = Ok (Height (hd bs))"
      using bolt.GetBestHeight_eq [OF bolt.Reindex_synced [OF sy re]] good_chain_hd by fastforce
    then show ?thesis by (simp add: s' S)
  next
    case (Cons x xs)
    define s1 where "s1 = (accepted c ?bc s)\<lparr>blocksInTransit := xs\<rparr>"
    have "?s' = sendData E a (getdata_frame E (nodeAddress s) x) s1" using conn Cons by (simp add: s1_def)
    then have q: "quiet s1 ?s'" by simp
    show ?thesis using quiet_sel(2,12) [OF q] h S by (simp add: s1_def)
  qed
qed

section \<open>A concrete download\<close>

lemma list_writes_ok: "writes_ok list_storage (bolt_inv list_bbolt)"
  using list_SaveBlockAndTip
  by (auto simp: writes_ok_def bolt_inv_def bolt_storage_def DB_SaveBlock_def) (auto simp: list_bbolt_def)

text \<open>Transactions with one input and one output, and blocks with few of them, fit a message.\<close>

definition small_tx :: "Transaction \<Rightarrow> bool" where
  "small_tx t \<longleftrightarrow> length (ID t) \<le> 32 \<and>
     (\<exists>vin out. Vin t = [vin] \<and> Vout t = [out] \<and> length (Txid vin) \<le> 32 \<and> length (Signature vin) \<le> 64 \<and> length (PubKey vin) \<le> 64 \<and>
        EscrowWitness vin = [] \<and> length (PubKeyHash out) \<le> 32 \<and> length (DataHashLock out) \<le> 32 \<and> length (BuyerPubKeyHash out) \<le> 32)"

lemma small_tx_length:
  assumes "small_tx t"
  shows "length (enc_tx t) \<le> 1000"
proof -
  obtain vin out where t: "Vin t = [vin]" "Vout t = [out]" "length (Txid vin) \<le> 32" "length (Signature vin) \<le> 64" "length (PubKey vin) \<le> 64"
    "EscrowWitness vin = []" "length (PubKeyHash out) \<le> 32" "length (DataHashLock out) \<le> 32"
    "length (BuyerPubKeyHash out) \<le> 32" "length (ID t) \<le> 32" using assms by (auto simp: small_tx_def)
  show ?thesis
    using t(3-10) length_enc(3) [of "Vout_in vin"] length_enc(3) [of "Value out"] length_enc(3) [of "TimeoutBlock out"]
    by (simp add: enc_tx_def t(1,2) enc_in_def enc_out_def enc_byte_def enc_bool_def length_enc(1,2))
qed

lemma length_sample_pkh: "length (HashPubKey sample_prims x) = 20"
  using sample_ripemd160_ok by (simp add: HashPubKey_def ripemd160_ok_def)

lemma sample_coinbase_small: "small_tx sample_coinbase"
  by (simp add: small_tx_def sample_coinbase_def sample_out_def length_sample_pkh sample_hash_def)

lemma length_block_frame:
  assumes "length (Transactions c) \<le> 3" and "\<forall>t \<in> set (Transactions c). small_tx t"
    and "length (PrevBlockHash c) \<le> 32" and "length (Hash c) \<le> 32"
    and "AuthoritySignature c = []" and "AuthorityPubKey c = []" and "length a \<le> 100"
  shows "length (block_frame sample_env a c) \<le> maxMsgSize"
proof -
  have "length (concat (map enc_tx ts)) \<le> 1000 * length ts" if "\<forall>t \<in> set ts. small_tx t" for ts
    using that by (induction ts) (auto dest!: small_tx_length)
  from this [OF assms(2)] have "length (enc_block c) \<le> 4000"
    using assms(1,3-6) length_enc(3) [of "Timestamp c"] length_enc(3) [of "Nonce c"] length_enc(3) [of "Height c"]
      length_enc(3) [of "Bits c"] by (simp add: enc_block_def length_enc(1,2))
  moreover have "Serialize sample_prims c = enc_block c" by (simp add: Serialize_def sample_prims_def)
  ultimately show ?thesis
    using assms(7) by (simp add: block_frame_def frame_def sample_nprims_def gobEncode_def enc_str_def length_enc(2) maxMsgSize_def)
qed

lemma length_request_frames:
  assumes "length a \<le> 100"
  shows "length (getblocks_frame sample_env a) \<le> maxMsgSize"
    and "length h \<le> 100 \<Longrightarrow> length (getdata_frame sample_env a h) \<le> maxMsgSize"
    and "length h \<le> 100 \<Longrightarrow> length (inv_frame sample_env a [h, [7]]) \<le> maxMsgSize"
    and "length h \<le> 100 \<Longrightarrow> length (inv_frame sample_env a [h]) \<le> maxMsgSize"
    and "length (version_frame sample_env a w) \<le> maxMsgSize"
  using assms length_enc(3) [of nodeVersion] length_enc(3) [of w]
  by (simp_all add: version_frame_def getblocks_frame_def getdata_frame_def inv_frame_def frame_def sample_nprims_def gobEncode_def enc_str_def length_enc(1,2) maxMsgSize_def)

text \<open>Mining on a chain of one sample block.\<close>

lemma sample_mined:
  assumes "bc_synced (bolt_inv list_bbolt) (bolt_tip list_bbolt) bc" and "tip bc = [7]" and "dom (bolt_blk list_bbolt (db bc)) \<subseteq> {[7]}"
    and good: "good_chain (BC_GetBlock sample_prims list_storage (db bc)) (tip bc) [sample_block ts]"
    and v: "verify_all sample_prims list_storage bc txs = Ok ()" "txs \<noteq> []"
  obtains nb bc' where "MineBlock sample_prims list_storage Background 5 txs bc = (Ok nb, bc')"
    and "NewBlock sample_prims Background 5 txs [7] 1 16 = Ok nb" and "sint (Nonce nb) < maxNonce"
    and "length (Hash nb) = 32" and "bolt_blk list_bbolt (db bc) (Hash nb) = None"
proof -
  obtain nb where nb: "NewBlock sample_prims Background 5 txs [7] 1 16 = Ok nb" "sint (Nonce nb) < maxNonce"
    using sample_NewBlock [OF v(2), of Background 16 5 "[7]" 1] by (auto simp: Background_def)
  have last: "BC_GetBlock sample_prims list_storage (db bc) (tip bc) = Ok (sample_block ts)"
    using good_chain_hd [OF good] by auto
  obtain nb' bc' where m: "MineBlock sample_prims list_storage Background 5 txs bc = (Ok nb', bc')"
    using list_mine [OF assms(1) last v] by blast
  have "NewBlock sample_prims Background 5 txs (tip bc) (Height (sample_block ts) + 1) (eff_bits (sample_block ts)) = Ok nb'"
    using bolt.MineBlock_cases [OF assms(1) sample_sha256_ok length_32_block_key good _ m] by auto
  then have "nb' = nb" using nb(1) assms(2) by (simp add: eff_bits_def)
  moreover have len: "length (Hash nb) = 32" using NewBlock_OkD(8) [OF nb(1)] by simp
  then have "Hash nb \<noteq> [7]" by auto
  then have "bolt_blk list_bbolt (db bc) (Hash nb) = None" using assms(3) by blast
  ultimately show ?thesis using that m nb len by blast
qed


end
