(* ===== verification/Payment.thy ===== *)
theory Payment
  imports Sync
begin

text \<open>
  The way of a transaction through the network: a client hands it to the first node, which tells the
  miner about it; the miner fetches it, mines it together with what it had in its pool, and announces
  the block; the first node downloads the block. This composes \<^verbatim>\<open>SubmitTransaction\<close>,
  \<^verbatim>\<open>handleInv\<close>, \<^verbatim>\<open>handleGetData\<close>, \<^verbatim>\<open>handleTx\<close> with its mining loop, and \<^verbatim>\<open>handleBlock\<close>.
\<close>

section \<open>Frames of transactions\<close>

definition inv_tx_frame :: "'s Env \<Rightarrow> string \<Rightarrow> bytes \<Rightarrow> bytes" where
  "inv_tx_frame E self i = frame ''inv''
     (gobEncode (gob_inv (nprims E) \<lparr>inv_AddrFrom = self, inv_Type = ''tx'', inv_Items = [i]\<rparr>))"

definition getdata_tx_frame :: "'s Env \<Rightarrow> string \<Rightarrow> bytes \<Rightarrow> bytes" where
  "getdata_tx_frame E self i = frame ''getdata''
     (gobEncode (gob_getdata (nprims E) \<lparr>getdata_AddrFrom = self, getdata_Type = ''tx'', getdata_ID = i\<rparr>))"

definition tx_frame :: "'s Env \<Rightarrow> string \<Rightarrow> Transaction \<Rightarrow> bytes" where
  "tx_frame E self t = frame ''tx''
     (gobEncode (gob_txm (nprims E) \<lparr>tx_AddFrom = self, tx_Transaction = Serialize_tx (prims E) t\<rparr>))"

text \<open>The messages about a transaction between two nodes are not too long.\<close>

definition tx_fits :: "'s Env \<Rightarrow> 't Env \<Rightarrow> string \<Rightarrow> string \<Rightarrow> Transaction \<Rightarrow> bool" where
  "tx_fits EA EM a m t \<longleftrightarrow> length (inv_tx_frame EA a (ID t)) \<le> maxMsgSize \<and>
     length (getdata_tx_frame EM m (ID t)) \<le> maxMsgSize \<and> length (tx_frame EA a t) \<le> maxMsgSize"

section \<open>Steps\<close>

lemma update_fresh: "map_of m k = None \<Longrightarrow> AList.update k v m = m @ [(k, v)]"
  by (induction m) (auto split: if_splits)

lemma submit_announces:
  assumes "knownNodes A = [nodeAddress A, m]" and "m \<noteq> nodeAddress A" and "dial EA (net A) m"
    and "fst (SubmitTransaction EA (\<lambda>s. s) tx A) = Ok ()"
  shows "snd (SubmitTransaction EA (\<lambda>s. s) tx A) =
    (pool_tx tx A)\<lparr>net := net A @ [(m, inv_tx_frame EA (nodeAddress A) (ID tx), True)]\<rparr>"
proof -
  have "SubmitTransaction EA (\<lambda>s. s) tx A = SendTxToKnownNodes EA tx (pool_tx tx A)"
    using assms(4) SubmitTransaction_cases [of tx A EA "\<lambda>s. s"]
    by (auto simp: SubmitTransaction_def Let_def split: if_splits)
  then show ?thesis
    using assms(1-3) sendData_dialled [of EA "pool_tx tx A" m]
    by (simp add: SendTxToKnownNodes_def announce_def sendInv_def send_cmd_frame inv_tx_frame_def)
qed

lemma answer_inv_tx:
  assumes "nprims_ok (nprims EM)" and "nprims EA = nprims EM" and "length (inv_tx_frame EA a i) \<le> maxMsgSize"
    and "map_of (mempool M) (hex_encode i) = None"
  shows "snd (handleConnection EM (Ok (inv_tx_frame EA a i)) M) = sendData EM a (getdata_tx_frame EM (nodeAddress M) i) M"
  using assms decode_sent(4) [OF assms(1)]
  by (simp add: inv_tx_frame_def handleConnection_frame handleInv_def logged_def sendGetData_def send_cmd_frame getdata_tx_frame_def)

lemma answer_getdata_tx:
  assumes "nprims_ok (nprims EM)" and "nprims EA = nprims EM" and "length (getdata_tx_frame EM m i) \<le> maxMsgSize"
    and "map_of (mempool A) (hex_encode i) = Some tx"
  shows "snd (handleConnection EA (Ok (getdata_tx_frame EM m i)) A) = sendData EA m (tx_frame EA (nodeAddress A) tx) A"
  using assms decode_sent(3) [OF assms(1)]
  by (simp add: getdata_tx_frame_def handleConnection_frame handleGetData_def logged_def sendTx_def send_cmd_frame tx_frame_def)

lemma answer_tx:
  assumes "nprims_ok (nprims EM)" and "nprims EA = nprims EM" and "prims EA = prims EM" and "gob_ok (prims EM)"
    and "length (tx_frame EA a tx) \<le> maxMsgSize" and "\<not> is_first_node M" and "mine_loop EM 0 (pool_tx tx M) = Some out"
  shows "handleConnection EM (Ok (tx_frame EA a tx)) M = out"
proof -
  have "DeserializeTransaction (prims EM) (Serialize_tx (prims EM) tx) = Ok tx"
    by (rule gob_ok_tx [OF assms(4), of tx]) (simp add: DeserializeTransaction_def Serialize_tx_def)
  moreover have "\<not> is_first_node (pool_tx tx M)" using assms(6) by (simp add: is_first_node_def)
  ultimately show ?thesis
    using assms(2,3,5,7) decode_sent(5) [OF assms(1)]
    by (simp add: tx_frame_def handleConnection_frame handleTx_def logged_def)
qed

text \<open>
  A pool of two transactions is worth one round of mining; the block is announced to the only peer.
\<close>

lemma mine_pair:
  assumes "env_ok (bolt_storage B) E" and "srv_inv up (bolt_inv B) (bolt_tip B) s" and "gob_ok (prims E)" and "is_order (utxo_order E)"
    and "good_chain (BC_GetBlock (prims E) (bolt_storage B) (db (srv_bc s))) (tip (srv_bc s)) (b # bs)"
    and "\<forall>c \<in> set (b # bs). block_key (Hash c)" and "sint (Height b) < 2 ^ 63 - 1"
    and "length (mempool s) = 2" and "miningAddress s \<noteq> []" and "knownNodes s = [a]" and "a \<noteq> nodeAddress s" and "\<forall>l. dial E l a"
    and "collect_valid E (srv_bc s) (pool_order E (mempool s)) = Ok txs" and "txs \<noteq> []"
    and "NewCoinbaseTX (prims E) (coinbase_rand E 0) (miningAddress s) [] = Ok cb"
    and "MineBlock (prims E) (bolt_storage B) (mining_ctx E 0) (clock E 0) (txs @ [cb]) (srv_bc s) = (Ok nb, bc1)"
    and "bolt_blk B (db (srv_bc s)) (Hash nb) = None"
  obtains bc where
    "mine_loop E 0 s = Some (Ok (), (mined (mining_secs E 0) nb (txs @ [cb]) bc s)\<lparr>net := net s @ [(a, inv_frame E (nodeAddress s) [Hash nb], True)]\<rparr>)"
    and "Transactions nb = txs @ [cb]" and "block_key (Hash nb)"
    and "good_chain (BC_GetBlock (prims E) (bolt_storage B) (db bc)) (tip bc) (nb # b # bs)"
proof -
  have len: "2 \<le> length (mempool s)" and kn: "knownNodes s \<noteq> []" using assms(8,10) by simp_all
  obtain bc where r: "mine_round E 0 s = Inr (snd (announce E {} ''block'' (Hash nb) (mined (mining_secs E 0) nb (txs @ [cb]) bc s)))"
    and m: "Transactions nb = txs @ [cb]" "block_key (Hash nb)"
      "good_chain (BC_GetBlock (prims E) (bolt_storage B) (db bc)) (tip bc) (nb # b # bs)"
    using mine_round_Ok [OF assms(1-7) len assms(9) kn assms(13-17)] by metis
  define s' where "s' = (mined (mining_secs E 0) nb (txs @ [cb]) bc s)\<lparr>net := net s @ [(a, inv_frame E (nodeAddress s) [Hash nb], True)]\<rparr>"
  have "snd (announce E {} ''block'' (Hash nb) (mined (mining_secs E 0) nb (txs @ [cb]) bc s)) = s'"
    using assms(10-12) sendData_dialled [of E "mined (mining_secs E 0) nb (txs @ [cb]) bc s" a]
    by (simp add: s'_def announce_def sendInv_def send_cmd_frame inv_frame_def)
  with r have r': "mine_round E 0 s = Inr s'" by simp
  have "length (mempool s') < 2" using bolt_node.mine_round_inv [OF assms(1,2), of 0] r' assms(8) by simp
  then have "mine_loop E (Suc 0) s' = Some (Ok (), s')" by (subst mine_loop.simps) (simp add: mine_round_def)
  then have "mine_loop E 0 s = Some (Ok (), s')" by (subst mine_loop.simps) (simp add: r')
  then show ?thesis using that m unfolding s'_def by blast
qed

text \<open>A block mined on the tip of a node with the same chain extends that chain.\<close>

context storage
begin

lemma AddBlock_extends:
  assumes "bc_synced inv tipv bc" and "gob_ok P" and "writes_ok S inv"
    and good: "good_chain (BC_GetBlock P S (db bc)) (tip bc) (b # bs)" and oks: "\<forall>c \<in> set (b # bs). okh (Hash c)"
    and nb: "okh (Hash nb)" "Hash nb \<noteq> []" "PrevBlockHash nb = tip bc" "sint (Height nb) = sint (Height b) + 1"
    and "blk (db bc) (Hash nb) = None" and "block_sealed P keys nb = Ok ()"
  obtains bc' where "AddBlock P S keys nb bc = (Ok (), bc')" and "bc_synced inv tipv bc'"
    and "good_chain (BC_GetBlock P S (db bc')) (tip bc') (nb # b # bs)"
proof -
  have last: "BC_GetBlock P S (db bc) (tip bc) = Ok b" using good_chain_hd [OF good] by auto
  obtain bc' where a: "AddBlock P S keys nb bc = (Ok (), bc')" "bc_synced inv tipv bc'"
    "blk (db bc') = (blk (db bc))(Hash nb \<mapsto> Serialize P nb)" "tip bc' = Hash nb"
    using AddBlock_ok [OF assms(1) nb(1,2) _ assms(2) last assms(3), of keys] assms(10,11) nb(4) by auto
  have "inv (db bc)" "inv (db bc')" using assms(1) a(2) by (simp_all add: bc_synced_def)
  from save_extends_chain [OF this a(3) assms(2) nb(1,2)] have "good_chain (BC_GetBlock P S (db bc')) (tip bc') (nb # b # bs)"
    using good oks nb(3,4) assms(10) a(4) by simp
  then show ?thesis using that a(1,2) by blast
qed

text \<open>What a mined block is, for a peer that has the same chain.\<close>

lemma MineBlock_sealed:
  assumes "bc_synced inv tipv bc" and "sha256_ok P" and "\<And>h. length h = 32 \<Longrightarrow> okh h"
    and good: "good_chain (BC_GetBlock P S (db bc)) (tip bc) (b # bs)" and max: "sint (Height b) < 2 ^ 63 - 1"
    and "MineBlock P S ctx now txs bc = (Ok nb, bc')" and "sint (Nonce nb) < maxNonce"
  shows "block_sealed P keys nb = Ok ()" and "PrevBlockHash nb = tip bc" and "sint (Height nb) = sint (Height b) + 1" and "Hash nb \<noteq> []"
proof -
  have m: "NewBlock P ctx now txs (tip bc) (Height b + 1) (eff_bits b) = Ok nb"
    using MineBlock_cases [OF assms(1-6)] by auto
  note d = NewBlock_OkD [OF m]
  have "unat (256 - eff_bits nb) < 2 ^ 51" using d(10) by (simp add: NewProofOfWork_eq split: if_splits)
  moreover have "pow_valid P nb" using d(11) [OF assms(7)] unfolding pow_valid_def by metis
  ultimately show "block_sealed P keys nb = Ok ()" using d(6) by (simp add: block_sealed_Ok)
  show "PrevBlockHash nb = tip bc" by (rule d(3))
  show "sint (Height nb) = sint (Height b) + 1"
    using max good_chain_height [OF good, of 0] unfolding d(4) by (subst sint_add64) auto
  show "Hash nb \<noteq> []" using d(8) [OF assms(2)] by auto
qed

end

section \<open>From the client to the chain\<close>

text \<open>The transaction travels to the miner.\<close>

lemma tx_travels:
  assumes "linked EM EA (nodeAddress M) (nodeAddress A) bs" and "tx_fits EA EM (nodeAddress A) (nodeAddress M) tx"
    and "knownNodes A = [nodeAddress A, nodeAddress M]" and "nodeAddress M \<noteq> nodeAddress A"
    and "map_of (mempool M) (hex_encode (ID tx)) = None" and "SubmitTransaction EA (\<lambda>s. s) tx A = (Ok (), A0)"
  obtains M1 A1 lM lA where "talk EM EA (heard A A0 (nodeAddress M)) M A0 = talk EM EA [tx_frame EA (nodeAddress A) tx] M1 A1"
    and "M1 = M\<lparr>net := lM\<rparr>" and "A1 = (pool_tx tx A)\<lparr>net := lA\<rparr>"
proof -
  note N = assms(1) [unfolded linked_def] and F = assms(2) [unfolded tx_fits_def]
  let ?a = "nodeAddress A" and ?m = "nodeAddress M"
  have A0: "A0 = (pool_tx tx A)\<lparr>net := net A @ [(?m, inv_tx_frame EA ?a (ID tx), True)]\<rparr>"
    using submit_announces [OF assms(3,4), of EA tx] N assms(6) by simp
  then have h: "heard A A0 ?m = [inv_tx_frame EA ?a (ID tx)]" by (simp add: heard_def)
  define M1 where "M1 = M\<lparr>net := net M @ [(?a, getdata_tx_frame EM ?m (ID tx), True)]\<rparr>"
  have M1: "snd (handleConnection EM (Ok (inv_tx_frame EA ?a (ID tx))) M) = M1" "heard M M1 ?a = [getdata_tx_frame EM ?m (ID tx)]"
    using answer_inv_tx [of EM EA ?a "ID tx" M] N F assms(5) sendData_dialled [of EM M ?a] by (simp_all add: M1_def heard_def)
  define A1 where "A1 = A0\<lparr>net := net A0 @ [(?m, tx_frame EA ?a tx, True)]\<rparr>"
  have A1: "snd (handleConnection EA (Ok (getdata_tx_frame EM ?m (ID tx))) A0) = A1" "heard A0 A1 ?m = [tx_frame EA ?a tx]"
    using answer_getdata_tx [of EM EA ?m "ID tx" A0 tx] N F sendData_dialled [of EA A0 ?m]
    by (simp_all add: A1_def heard_def A0 update_conv')
  have "talk EM EA (heard A A0 ?m) M A0 = talk EM EA [tx_frame EA ?a tx] M1 A1"
    using talk_step [of EM _ M M1 A0, OF M1(1) _ A1(1)] M1(2) A1(2) unfolding h by (simp add: A0)
  then show ?thesis using that [of M1 A1] by (simp add: M1_def A1_def A0)
qed

text \<open>The announced block travels back.\<close>

lemma block_travels:
  assumes link: "linked EM EA (nodeAddress M) (nodeAddress A) [nb]"
    and "snd (handleConnection EM (Ok msg) M) = M2" and "heard M M2 (nodeAddress A) = [inv_frame EM (nodeAddress M) [Hash nb]]"
    and "nodeAddress M2 = nodeAddress M" and "BC_GetBlock (prims EM) (store EM) (db (srv_bc M2)) (Hash nb) = Ok nb"
    and "AddBlock (prims EM) (store EA) (authority_keys EA) nb (srv_bc A) = (Ok (), bc)"
  obtains M' A' where "talk EM EA [msg] M A = Some (M', A')" and "srv_bc M' = srv_bc M2" and "mempool M' = mempool M2"
    and "srv_bc A' = snd (Reindex (prims EM) (store EA) (utxo_order EA) bc)"
    and "\<forall>k. map_of (mempool A') k = (if k \<in> tx_key ` set (Transactions nb) then None else map_of (mempool A) k)"
proof -
  note N = link [unfolded linked_def]
  let ?a = "nodeAddress A" and ?m = "nodeAddress M"
  define A2 where "A2 = A\<lparr>blocksInTransit := [], net := net A @ [(?m, getdata_frame EA ?a (Hash nb), True)]\<rparr>"
  have A2: "snd (handleConnection EA (Ok (inv_frame EM ?m [Hash nb])) A) = A2" "heard A A2 ?m = [getdata_frame EA ?a (Hash nb)]"
    using answer_inv [of EM EA ?m "Hash nb" "[]" A] N sendData_dialled [of EA "A\<lparr>blocksInTransit := []\<rparr>" ?m]
    by (simp_all add: A2_def heard_def)
  have e: "nodeAddress A2 = ?a" "srv_bc A2 = srv_bc A" "blocksInTransit A2 = []" "mempool A2 = mempool A" by (simp_all add: A2_def)
  have t: "talk EM EA [msg] M A = talk EM EA [getdata_frame EA ?a (Hash nb)] M2 A2"
    using talk_step [OF assms(2,3) A2(1)] A2(2) by simp
  have link2: "linked EM EA (nodeAddress M2) ?a [nb]" "linked EM EA ?m (nodeAddress A2) [nb]" using link assms(4) e by simp_all
  have nb: "nb \<in> set [nb]" by simp
  obtain M' where M': "snd (handleConnection EM (Ok (getdata_frame EA ?a (Hash nb))) M2) = M'"
    "heard M2 M' ?a = [block_frame EM (nodeAddress M2) nb]" "srv_bc M' = srv_bc M2" "mempool M' = mempool M2"
    by (rule serve_block [OF link2(1) nb assms(5)])
  have add: "AddBlock (prims EM) (store EA) (authority_keys EA) nb (srv_bc A2) = (Ok (), bc)" using assms(6) e by simp
  obtain A' where A': "snd (handleConnection EA (Ok (block_frame EM ?m nb)) A2) = A'"
    "case blocksInTransit A2 of
        h # hs \<Rightarrow> heard A2 A' ?m = [getdata_frame EA (nodeAddress A2) h] \<and> srv_bc A' = bc \<and> blocksInTransit A' = hs
      | [] \<Rightarrow> heard A2 A' ?m = [] \<and> srv_bc A' = snd (Reindex (prims EM) (store EA) (utxo_order EA) bc) \<and> blocksInTransit A' = []"
    "\<forall>k. map_of (mempool A') k = (if k \<in> tx_key ` set (Transactions nb) then None else map_of (mempool A2) k)"
    by (rule take_block [OF link2(2) nb add])
  have "talk EM EA [getdata_frame EA ?a (Hash nb)] M2 A2 = Some (M', A')"
    using talk_step [of EM _ M2 M' A2 _ EA A', OF M'(1) _ A'(1)] M'(2) A'(2) assms(4) e by (simp add: talk.simps [of _ _ "[]"])
  then show ?thesis using that t M'(3,4) A'(2,3) e by simp
qed


section \<open>A concrete payment\<close>

abbreviation sample_address :: string where "sample_address \<equiv> address_of sample_prims sample_wallet"

definition client_node :: "(bytes \<times> bytes) list buckets Server" where
  "client_node = (NewServer ''3000'' [] (funded_bc (sample_out 10 0)))\<lparr>knownNodes := [''localhost:3000'', ''localhost:3001'']\<rparr>"

definition miner_node :: "(bytes \<times> bytes) list buckets Server" where
  "miner_node = (NewServer ''3001'' sample_address (funded_bc (sample_out 10 0)))
     \<lparr>mempool := [(tx_key sample_coinbase, sample_coinbase)], prom := no_metrics\<lparr>MempoolSize := float64 1\<rparr>\<rparr>"

lemma node_sel [simp]:
  "nodeAddress client_node = ''localhost:3000''" "knownNodes client_node = [''localhost:3000'', ''localhost:3001'']"
  "srv_bc client_node = funded_bc (sample_out 10 0)" "mempool client_node = []"
  "nodeAddress miner_node = ''localhost:3001''" "knownNodes miner_node = [''localhost:3000'']" "miningAddress miner_node = sample_address"
  "srv_bc miner_node = funded_bc (sample_out 10 0)" "mempool miner_node = [(tx_key sample_coinbase, sample_coinbase)]"
  by (simp_all add: client_node_def miner_node_def NewServer_def)

lemma sample_address_coinbase:
  obtains cb where "NewCoinbaseTX sample_prims (Ok ''00'') sample_address [] = Ok cb" and "IsCoinbase cb" and "small_tx cb"
  using address_hash_of_wallet [OF sample_sha256_ok, of sample_wallet]
  by (auto simp: NewCoinbaseTX_def NewTXOutput_eq subsidy_def Let_def IsCoinbase_def small_tx_def Hash_tx_def length_sample_pkh
      string_bytes_def sample_sha256_ok [unfolded sha256_ok_def])

lemma miner_node_inv: "srv_inv False (bolt_inv list_bbolt) (bolt_tip list_bbolt) miner_node"
  using funded_bc_ok(2) [of "sample_out 10 0"]
  by (simp add: srv_inv_def keyed_def) (simp add: miner_node_def NewServer_def)

lemma small_tx_fits:
  assumes "small_tx t" and "length a \<le> 100" and "length m \<le> 100"
  shows "tx_fits sample_env sample_env a m t"
  using small_tx_length [OF assms(1)] assms
  by (simp add: tx_fits_def small_tx_def inv_tx_frame_def getdata_tx_frame_def tx_frame_def frame_def sample_nprims_def gobEncode_def
      enc_str_def length_enc(1,2) maxMsgSize_def Serialize_tx_def sample_prims_def)

lemma sample_linked:
  assumes "length (Transactions nb) \<le> 3" and "\<forall>t \<in> set (Transactions nb). small_tx t" and "length (PrevBlockHash nb) \<le> 32"
    and "length (Hash nb) = 32" and "AuthoritySignature nb = []" and "AuthorityPubKey nb = []" and "length a \<le> 100" and "length m \<le> 100"
  shows "linked sample_env sample_env m a [nb]"
  using length_block_frame [OF assms(1-3) _ assms(5,6,8)] length_request_frames [OF assms(7)] length_request_frames [OF assms(8)]
    assms(4) sample_nprims_ok sample_gob_ok by (simp add: linked_def)

lemma sample_payment_small:
  obtains tx where "NewUTXOTransaction sample_prims list_storage (\<lambda>x. x) (\<lambda>_. 0) sample_wallet sample_address 10 (funded_bc (sample_out 10 0)) = Ok tx"
    and "VerifyTransaction sample_prims list_storage (funded_bc (sample_out 10 0)) tx = Ok True" and "small_tx tx"
    and "hex_encode (ID tx) \<noteq> tx_key sample_coinbase"
proof -
  obtain tx sig out where tx: "NewUTXOTransaction sample_prims list_storage (\<lambda>x. x) (\<lambda>_. 0) sample_wallet sample_address 10 (funded_bc (sample_out 10 0)) = Ok tx"
    "VerifyTransaction sample_prims list_storage (funded_bc (sample_out 10 0)) tx = Ok True" and tx_id: "length (ID tx) = 32"
    and small: "Vin tx = [\<lparr>Txid = [1], Vout_in = 0, Signature = sig, PubKey = sample_pk, EscrowWitness = [], IsRefund = False\<rparr>]" "length sig = 64"
      "Vout tx = [out]" "NewTXOutput 10 sample_address = Ok out" using sample_payment by blast
  have "small_tx tx"
    using small tx_id address_hash_of_wallet [OF sample_sha256_ok, of sample_wallet]
    by (auto simp: small_tx_def NewTXOutput_eq length_sample_pkh sample_pk_def)
  moreover have "ID tx \<noteq> ID sample_coinbase" using tx_id by (auto simp: sample_coinbase_def)
  ultimately show ?thesis using that tx unfolding hex_encode_inject by blast
qed


end
