(* ===== verification/Minting.thy ===== *)
theory Minting
  imports Grpc Payment
begin

text \<open>
  Minting by the authority, from the request to the unspent outputs: \<^verbatim>\<open>MintStableBalance\<close> of
  \<^verbatim>\<open>network/grpc_server.go\<close> composed with the sealing of blocks, the chain and the rebuild of the set of
  unspent outputs; and what happens to equal amounts minted for the same address.
\<close>

section \<open>Rebuilding the unspent outputs\<close>

text \<open>A database whose writes to the set of unspent outputs succeed; bbolt refuses empty keys.\<close>

definition utxo_writes_ok :: "'s Storage \<Rightarrow> ('s \<Rightarrow> bool) \<Rightarrow> bool" where
  "utxo_writes_ok S dbinv \<longleftrightarrow> (\<forall>k d s. dbinv s \<longrightarrow>
     fst (ClearUTXOSet S s) = Ok () \<and> (k \<noteq> [] \<longrightarrow> fst (SaveUTXO S k d s) = Ok ()))"

lemma utxo_fold_ids: "fst ` set (fst (fold utxo_step ts ([], \<lambda>_. []))) \<subseteq> (\<lambda>t. hex_encode (ID t)) ` set ts"
proof (rule subsetI, rule ccontr)
  let ?U = "fst (fold utxo_step ts ([], \<lambda>_. []))"
  fix k assume k: "k \<in> fst ` set ?U" and "k \<notin> (\<lambda>t. hex_encode (ID t)) ` set ts"
  then have "alist_get ?U k = []" by (subst utxo_fold_other) auto
  moreover have "map_of ?U k \<noteq> None" using k by (simp add: map_of_eq_None_iff)
  ultimately show False using map_of_alist_get [OF utxo_fold_nonempty, of "([], \<lambda>_. [])" ts k] by simp
qed

context storage
begin

lemma save_outs_returns:
  assumes "gob_ok P" and "utxo_writes_ok S inv" and "inv (db bc)" and "k \<noteq> []"
  shows "\<exists>bc'. save_outs P S msg k outs bc = (Ok (), bc') \<and> inv (db bc')"
proof -
  obtain d where d: "Serialize_outs P \<lparr>Outputs = outs\<rparr> = Ok d" using Deserialize_Serialize_outs [OF assms(1)] by blast
  obtain r d' where s: "SaveUTXO S k d (db bc) = (r, d')" by force
  have "r = Ok ()" using assms(2-4) s unfolding utxo_writes_ok_def by (metis fst_conv)
  then show ?thesis using save_utxo [OF assms(3) s] d s by (auto simp: save_outs_def on_db_def)
qed

text \<open>Over a well-formed chain whose transactions have ids, the rebuild returns.\<close>

lemma Reindex_returns:
  assumes gob: "gob_ok P" and inv: "inv (db bc)" and ord: "is_order ord"
    and good: "good_chain (BC_GetBlock P S (db bc)) (tip bc) bs" and okh: "\<forall>b \<in> set bs. okh (Hash b)"
    and w: "utxo_writes_ok S inv" and ids: "\<forall>t \<in> set (chain_txs bs). ID t \<noteq> []"
  shows "\<exists>bc'. Reindex P S ord bc = (Ok (), bc')"
proof -
  let ?U = "fst (fold utxo_step (chain_txs bs) ([], \<lambda>_. []))"
  obtain r d where c: "ClearUTXOSet S (db bc) = (r, d)" by force
  have r: "r = Ok ()" using w inv c unfolding utxo_writes_ok_def by (metis fst_conv)
  with clear_utxo [OF inv c] have fr: "utxo_frame bc (bc\<lparr>db := d\<rparr>)" by (auto simp: utxo_frame_def)
  have "chain (BC_GetBlock P S d) (tip bc) bs" using good_chain_chain [OF good_chain_frame [OF inv fr good okh]] by simp
  then have find: "FindUTXO P S (bc\<lparr>db := d\<rparr>) = Ok ?U" by (intro FindUTXO_chain) simp
  have step: "\<exists>c'. reindex_entry P S x c = (Ok (), c') \<and> inv (db c')" if "x \<in> set (ord ?U)" "inv (db c)" for x c
  proof -
    have "fst x \<in> fst ` set ?U" using that(1) is_order_set [OF ord] by (intro imageI) simp
    then obtain t where "fst x = hex_encode (ID t)" "t \<in> set (chain_txs bs)" using utxo_fold_ids by blast
    then show ?thesis using save_outs_returns [OF gob w that(2)] ids by (simp add: reindex_entry_def)
  qed
  have "\<exists>c'. for_each (reindex_entry P S) (ord ?U) (bc\<lparr>db := d\<rparr>) = (Ok (), c') \<and> inv (db c')"
    by (rule for_each_total) (use step fr in \<open>auto simp: utxo_frame_def\<close>)
  then show ?thesis using r c find by (auto simp: Reindex_def on_db_def)
qed

end

section \<open>Minting\<close>

lemma mint_tx_returns:
  assumes "ValidateAddress P address" and "0 < sint amount"
  obtains tx out where "mint_tx P amount address = Ok tx" and "NewTXOutput amount address = Ok out" and "Vout tx = [out]"
    and "IsCoinbase tx" and "ID tx = Hash_tx P (tx\<lparr>ID := []\<rparr>)"
proof -
  obtain out where "NewTXOutput amount address = Ok out"
    using ValidateAddress_hash [OF assms(1)] assms(2) by (auto simp: NewTXOutput_eq)
  then show ?thesis using that by (simp add: mint_tx_def Let_def IsCoinbase_def)
qed

text \<open>A block that the holder of a registered key makes is accepted.\<close>

lemma NewBlockPoA_key:
  "NewBlockPoA P now rnd txs prev h bits k = Ok nb \<Longrightarrow> FillBytes 32 (key_X k) = Ok xb \<Longrightarrow> FillBytes 32 (key_Y k) = Ok yb \<Longrightarrow>
     AuthorityPubKey nb = xb @ yb"
  by (auto simp: NewBlockPoA_def Let_def bind_result_eq_Ok)

lemma NewBlockPoA_hash:
  assumes "NewBlockPoA P now rnd txs prev h bits k = Ok nb" and "sha256_ok P"
  shows "length (Hash nb) = 32"
proof -
  obtain d where "SignHash P nb = Ok (sha256 P d)" by (simp add: SignHash_def)
  then show ?thesis using NewBlockPoA_OkD(5) [OF assms(1)] assms(2) by (simp add: sha256_ok_def)
qed

lemma authority_block:
  assumes "ecdsa_ok P k" and "FillBytes 32 (key_X k) = Ok xb" and "FillBytes 32 (key_Y k) = Ok yb" and "IsAuthorizedKey keys (xb @ yb)"
  obtains nb where "NewBlockPoA P now rnd txs prev h bits k = Ok nb" and "block_sealed P keys nb = Ok ()"
    and "Transactions nb = txs" and "PrevBlockHash nb = prev" and "Height nb = h"
proof -
  obtain nb where nb: "NewBlockPoA P now rnd txs prev h bits k = Ok nb"
    "VerifyPoABlock P (AddAuthorizedKey (AuthorityPubKey nb) keys) nb = Ok True"
    using NewBlockPoA_verifies [OF assms(1)] by blast
  note d = NewBlockPoA_OkD [OF nb(1)]
  have "AuthorityPubKey nb \<in> set keys" using NewBlockPoA_key [OF nb(1) assms(2,3)] assms(4) by (simp add: IsAuthorizedKey_def)
  then have "VerifyPoABlock P keys nb = Ok True" using nb(2) by simp
  then have "block_sealed P keys nb = Ok ()" using d(4) by (auto simp: block_sealed_Ok)
  then show ?thesis using that nb(1) d(1-3) by blast
qed



text \<open>
  The id of a minted transaction depends on the amount and the address only. When the same amount was
  minted twice for an address, both outputs are filed under one id, as if one transaction had
  two outputs; and as soon as the first of them is spent, the second one is gone as well.
\<close>

theorem mint_twice_lost:
  assumes "mint_tx P amount address = Ok tx" and "mint_tx P amount address = Ok tx'"
    and "chain (BC_GetBlock P S (db bc)) (tip bc) bs" and bs: "chain_txs bs = pre @ tx' # mid @ tx # post"
    and "ID tx \<notin> ID ` set (pre @ mid @ post)"
  obtains U where "FindUTXO P S bc = Ok U" and "ID tx' = ID tx"
    and "spent_by (pre @ mid) (hex_encode (ID tx)) = [] \<Longrightarrow> alist_get U (hex_encode (ID tx)) = Vout tx @ Vout tx"
    and "0 \<in> set (spent_by pre (hex_encode (ID tx))) \<Longrightarrow> alist_get U (hex_encode (ID tx)) = []"
proof -
  let ?k = "hex_encode (ID tx)" and ?f = "fold utxo_step"
  obtain out where t: "tx' = tx" "Vout tx = [out]" "IsCoinbase tx" using mint_tx_OkD [OF assms(1)] assms(1,2) by auto
  have ne: "ID t \<noteq> ID tx" if "t \<in> set (pre @ mid @ post)" for t using that assms(5) by (metis imageI)
  have o: "\<forall>t \<in> set pre. hex_encode (ID t) \<noteq> ?k" "\<forall>t \<in> set mid. hex_encode (ID t) \<noteq> ?k" "\<forall>t \<in> set post. hex_encode (ID t) \<noteq> ?k"
    by (simp_all add: ne)
  have step: "alist_get (fst (utxo_step tx st)) ?k = alist_get (fst st) ?k @ unspent_outs (snd st ?k) [out]" for st
    using utxo_step_get(1) [of tx "fst st" "snd st" ?k] t(2) by simp
  have sp: "spent_by (pre @ tx # mid) ?k = spent_by (pre @ mid) ?k" using t(3) by (simp add: spent_by_def)
  let ?s = "?f pre ([], \<lambda>_. [])" and ?s' = "?f (pre @ tx # mid) ([], \<lambda>_. [])"
  have "alist_get (fst (?f (chain_txs bs) ([], \<lambda>_. []))) ?k = alist_get (fst ?s') ?k @ unspent_outs (snd ?s' ?k) [out]"
    using utxo_fold_other [OF o(3), of "utxo_step tx ?s'"] step [of ?s'] by (simp add: bs t(1))
  also have "alist_get (fst ?s') ?k = unspent_outs (snd ?s ?k) [out]"
    using utxo_fold_other [OF o(2), of "utxo_step tx ?s"] step [of ?s] utxo_fold_other [OF o(1), of "([], \<lambda>_. [])"] by simp
  finally have g: "alist_get (fst (?f (chain_txs bs) ([], \<lambda>_. []))) ?k =
      unspent_outs (spent_by pre ?k) [out] @ unspent_outs (spent_by (pre @ mid) ?k) [out]"
    unfolding utxo_fold_spent sp by simp
  have ap: "spent_by (pre @ mid) ?k = spent_by pre ?k @ spent_by mid ?k" by (simp add: spent_by_def)
  show ?thesis
    by (rule that [OF FindUTXO_chain [OF assms(3)]]) (simp_all only: g t ap, simp_all add: unspent_outs_def)
qed

end
