(* ===== verification/Spec2Isabelle.thy ===== *)
theory Spec2Isabelle
  imports Marketplace Zkcp Chaos AgentMain IndexerMain Node Tls TxString Minting
begin

text \<open>
  Verification library of the Go blockchain node under \<^verbatim>\<open>src/\<close>: the chain and its consensus, the
  peer-to-peer node, the programming interfaces around it, and the agent daemon with its spending
  firewall. Each theory models one component of the program, in the order of its code, and proves
  the properties of that component; theories import the components they call.

  \<^bold>\<open>How code is modelled\<close>

  \<^item> A Go function is a HOL function of the same name. Its outcome is the datatype \<open>result\<close> (\<open>Prelude\<close>):
    a value, an error with its text, a panic, or divergence. Methods that write take the state and
    return the new one, also on the error paths; in particular an error leaves behind what the
    code had written until then.
  \<^item> Structs are records, tagged values are datatypes. \<^verbatim>\<open>int\<close> and \<^verbatim>\<open>int64\<close> are 64-bit words
    with signed comparison (\<open>sint\<close>), so sums wrap around as they do in Go; indexing out of range panics.
  \<^item> Ranging over a Go map has no fixed order: every such loop takes an argument that permutes the
    entries (\<open>is_order\<close>), and the properties hold for all of them.
  \<^item> What is not code of the repository is a parameter with a named hypothesis: hashes, signatures
    and gob encoding (\<open>Prims\<close> with \<open>sha256_ok\<close>, \<open>gob_ok\<close>, \<open>ecdsa_ok\<close>), key files (\<open>WPrims\<close>, \<open>wprims_ok\<close>),
    message encoding (\<open>NPrims\<close>, \<open>nprims_ok\<close>), the bbolt database (\<open>bbolt\<close>, \<open>bbolt_ok\<close>), JSON, clocks,
    randomness, dialled connections. \<open>Instances\<close> and the sections on concrete data give instances
    for which all hypotheses hold, and the witnesses of the properties run on them.
  \<^item> A handler of a server is one step on the state of the server, as the code holds its lock or
    runs in one goroutine. Where the code releases the lock in between (\<open>SubmitTransaction\<close>) the work of
    other goroutines is an argument. \<open>node_run\<close>, \<open>sse_reach\<close>, \<open>fw_reach\<close> are the states that any order of steps can
    reach.
  \<^item> Loops with a bound are recursive functions with a termination proof (\<open>run_loop\<close> up to
    \<open>maxNonce\<close>, \<open>merkle_loop\<close>, \<open>reverse_loop\<close>). The walk along previous hashes (\<open>blocks_iter\<close>, \<open>anchor_loop\<close>) and the mining
    loop (\<open>mine_loop\<close>) have no bound in the code: they are partial functions, \<open>Diverge\<close> is the outcome of
    not returning, and that they return is proved on well-formed chains and for pools without
    panics. There is no fuel.

  \<^bold>\<open>The theories\<close>

  \<^descr> \<open>Prelude\<close>, \<open>Encoding\<close>, \<open>Types\<close>, \<open>Instances\<close>: outcomes, Go slices, ordered iteration; base 58 and number
    encoding (\<^verbatim>\<open>core/base58.go\<close>, \<^verbatim>\<open>core/utils.go\<close>); the structs of \<^verbatim>\<open>core\<close>; concrete codecs.
  \<^descr> \<open>Wallet\<close> (\<^verbatim>\<open>core/wallet.go\<close>, \<^verbatim>\<open>core/wallets.go\<close>): keys, addresses and the wallet file, which reads
    back what was saved.
  \<^descr> \<open>Output\<close>, \<open>Transaction\<close> (\<^verbatim>\<open>core/transaction_output.go\<close>, \<^verbatim>\<open>core/transaction.go\<close>): locking scripts,
    signing and verification. \<open>Verify\<close> is characterised exactly; escrows are safe; signing
    makes verification succeed; and what verification misses: ownership of plain outputs, overflow.
  \<^descr> \<open>Merkle\<close>, \<open>Block\<close> (\<^verbatim>\<open>core/merkle_tree.go\<close>, \<^verbatim>\<open>core/block.go\<close>, \<^verbatim>\<open>core/proofofwork.go\<close>, \<^verbatim>\<open>core/poa.go\<close>): the
    tree refines a recursive root; mined blocks meet the target; signed blocks are exactly those
    an authority signed.
  \<^descr> \<open>Storage\<close>, \<open>Bolt\<close> (\<^verbatim>\<open>storage/storage.go\<close>, \<^verbatim>\<open>storage/bolt/boltdb.go\<close>): the locale \<open>storage\<close> is the
    contract of the Go interface (three abstract maps under an invariant), and \<open>bolt\<close> interprets it
    for the bbolt implementation. Everything above is proved from the contract.
  \<^descr> \<open>Chain\<close>, \<open>Utxo\<close>, \<open>TxBuild\<close> (\<^verbatim>\<open>core/blockchain.go\<close>, \<^verbatim>\<open>core/utxo_set.go\<close>, builders of \<^verbatim>\<open>core/transaction.go\<close>):
    \<open>good_chain\<close> is kept by mining; \<open>AddBlock\<close> is described on every branch; the unspent outputs
    computed from the chain and those kept in the database refine an abstract set; payments conserve
    value.
  \<^descr> \<open>Metrics\<close>, \<open>Server\<close>, \<open>ServerProps\<close> (\<^verbatim>\<open>metrics/metrics.go\<close>, \<^verbatim>\<open>network/server.go\<close>): every message handler, the mempool,
    mining on demand, block subscriptions, and the gauges and counters that these set; the invariant of
    the node under arbitrary input (locale \<open>node_storage\<close>, an extension of \<open>storage\<close>), block download,
    termination of mining, and a remote panic. The gauges of the pool and of the peers are right after
    every step of a started node.
  \<^descr> \<open>Mining\<close>, \<open>Sync\<close>, \<open>Payment\<close>: a round of mining on demand, on the pool, the chain and the unspent outputs; two
    nodes that talk to each other (\<open>talk\<close>, a partial function whose end is proved): the one that is behind ends up
    with the chain of the other; and a payment from its submission at the first node to the block that
    both nodes have. \<open>Minting\<close> follows a request of the authority in the same way, through \<^verbatim>\<open>grpc_server.go\<close>, to the
    set of unspent outputs, and shows what equal requests lead to. A peer can make the gauge of the height wrong (\<open>height_gauge_misled\<close>).
  \<^descr> \<open>Proto\<close>, \<open>Grpc\<close>, \<open>RestApi\<close>, \<open>Chaos\<close> (\<^verbatim>\<open>network/proto_converter.go\<close>, \<^verbatim>\<open>network/grpc_server.go\<close>,
    \<^verbatim>\<open>api/handler.go\<close>, \<^verbatim>\<open>network/chaos.go\<close>): the remote procedures and HTTP handlers, and fault injection.
  \<^descr> \<open>Indexer\<close>, \<open>Marketplace\<close>, \<open>Zkcp\<close> (\<^verbatim>\<open>indexer/\<close>, \<^verbatim>\<open>marketplace/\<close>, \<^verbatim>\<open>zkcp/circuit.go\<close>): the index refines
    a fold of events per escrow and follows the life of an escrow; deals that are built can be
    settled, by claim or by refund; search in the catalogue.
  \<^descr> \<open>Firewall\<close>, \<open>Mcp\<close> (\<^verbatim>\<open>firewall/\<close>, \<^verbatim>\<open>mcp/\<close>): policies and their signatures; the locale \<open>spend_guard\<close> is
    what the tools of the daemon need of the firewall; whatever an agent sends, the session stays
    within its budget.
  \<^descr> \<open>Sse\<close>, \<open>Float64\<close>, \<open>Pages\<close>, \<open>IndexPage\<close>, \<open>Dashboard\<close> (\<^verbatim>\<open>dashboard/\<close>): the event broker never panics, and events survive
    their framing; \<open>Float64\<close> is the rounding of Go's floating-point numbers as a function on the
    rational numbers; \<open>Pages\<close> holds the HTML texts of \<^verbatim>\<open>templates.go\<close>, \<open>IndexPage\<close> that of the index page with
    the panels it declares, \<open>Dashboard\<close> the functions that fill them and the handlers of \<^verbatim>\<open>dashboard.go\<close>.
    A browser is told what the pages show, every panel of the index page is served by a route and
    listens to an event that is sent, and the gauge of the budget is right to one percent.
  \<^descr> \<open>Cli\<close> (\<^verbatim>\<open>cli/root.go\<close>): the subcommands over a world of files; sending and mining a payment from
    the command line, and what a failed creation leaves behind.
  \<^descr> \<open>Node\<close> (\<^verbatim>\<open>startnode\<close>, \<^verbatim>\<open>api/server.go\<close>, \<^verbatim>\<open>Start\<close> of \<^verbatim>\<open>network/server.go\<close>): the running node with its peers and
    clients; whatever happens to it, it can be started again from its file.
  \<^descr> \<open>AgentMain\<close> (\<^verbatim>\<open>cmd/sign-policy\<close>, \<^verbatim>\<open>cmd/mcp-daemon\<close>): a policy that the one signs is enforced by the other.
  \<^descr> \<open>IndexerMain\<close> (\<^verbatim>\<open>cmd/indexer\<close>): the index composed with the stream of a node is the specified function of
    the chain of that node.
  \<^descr> \<open>Tls\<close> (\<^verbatim>\<open>network/tls.go\<close>): certificates and settings; which peers a server accepts.
  \<^descr> \<open>TxString\<close> (\<^verbatim>\<open>Transaction.String\<close>): what the text of a transaction says about it.

  \<^bold>\<open>Not modelled\<close>

  The images of the dashboard are embedded files, which \<^verbatim>\<open>dashboard/assets.go\<close> hands to a file server of the
  HTTP library; parsing and filling of the index template (the parameters \<open>parse\<close> and \<open>execute_html\<close>) and the text form of
  the metrics (the parameter \<open>expo\<close> of \<open>NewAPIServer\<close>) belong to their libraries, as do listening, accepting and graceful
  shutdown of the HTTP and gRPC servers, and the declaration and parsing of flags; \<^verbatim>\<open>cmd/node\<close> only
  calls \<^verbatim>\<open>cli.Execute\<close>; \<^verbatim>\<open>api/proto\<close> is generated, and its messages are records of \<open>Proto\<close>. Log lines are
  left out, except those that are the only output of a program. Data races are outside the
  model: the granularity of steps is that of the locks.
\<close>

end
